(* ===== verification/Prelude.thy ===== *)
theory Prelude
  imports Complex_Main "HOL-Library.List_Lexorder" "HOL-Library.Char_ord"
begin

text \<open>
  The vocabulary every component theory shares: the exception classes of the program, results
  that are either an exception or a value, stateful operations over an abstract outside world,
  and the list lemmas the components need.  Exception texts are not modelled, only the class:
  every \<open>raise\<close> of the source is an \<open>Inl\<close> branch of the model.
\<close>

section \<open>Exceptions and results\<close>

text \<open>
  The exception classes raised or caught by the program.  \<open>ForeignException\<close> and
  \<open>ForeignBaseException\<close> stand for classes the program never names (the second for those
  outside \<open>Exception\<close>, such as \<open>KeyboardInterrupt\<close>); the number tells them apart.
\<close>

datatype exn =
    ValueError
  | TypeError
  | OverflowError
  | AssertionError
  | RecursionError
  | UnicodeDecodeError
  | OSError
  | TimeoutError
  | FileNotFoundError
  | HTTPException
  | UnknownHostError
  | EngineClockError
  | UnknownNodeError
  | IngestClockError
  | MalformedHeartbeatPayloadError
  | HeartbeatAuthenticationError
  | DuplicateNodeTokenError
  | SchemaCompatibilityError
  | UnsupportedSchemaVersionError
  | DeadManStateDecodeError
  | DeadManStateStoreError
  | DeadManTelegramDeliveryError
  | DeadManRuntimeError
  | TelegramDeliveryError
  | CentralSettingsError
  | DeadManSettingsError
  | JSONRejected
  | StrictJsonInputError
  | ForeignException nat
  | ForeignBaseException nat

text \<open>The subclass tests the \<open>except\<close> clauses of the source perform.\<close>

definition is_value_error :: "exn \<Rightarrow> bool" where
  "is_value_error e \<longleftrightarrow> e \<in> {ValueError, UnicodeDecodeError, DuplicateNodeTokenError, StrictJsonInputError}"

definition is_os_error :: "exn \<Rightarrow> bool" where
  "is_os_error e \<longleftrightarrow> e \<in> {OSError, TimeoutError, FileNotFoundError}"

fun is_exception :: "exn \<Rightarrow> bool" where
  "is_exception (ForeignBaseException _) = False"
| "is_exception _ = True"

type_synonym 'a res = "exn + 'a"

definition bind_res :: "'a res \<Rightarrow> ('a \<Rightarrow> 'b res) \<Rightarrow> 'b res" where
  "bind_res m f = (case m of Inl e \<Rightarrow> Inl e | Inr x \<Rightarrow> f x)"

text \<open>\<open>if condition: raise e\<close> as a statement.\<close>

definition raise_if :: "bool \<Rightarrow> exn \<Rightarrow> unit res" where
  "raise_if c e = (if c then Inl e else Inr ())"

text \<open>A sequence of validation statements: the first one that raises decides.\<close>

fun in_order :: "unit res list \<Rightarrow> unit res" where
  "in_order [] = Inr ()"
| "in_order (c # cs) = (case c of Inl e \<Rightarrow> Inl e | Inr _ \<Rightarrow> in_order cs)"

text \<open>Evaluation of a generator or comprehension: left to right, the first exception escapes.\<close>

fun map_res :: "('a \<Rightarrow> 'b res) \<Rightarrow> 'a list \<Rightarrow> 'b list res" where
  "map_res f [] = Inr []"
| "map_res f (x # xs) =
     (case f x of Inl e \<Rightarrow> Inl e
      | Inr y \<Rightarrow> (case map_res f xs of Inl e \<Rightarrow> Inl e | Inr ys \<Rightarrow> Inr (y # ys)))"

text \<open>\<open>try: m except p: h\<close>\<close>

definition catch_res :: "'a res \<Rightarrow> (exn \<Rightarrow> bool) \<Rightarrow> (exn \<Rightarrow> 'a res) \<Rightarrow> 'a res" where
  "catch_res m p h = (case m of Inl e \<Rightarrow> (if p e then h e else Inl e) | Inr x \<Rightarrow> Inr x)"

text \<open>A frozen dataclass: the field values are kept when \<open>__post_init__\<close> accepts them.\<close>

definition validated :: "('a \<Rightarrow> unit res) \<Rightarrow> 'a \<Rightarrow> 'a res" where
  "validated post_init x = (case post_init x of Inl e \<Rightarrow> Inl e | Inr _ \<Rightarrow> Inr x)"

named_theorems res_simps \<open>equations of the result combinators\<close>

lemma bind_res_Inl [simp, res_simps]: "bind_res (Inl e) f = Inl e"
  by (simp add: bind_res_def)

lemma bind_res_Inr [simp, res_simps]: "bind_res (Inr x) f = f x"
  by (simp add: bind_res_def)

lemma bind_res_eq_Inr [simp, res_simps]:
  "bind_res m f = Inr y \<longleftrightarrow> (\<exists>x. m = Inr x \<and> f x = Inr y)"
  by (cases m) auto

lemma bind_res_eq_Inl [res_simps]:
  "bind_res m f = Inl e \<longleftrightarrow> m = Inl e \<or> (\<exists>x. m = Inr x \<and> f x = Inl e)"
  by (cases m) auto

lemma raise_if_eq_Inr [simp, res_simps]: "raise_if c e = Inr u \<longleftrightarrow> \<not> c"
  by (simp add: raise_if_def)

lemma raise_if_eq_Inl [simp, res_simps]: "raise_if c e = Inl e' \<longleftrightarrow> c \<and> e' = e"
  by (auto simp: raise_if_def)

lemma validated_eq_Inr [simp, res_simps]:
  "validated p x = Inr y \<longleftrightarrow> p x = Inr () \<and> y = x"
  by (cases "p x") (auto simp: validated_def)

lemma in_order_append:
  "in_order (as @ bs) = (case in_order as of Inl e \<Rightarrow> Inl e | Inr _ \<Rightarrow> in_order bs)"
  by (induction as) (auto split: sum.splits)

lemma in_order_eq_Inr [simp, res_simps]:
  "in_order cs = Inr u \<longleftrightarrow> (\<forall>c \<in> set cs. c = Inr ())"
  by (induction cs) (auto split: sum.splits)

lemma in_order_eq_Inl:
  "in_order cs = Inl e \<Longrightarrow> Inl e \<in> set cs"
  by (induction cs) (auto split: sum.splits)

text \<open>The characterisation above is the rule that fires, not the unfolding into nested cases.\<close>

declare in_order.simps(2) [simp del]

lemma in_order_single [simp]: "in_order [c] = c"
  by (cases c) (auto simp: in_order.simps(2))

lemma catch_res_eq_Inr [res_simps]:
  "catch_res m p h = Inr y \<longleftrightarrow> m = Inr y \<or> (\<exists>e. m = Inl e \<and> p e \<and> h e = Inr y)"
  by (auto simp: catch_res_def split: sum.splits)

lemma map_sum_eq_Inr [simp]: "map_sum f g s = Inr y \<longleftrightarrow> (\<exists>x. s = Inr x \<and> y = g x)"
  by (cases s) auto

lemma map_res_eq_Inr:
  "map_res f xs = Inr ys \<longleftrightarrow> list_all2 (\<lambda>x y. f x = Inr y) xs ys"
proof (induction xs arbitrary: ys)
  case Nil
  then show ?case by auto
next
  case (Cons x xs)
  then show ?case
    by (cases ys; cases "f x"; cases "map_res f xs") auto
qed

lemma map_res_map:
  "(\<And>x. x \<in> set xs \<Longrightarrow> f (g x) = Inr (h x)) \<Longrightarrow> map_res f (map g xs) = Inr (map h xs)"
  by (induction xs) auto

section \<open>Stateful operations\<close>

text \<open>
  An operation with effects takes the outside world (clock, network, file system, ...), of a type
  the model leaves open, and returns its result together with the world afterwards.  What lies
  outside the repository is a parameter of this type.
\<close>

type_synonym ('w, 'a) io = "'w \<Rightarrow> 'a res \<times> 'w"

definition bind_io :: "('w, 'a) io \<Rightarrow> ('a \<Rightarrow> ('w, 'b) io) \<Rightarrow> ('w, 'b) io" where
  "bind_io m f w = (case m w of (Inl e, w') \<Rightarrow> (Inl e, w') | (Inr x, w') \<Rightarrow> f x w')"

definition return_io :: "'a \<Rightarrow> ('w, 'a) io" where
  "return_io x w = (Inr x, w)"

definition lift_io :: "'a res \<Rightarrow> ('w, 'a) io" where
  "lift_io r w = (r, w)"

text \<open>\<open>try: m except p: h\<close> with effects\<close>

definition catch_io :: "('w, 'a) io \<Rightarrow> (exn \<Rightarrow> bool) \<Rightarrow> (exn \<Rightarrow> ('w, 'a) io) \<Rightarrow> ('w, 'a) io" where
  "catch_io m p h w =
     (case m w of (Inl e, w') \<Rightarrow> (if p e then h e w' else (Inl e, w')) | (Inr x, w') \<Rightarrow> (Inr x, w'))"

lemma return_io_apply [simp]: "return_io x w = (Inr x, w)"
  by (simp add: return_io_def)

lemma lift_io_apply [simp]: "lift_io r w = (r, w)"
  by (simp add: lift_io_def)

lemma bind_io_Inl [simp]: "m w = (Inl e, w') \<Longrightarrow> bind_io m f w = (Inl e, w')"
  by (simp add: bind_io_def)

lemma bind_io_Inr [simp]: "m w = (Inr x, w') \<Longrightarrow> bind_io m f w = f x w'"
  by (simp add: bind_io_def)

text \<open>An operation of the outer world run inside a state it does not touch.\<close>

definition on_snd :: "('w, 'a) io \<Rightarrow> ('s \<times> 'w, 'a) io" where
  "on_snd m sw = (case sw of (s, w) \<Rightarrow> case m w of (r, w') \<Rightarrow> (r, s, w'))"

lemma on_snd_apply [simp]: "on_snd m (s, w) = (fst (m w), s, snd (m w))"
  by (simp add: on_snd_def split: prod.splits)

lemma bind_io_split:
  "bind_io m f w = (case fst (m w) of Inl e \<Rightarrow> (Inl e, snd (m w)) | Inr x \<Rightarrow> f x (snd (m w)))"
  by (simp add: bind_io_def split: prod.splits sum.splits)

lemma catch_io_split:
  "catch_io m p h w =
    (case fst (m w) of Inl e \<Rightarrow> (if p e then h e (snd (m w)) else m w) | Inr x \<Rightarrow> m w)"
  by (cases "m w") (auto simp: catch_io_def split: sum.splits)

section \<open>Lists in lexicographic order\<close>

text \<open>Texts of a common prefix length compare by the prefix first.\<close>

lemma append_less_same_length:
  fixes a b c d :: "'a::linorder list"
  assumes "length a = length b"
  shows "a @ c < b @ d \<longleftrightarrow> a < b \<or> (a = b \<and> c < d)"
  using assms by (induction a b rule: list_induct2) auto

lemma last_drop_Suc: "xs \<noteq> [] \<Longrightarrow> length xs \<noteq> 1 \<Longrightarrow> last (tl xs) = last xs"
  by (cases xs) (auto simp: last_tl)

lemma set_tl_subset: "x \<in> set (tl xs) \<Longrightarrow> x \<in> set xs"
  by (cases xs) auto

lemma in_order_raises: "in_order cs = Inl e \<Longrightarrow> list_ex (\<lambda>c. c = Inl e) cs"
  by (auto simp: list_ex_iff dest: in_order_eq_Inl)

lemma validated_eq_Inl: "validated p x = Inl e \<longleftrightarrow> p x = Inl e"
  by (simp add: validated_def split: sum.splits)

lemma find_SomeD: "find P xs = Some x \<Longrightarrow> x \<in> set xs \<and> P x"
  by (auto simp: find_Some_iff)

end
