(* ===== verification/Py_Float.thy ===== *)
theory Py_Float
  imports Prelude "HOL-Library.Log_Nat"
begin

text \<open>
  Python numbers as the program uses them: binary64 floats with their special values, exact
  comparison between ints and floats, \<open>math.isfinite\<close>, correct rounding of an exact quotient
  (\<open>timedelta.total_seconds\<close>), float addition and \<open>math.nextafter\<close> towards infinity.  A finite
  float is the rational number it denotes; the two zeros are not told apart (no operation of
  the program does).
\<close>

section \<open>Values and comparisons\<close>

datatype pyfloat = Fin rat | PInf | NInf | NaN

text \<open>A Python value of static type \<open>float\<close> or \<open>int\<close>: both can reach a numeric field.\<close>

datatype pynum = PInt int | PFlt pyfloat

fun flt_isfinite :: "pyfloat \<Rightarrow> bool" where
  "flt_isfinite (Fin _) = True"
| "flt_isfinite _ = False"

fun flt_le :: "pyfloat \<Rightarrow> pyfloat \<Rightarrow> bool" where
  "flt_le NaN _ = False"
| "flt_le _ NaN = False"
| "flt_le NInf _ = True"
| "flt_le _ PInf = True"
| "flt_le (Fin a) (Fin b) = (a \<le> b)"
| "flt_le _ _ = False"

fun flt_less :: "pyfloat \<Rightarrow> pyfloat \<Rightarrow> bool" where
  "flt_less NaN _ = False"
| "flt_less _ NaN = False"
| "flt_less NInf b = (b \<noteq> NInf)"
| "flt_less a PInf = (a \<noteq> PInf)"
| "flt_less (Fin a) (Fin b) = (a < b)"
| "flt_less _ _ = False"

text \<open>Python compares an int with a float by their exact values.\<close>

fun exact :: "pynum \<Rightarrow> pyfloat" where
  "exact (PInt i) = Fin (of_int i)"
| "exact (PFlt x) = x"

definition num_le :: "pynum \<Rightarrow> pynum \<Rightarrow> bool" where
  "num_le a b = flt_le (exact a) (exact b)"

definition num_less :: "pynum \<Rightarrow> pynum \<Rightarrow> bool" where
  "num_less a b = flt_less (exact a) (exact b)"

text \<open>
  \<open>math.isfinite\<close> converts its argument to a double first: an int whose nearest double would be
  out of range raises \<open>OverflowError\<close>.
\<close>

definition float_overflow_bound :: int where
  "float_overflow_bound = 2 ^ 1024 - 2 ^ 970"

fun math_isfinite :: "pynum \<Rightarrow> bool res" where
  "math_isfinite (PInt i) = (if \<bar>i\<bar> < float_overflow_bound then Inr True else Inl OverflowError)"
| "math_isfinite (PFlt x) = Inr (flt_isfinite x)"

lemma flt_isfinite_iff: "flt_isfinite x \<longleftrightarrow> (\<exists>r. x = Fin r)"
  by (cases x) auto

section \<open>Rounding to binary64\<close>

text \<open>Binary logarithm of a positive rational, rounded down.\<close>

definition ilog2 :: "rat \<Rightarrow> int" where
  "ilog2 x =
     (let (p, q) = quotient_of x; k = bitlen p - bitlen q
      in if 2 powi k \<le> x then k else k - 1)"

text \<open>Nearest integer, ties to even.\<close>

definition round_half_even :: "rat \<Rightarrow> int" where
  "round_half_even x =
     (let f = \<lfloor>x\<rfloor>; d = x - of_int f
      in if d < 1 / 2 then f else if d > 1 / 2 then f + 1 else if even f then f else f + 1)"

text \<open>The exponent of the unit in the last place of the binade of \<open>x\<close>, subnormals included.\<close>

definition ulp_exp :: "rat \<Rightarrow> int" where
  "ulp_exp x = max (ilog2 x - 52) (-1074)"

definition round_magnitude :: "rat \<Rightarrow> rat" where
  "round_magnitude x =
     (let e = ulp_exp x in of_int (round_half_even (x / 2 powi e)) * 2 powi e)"

definition round64 :: "rat \<Rightarrow> pyfloat" where
  "round64 x =
     (if x = 0 then Fin 0
      else let r = round_magnitude \<bar>x\<bar>
           in if 2 ^ 1024 \<le> r then (if 0 < x then PInf else NInf)
              else Fin (if 0 < x then r else - r))"

definition is_double :: "rat \<Rightarrow> bool" where
  "is_double x \<longleftrightarrow> round64 x = Fin x"

fun flt_add :: "pyfloat \<Rightarrow> pyfloat \<Rightarrow> pyfloat" where
  "flt_add NaN _ = NaN"
| "flt_add _ NaN = NaN"
| "flt_add PInf NInf = NaN"
| "flt_add NInf PInf = NaN"
| "flt_add PInf _ = PInf"
| "flt_add _ PInf = PInf"
| "flt_add NInf _ = NInf"
| "flt_add _ NInf = NInf"
| "flt_add (Fin a) (Fin b) = round64 (a + b)"

fun flt_neg :: "pyfloat \<Rightarrow> pyfloat" where
  "flt_neg (Fin a) = Fin (- a)"
| "flt_neg PInf = NInf"
| "flt_neg NInf = PInf"
| "flt_neg NaN = NaN"

definition flt_sub :: "pyfloat \<Rightarrow> pyfloat \<Rightarrow> pyfloat" where
  "flt_sub a b = flt_add a (flt_neg b)"

text \<open>
  \<open>math.nextafter(x, inf)\<close>.  Below zero the step is the one of the binade of the result: when
  \<open>-x\<close> is a power of two the neighbour towards zero lies half a step away.
\<close>

fun nextafter_up :: "pyfloat \<Rightarrow> pyfloat" where
  "nextafter_up NaN = NaN"
| "nextafter_up PInf = PInf"
| "nextafter_up NInf = Fin (- (2 ^ 1024 - 2 ^ 971))"
| "nextafter_up (Fin x) =
     (if x = 0 then Fin (2 powi (-1074))
      else if 0 < x then
        (let y = x + 2 powi (ulp_exp x) in if 2 ^ 1024 \<le> y then PInf else Fin y)
      else
        (let a = - x; e = ilog2 a
         in if a = 2 powi e \<and> e > -1022 then Fin (x + 2 powi (e - 53))
            else Fin (x + 2 powi (ulp_exp a))))"

subsection \<open>Laws of the rounding\<close>

lemma powi_pos [simp]: "0 < (2::rat) powi k"
  by (simp add: power_int_def)

lemma powi_le_iff: "(2::rat) powi a \<le> 2 powi b \<longleftrightarrow> a \<le> b"
proof
  show "a \<le> b" if "(2::rat) powi a \<le> 2 powi b"
    using that power_int_strict_increasing [of b a "2::rat"] by (force simp: not_le)
qed (simp add: power_int_increasing)

lemma powi_less_iff: "(2::rat) powi a < 2 powi b \<longleftrightarrow> a < b"
  using powi_le_iff [of b a] by (simp add: not_le [symmetric])

lemma powi_succ: "(2::rat) powi (k + 1) = 2 * 2 powi k"
  by (simp add: power_int_add_1')

lemma powi_pred: "(2::rat) powi (k - 1) = 2 powi k / 2"
  by (simp add: power_int_diff)

lemma bitlen_powi:
  assumes "0 < p"
  shows "(2::rat) powi (bitlen p - 1) \<le> of_int p" and "of_int p < (2::rat) powi (bitlen p)"
proof -
  have b: "2 ^ nat (bitlen p - 1) \<le> p" "p < 2 ^ nat (bitlen p)"
    using bitlen_bounds [OF assms] by auto
  have pos: "0 < bitlen p" using assms bitlen_eq_zero_iff [of p] bitlen_nonneg [of p] by linarith
  have "(of_int (2 ^ nat (bitlen p - 1)) :: rat) \<le> of_int p"
    using b(1) by (simp only: of_int_le_iff)
  then show "(2::rat) powi (bitlen p - 1) \<le> of_int p"
    using pos by (simp add: power_int_def)
  have "(of_int p :: rat) < of_int (2 ^ nat (bitlen p))"
    using b(2) by (simp only: of_int_less_iff)
  then show "of_int p < (2::rat) powi (bitlen p)"
    using pos by (simp add: power_int_def)
qed

lemma ilog2_bounds:
  assumes "0 < x"
  shows "2 powi (ilog2 x) \<le> x" and "x < 2 powi (ilog2 x + 1)"
proof -
  obtain p q where pq: "quotient_of x = (p, q)" by (cases "quotient_of x")
  have q: "0 < q" using quotient_of_denom_pos [OF pq] .
  have x: "x = of_int p / of_int q" using quotient_of_div [OF pq] .
  have p: "0 < p" using assms x q by (simp add: zero_less_divide_iff)
  note bp = bitlen_powi [OF p] and bq = bitlen_powi [OF q]
  let ?k = "bitlen p - bitlen q"
  have qpos: "0 < (of_int q :: rat)" using q by simp
  have up: "x < 2 powi (?k + 1)"
  proof -
    have "of_int p < (2::rat) powi (?k + 1) * 2 powi (bitlen q - 1)"
      using bp(2) by (simp add: power_int_add [symmetric])
    also have "\<dots> \<le> 2 powi (?k + 1) * of_int q"
      using bq(1) by (intro mult_left_mono) auto
    finally show ?thesis using qpos by (simp add: x pos_divide_less_eq)
  qed
  have lo: "2 powi (?k - 1) \<le> x"
  proof -
    have "(2::rat) powi (?k - 1) * of_int q \<le> 2 powi (?k - 1) * 2 powi (bitlen q)"
      using bq(2) by (intro mult_left_mono) auto
    also have "\<dots> = 2 powi (bitlen p - 1)"
      by (simp add: power_int_add [symmetric])
    also have "\<dots> \<le> of_int p" by (rule bp(1))
    finally show ?thesis using qpos by (simp add: x pos_le_divide_eq)
  qed
  show "2 powi (ilog2 x) \<le> x" "x < 2 powi (ilog2 x + 1)"
    using up lo by (simp_all add: ilog2_def pq Let_def)
qed

lemma ilog2_le: "0 < x \<Longrightarrow> x < 2 powi (k + 1) \<Longrightarrow> ilog2 x \<le> k"
  using ilog2_bounds(1) [of x] powi_less_iff [of "ilog2 x" "k + 1"] by force

lemma ilog2_ge: "2 powi k \<le> x \<Longrightarrow> k \<le> ilog2 x"
  using ilog2_bounds(2) [of x] powi_less_iff [of k "ilog2 x + 1"] powi_pos [of k]
  by (force simp del: powi_pos)

lemma ilog2_powi [simp]: "ilog2 (2 powi k) = k"
  by (intro antisym ilog2_le ilog2_ge) (simp_all add: powi_less_iff)

lemma ilog2_mono: "0 < x \<Longrightarrow> x \<le> y \<Longrightarrow> ilog2 x \<le> ilog2 y"
  by (rule ilog2_ge) (use ilog2_bounds(1) [of x] in force)

lemma ulp_exp_mono: "0 < x \<Longrightarrow> x \<le> y \<Longrightarrow> ulp_exp x \<le> ulp_exp y"
  using ilog2_mono [of x y] by (simp add: ulp_exp_def)

lemma round_half_even_of_int [simp]: "round_half_even (of_int i) = i"
  by (simp add: round_half_even_def)

lemma round_half_even_mono:
  assumes "x \<le> y"
  shows "round_half_even x \<le> round_half_even y"
proof (cases "\<lfloor>x\<rfloor> = \<lfloor>y\<rfloor>")
  case True
  then show ?thesis using assms by (auto simp: round_half_even_def Let_def)
next
  case False
  then have "\<lfloor>x\<rfloor> + 1 \<le> \<lfloor>y\<rfloor>" using floor_mono [OF assms] by linarith
  then show ?thesis by (auto simp: round_half_even_def Let_def)
qed

lemma round_half_even_upper: "x \<le> of_int n \<Longrightarrow> round_half_even x \<le> n"
  using round_half_even_mono [of x "of_int n"] by simp

lemma round_half_even_lower: "of_int n \<le> x \<Longrightarrow> n \<le> round_half_even x"
  using round_half_even_mono [of "of_int n" x] by simp

lemma scaled_upper:
  assumes "0 < x"
  shows "x / 2 powi (ulp_exp x) \<le> of_int (2 ^ 53)"
proof -
  have "x < 2 powi (ilog2 x + 1)" using ilog2_bounds(2) [OF assms] .
  also have "\<dots> \<le> 2 powi (53 + ulp_exp x)" by (simp add: powi_le_iff ulp_exp_def)
  also have "\<dots> = 2 ^ 53 * 2 powi (ulp_exp x)" by (simp add: power_int_add)
  finally show ?thesis by (simp add: pos_divide_le_eq)
qed

lemma scaled_lower:
  assumes "0 < x" and "-1074 < ulp_exp x"
  shows "of_int (2 ^ 52) \<le> x / 2 powi (ulp_exp x)"
proof -
  have "2 ^ 52 * 2 powi (ulp_exp x) = (2::rat) powi (52 + ulp_exp x)"
    by (simp add: power_int_add)
  also have "52 + ulp_exp x = ilog2 x" using assms(2) by (simp add: ulp_exp_def max_def split: if_splits)
  also have "2 powi (ilog2 x) \<le> x" using ilog2_bounds(1) [OF assms(1)] .
  finally show ?thesis by (simp add: pos_le_divide_eq)
qed

lemma round_magnitude_nonneg: "0 < x \<Longrightarrow> 0 \<le> round_magnitude x"
  using round_half_even_lower [of 0 "x / 2 powi (ulp_exp x)"]
  by (simp add: round_magnitude_def Let_def)

lemma scale_mono: "m \<le> n \<Longrightarrow> of_int m * 2 powi e \<le> (of_int n * 2 powi e :: rat)"
  by (simp add: mult_right_mono)

lemma round_magnitude_mono:
  assumes "0 < x" and "x \<le> y"
  shows "round_magnitude x \<le> round_magnitude y"
proof -
  define e where "e = ulp_exp x"
  define f where "f = ulp_exp y"
  have y: "0 < y" and ef: "e \<le> f" using assms ulp_exp_mono [OF assms] by (auto simp: e_def f_def)
  show ?thesis
  proof (cases "e = f")
    case True
    have "x / 2 powi e \<le> y / 2 powi e" using assms by (simp add: divide_right_mono)
    from round_half_even_mono [OF this] show ?thesis
      using True by (simp add: round_magnitude_def Let_def e_def f_def mult_right_mono)
  next
    case False
    with ef have lt: "e + 1 \<le> f" by simp
    then have "-1074 < f" by (simp add: e_def ulp_exp_def)
    then have "(2 ^ 52 :: int) \<le> round_half_even (y / 2 powi f)"
      using scaled_lower [OF y] by (intro round_half_even_lower) (simp add: f_def)
    then have b: "of_int (2 ^ 52) * 2 powi f \<le> round_magnitude y"
      unfolding round_magnitude_def Let_def f_def by (rule scale_mono)
    have "round_half_even (x / 2 powi e) \<le> 2 ^ 53"
      using scaled_upper [OF assms(1)] by (intro round_half_even_upper) (simp add: e_def)
    then have "round_magnitude x \<le> of_int (2 ^ 53) * 2 powi e"
      unfolding round_magnitude_def Let_def e_def by (rule scale_mono)
    also have "\<dots> = of_int (2 ^ 52) * 2 powi (e + 1)" by (simp add: powi_succ)
    also have "\<dots> \<le> of_int (2 ^ 52) * 2 powi f"
      using lt by (intro mult_left_mono) (simp_all add: powi_le_iff)
    also note b
    finally show ?thesis .
  qed
qed

lemma round64_zero [simp]: "round64 0 = Fin 0"
  by (simp add: round64_def)

lemma round64_nonneg: "0 \<le> x \<Longrightarrow> round64 x = PInf \<or> (\<exists>r \<ge> 0. round64 x = Fin r)"
  using round_magnitude_nonneg [of x] by (auto simp: round64_def Let_def)

text \<open>Rounding keeps the order of non-negative quotients.\<close>

lemma round64_mono:
  assumes "0 \<le> x" and "x \<le> y"
  shows "flt_le (round64 x) (round64 y)"
proof (cases "x = 0")
  case True
  with round64_nonneg [of y] assms show ?thesis by auto
next
  case False
  with assms have "0 < x" "0 < y" by auto
  with round_magnitude_mono [of x y] assms(2) show ?thesis
    by (auto simp: round64_def Let_def)
qed

lemma flt_le_trans: "flt_le a b \<Longrightarrow> flt_le b c \<Longrightarrow> flt_le a c"
  by (cases a; cases b; cases c) auto

lemma flt_less_le_trans: "flt_less a b \<Longrightarrow> flt_le b c \<Longrightarrow> flt_less a c"
  by (cases a; cases b; cases c) auto

lemma flt_le_less_trans: "flt_le a b \<Longrightarrow> flt_less b c \<Longrightarrow> flt_less a c"
  by (cases a; cases b; cases c) auto

lemma flt_less_imp_le: "flt_less a b \<Longrightarrow> flt_le a b"
  by (cases a; cases b) auto

text \<open>On finite values the comparisons are total.\<close>

lemma flt_not_le: "a \<noteq> NaN \<Longrightarrow> b \<noteq> NaN \<Longrightarrow> \<not> flt_le a b \<longleftrightarrow> flt_less b a"
  by (cases a; cases b) auto

text \<open>The successor of a finite float is strictly above it.\<close>

lemma nextafter_up_greater: "flt_less (Fin x) (nextafter_up (Fin x))"
  by (auto simp: Let_def)

end
