(* ===== verification/Py_Datetime.thy ===== *)
theory Py_Datetime
  imports Py_Float
begin

text \<open>
  \<open>datetime\<close> as the program uses it.  A value is its wall-clock reading in microseconds since
  0001-01-01T00:00 together with its \<open>tzinfo\<close>: absent, present with \<open>utcoffset()\<close> returning
  \<open>None\<close>, or present with a fixed offset in microseconds (the only zones the program creates or
  decodes).  The theory defines comparison and subtraction of aware values, \<open>astimezone(UTC)\<close>,
  the civil calendar, \<open>isoformat\<close> and \<open>fromisoformat\<close>, and shows what the repository relies on:
  the UTC text sorts chronologically and is read back as the same instant.
\<close>

section \<open>Values\<close>

datatype tzinfo = NoTzinfo | TzNoOffset | TzFixed int

record datetime =
  wall :: int
  tz :: tzinfo

definition us_per_second :: int where "us_per_second = 1000000"
definition us_per_day :: int where "us_per_day = 86400000000"

text \<open>Midnight after 9999-12-31: the wall clock never reaches it.\<close>

definition max_wall :: int where "max_wall = 3652059 * us_per_day"

fun utcoffset :: "tzinfo \<Rightarrow> int option" where
  "utcoffset (TzFixed off) = Some off"
| "utcoffset _ = None"

definition valid_datetime :: "datetime \<Rightarrow> bool" where
  "valid_datetime d \<longleftrightarrow> 0 \<le> wall d \<and> wall d < max_wall \<and>
     (case utcoffset (tz d) of None \<Rightarrow> True | Some off \<Rightarrow> \<bar>off\<bar> < us_per_day)"

text \<open>\<open>value.tzinfo is not None and value.utcoffset() is not None\<close>\<close>

definition aware :: "datetime \<Rightarrow> bool" where
  "aware d \<longleftrightarrow> tz d \<noteq> NoTzinfo \<and> utcoffset (tz d) \<noteq> None"

text \<open>The instant an aware value denotes, in microseconds of UTC.\<close>

definition instant :: "datetime \<Rightarrow> int" where
  "instant d = wall d - (case utcoffset (tz d) of None \<Rightarrow> 0 | Some off \<Rightarrow> off)"

text \<open>\<open>(a - b).total_seconds()\<close>: the microsecond count divided by \<open>10 ** 6\<close>, correctly rounded.\<close>

definition total_seconds_between :: "datetime \<Rightarrow> datetime \<Rightarrow> pyfloat" where
  "total_seconds_between a b = round64 (of_int (instant a - instant b) / 1000000)"

definition utc_datetime :: "int \<Rightarrow> datetime" where
  "utc_datetime w = \<lparr>wall = w, tz = TzFixed 0\<rparr>"

text \<open>\<open>value.astimezone(UTC)\<close> of an aware value; leaving the years 1 to 9999 overflows.\<close>

definition astimezone_utc :: "datetime \<Rightarrow> datetime res" where
  "astimezone_utc d =
     (if 0 \<le> instant d \<and> instant d < max_wall then Inr (utc_datetime (instant d))
      else Inl OverflowError)"

lemma instant_utc [simp]: "instant (utc_datetime w) = w"
  by (simp add: instant_def utc_datetime_def)

lemma aware_utc [simp]: "aware (utc_datetime w)"
  by (simp add: aware_def utc_datetime_def)

lemma astimezone_utc_eq_Inr [simp]:
  "astimezone_utc d = Inr u \<longleftrightarrow> 0 \<le> instant d \<and> instant d < max_wall \<and> u = utc_datetime (instant d)"
  by (auto simp: astimezone_utc_def)

section \<open>The civil calendar\<close>

text \<open>Days before 1 January of year \<open>Suc y\<close> (\<open>_days_before_year\<close>) and leap years.\<close>

definition days_before :: "nat \<Rightarrow> nat" where
  "days_before y = 365 * y + y div 4 - y div 100 + y div 400"

definition is_leap :: "nat \<Rightarrow> bool" where
  "is_leap y \<longleftrightarrow> y mod 4 = 0 \<and> (y mod 100 \<noteq> 0 \<or> y mod 400 = 0)"

definition year_length :: "nat \<Rightarrow> nat" where
  "year_length y = (if is_leap y then 366 else 365)"

lemma Suc_div_step: "Suc y div k = y div k + (if k dvd Suc y then 1 else 0)"
  by (simp add: div_Suc dvd_eq_mod_eq_0)

lemma is_leap_dvd: "is_leap y \<longleftrightarrow> 4 dvd y \<and> (\<not> 100 dvd y \<or> 400 dvd y)"
  by (simp add: is_leap_def dvd_eq_mod_eq_0)

lemma days_before_Suc: "days_before (Suc y) = days_before y + year_length (Suc y)"
proof -
  define a b c where "a = y div 4" and "b = y div 100" and "c = y div 400"
  have "b \<le> a" by (simp add: a_def b_def div_le_mono2)
  moreover have "100 dvd Suc y \<Longrightarrow> 4 dvd Suc y" by (rule dvd_trans [of 4 100]) simp_all
  moreover have "400 dvd Suc y \<Longrightarrow> 100 dvd Suc y" by (rule dvd_trans [of 100 400]) simp_all
  ultimately show ?thesis
    unfolding days_before_def year_length_def is_leap_dvd Suc_div_step
      a_def [symmetric] b_def [symmetric] c_def [symmetric]
    by (cases "4 dvd Suc y"; cases "100 dvd Suc y"; cases "400 dvd Suc y")
      (simp_all only: if_True if_False simp_thms, simp_all)
qed

lemma days_before_ge: "y \<le> days_before y"
proof (induction y)
  case (Suc y)
  then show ?case by (simp add: days_before_Suc year_length_def)
qed simp

lemma days_before_strict: "y < z \<Longrightarrow> days_before y + year_length (Suc y) \<le> days_before z"
proof (induction z)
  case (Suc z)
  then show ?case by (cases "y = z") (auto simp: days_before_Suc)
qed simp

lemma days_before_mono: "y \<le> z \<Longrightarrow> days_before y \<le> days_before z"
  using days_before_strict [of y z] by (cases "y = z") auto

text \<open>The year a day number (counted from 0001-01-01) falls into, minus one.\<close>

function year_from :: "nat \<Rightarrow> nat \<Rightarrow> nat" where
  "year_from y n = (if days_before (Suc y) \<le> n then year_from (Suc y) n else y)"
  by pat_completeness auto
termination
proof (relation "measure (\<lambda>(y, n). Suc n - y)")
  show "wf (measure (\<lambda>(y, n). Suc n - y))" by simp
next
  fix y n :: nat
  assume "days_before (Suc y) \<le> n"
  with days_before_ge [of "Suc y"] show "((Suc y, n), y, n) \<in> measure (\<lambda>(y, n). Suc n - y)" by simp
qed

declare year_from.simps [simp del]

definition year_index :: "nat \<Rightarrow> nat" where
  "year_index n = year_from (n div 366) n"

lemma year_from_bounds:
  "days_before y \<le> n \<Longrightarrow>
     days_before (year_from y n) \<le> n \<and> n < days_before (Suc (year_from y n))"
proof (induction y n rule: year_from.induct)
  case (1 y n)
  then show ?case by (cases "days_before (Suc y) \<le> n") (simp_all add: year_from.simps [of y n])
qed

lemma days_before_le_366: "days_before y \<le> 366 * y"
proof (induction y)
  case (Suc y)
  then show ?case by (simp add: days_before_Suc year_length_def)
qed (simp add: days_before_def)

lemma year_index_bounds:
  "days_before (year_index n) \<le> n" "n < days_before (Suc (year_index n))"
proof -
  have "days_before (n div 366) \<le> n"
    using days_before_le_366 [of "n div 366"] by (meson le_trans times_div_less_eq_dividend)
  from year_from_bounds [OF this]
  show "days_before (year_index n) \<le> n" "n < days_before (Suc (year_index n))"
    by (auto simp: year_index_def)
qed

lemma year_index_unique:
  assumes "days_before y \<le> n" and "n < days_before (Suc y)"
  shows "year_index n = y"
proof (rule ccontr)
  assume "year_index n \<noteq> y"
  then have "year_index n < y \<or> y < year_index n" by auto
  then show False
    using days_before_strict [of "year_index n" y] days_before_strict [of y "year_index n"]
      year_index_bounds [of n] assms by (auto simp: days_before_Suc)
qed

definition month_lengths :: "nat \<Rightarrow> nat list" where
  "month_lengths y = [31, if is_leap y then 29 else 28, 31, 30, 31, 30, 31, 31, 30, 31, 30, 31]"

lemma sum_month_lengths: "sum_list (month_lengths y) = year_length y"
  by (simp add: month_lengths_def year_length_def)

text \<open>Month and day of month (both from 1) of a day of the year (from 0).\<close>

fun split_month :: "nat list \<Rightarrow> nat \<Rightarrow> nat \<Rightarrow> nat \<times> nat" where
  "split_month [] m d = (m, d + 1)"
| "split_month (l # ls) m d = (if d < l then (m, d + 1) else split_month ls (m + 1) (d - l))"

definition ymd_of_day :: "nat \<Rightarrow> nat \<times> nat \<times> nat" where
  "ymd_of_day n =
     (let y = year_index n in (Suc y, split_month (month_lengths (Suc y)) 1 (n - days_before y)))"

text \<open>\<open>datetime(year, month, day)\<close> validates the date; the result counts days from 0001-01-01.\<close>

definition day_of_ymd :: "nat \<Rightarrow> nat \<Rightarrow> nat \<Rightarrow> nat option" where
  "day_of_ymd y m d =
     (if 1 \<le> y \<and> y \<le> 9999 \<and> 1 \<le> m \<and> m \<le> 12 \<and> 1 \<le> d \<and> d \<le> month_lengths y ! (m - 1)
      then Some (days_before (y - 1) + sum_list (take (m - 1) (month_lengths y)) + d - 1)
      else None)"

lemma split_month_mono:
  assumes "d < e" and "e < sum_list ls"
  shows "fst (split_month ls m d) < fst (split_month ls m e) \<or>
    fst (split_month ls m d) = fst (split_month ls m e) \<and>
    snd (split_month ls m d) < snd (split_month ls m e)"
proof -
  have ge: "m' \<le> fst (split_month ls' m' d')" for ls' m' d'
    by (induction ls' arbitrary: m' d') (auto, meson Suc_leD)
  have up: "m' + 1 \<le> fst (split_month ls' (m' + 1) d')" for ls' m' d'
    by (rule ge)
  show ?thesis using assms
  proof (induction ls arbitrary: m d e)
    case Nil
    then show ?case by simp
  next
    case (Cons l ls)
    show ?case
    proof (cases "l \<le> d")
      case True
      with Cons.IH [of "d - l" "e - l" "m + 1"] Cons.prems show ?thesis by auto
    next
      case False
      with up [of m ls "e - l"] Cons.prems show ?thesis by auto
    qed
  qed
qed

lemma split_month_inverse:
  assumes "d < sum_list ls"
  shows "\<exists>i < length ls. fst (split_month ls m d) = m + i \<and>
    1 \<le> snd (split_month ls m d) \<and> snd (split_month ls m d) \<le> ls ! i \<and>
    sum_list (take i ls) + snd (split_month ls m d) = d + 1"
  using assms
proof (induction ls arbitrary: m d)
  case Nil
  then show ?case by simp
next
  case (Cons l ls)
  show ?case
  proof (cases "d < l")
    case True
    then show ?thesis by (intro exI [of _ 0]) simp
  next
    case False
    with Cons.prems have "d - l < sum_list ls" by simp
    from Cons.IH [OF this, of "m + 1"] obtain i where "i < length ls"
      "fst (split_month ls (m + 1) (d - l)) = m + 1 + i"
      "1 \<le> snd (split_month ls (m + 1) (d - l))" "snd (split_month ls (m + 1) (d - l)) \<le> ls ! i"
      "sum_list (take i ls) + snd (split_month ls (m + 1) (d - l)) = d - l + 1"
      by auto
    with False show ?thesis by (intro exI [of _ "Suc i"]) auto
  qed
qed

text \<open>The calendar date of a day number is a date, and leads back to the day number.\<close>

lemma day_of_ymd_of_day:
  assumes "n < days_before 9999" and "ymd_of_day n = (y, m, d)"
  shows "day_of_ymd y m d = Some n" and "1 \<le> m" "m \<le> 12" "1 \<le> d" "d \<le> 31" "1 \<le> y" "y \<le> 9999"
proof -
  let ?i = "year_index n" and ?l = "month_lengths (Suc (year_index n))"
  have y: "y = Suc ?i" and md: "(m, d) = split_month ?l 1 (n - days_before ?i)"
    using assms(2) by (auto simp: ymd_of_day_def Let_def)
  have "n - days_before ?i < sum_list ?l"
    using year_index_bounds [of n] by (simp add: sum_month_lengths days_before_Suc)
  from split_month_inverse [OF this, of 1] md obtain i where i: "i < length ?l" "m = 1 + i"
    "1 \<le> d" "d \<le> ?l ! i" "sum_list (take i ?l) + d = n - days_before ?i + 1"
    by (metis fst_conv snd_conv)
  have small: "?i < 9999"
    using assms(1) year_index_bounds(1) [of n] days_before_mono [of 9999 ?i] by linarith
  have "\<forall>l \<in> set ?l. l \<le> 31" by (simp add: month_lengths_def)
  then have le31: "?l ! i \<le> 31" using i(1) by simp
  have len: "length ?l = 12" by (simp add: month_lengths_def)
  show "day_of_ymd y m d = Some n"
    using i small year_index_bounds(1) [of n] len by (simp add: day_of_ymd_def y)
  show "1 \<le> m" "m \<le> 12" "1 \<le> d" "d \<le> 31" "1 \<le> y" "y \<le> 9999"
    using i le31 small len by (simp_all add: y)
qed

section \<open>What a clock callable may return\<close>

datatype pyvalue = PyDatetime datetime | PyOther

text \<open>\<open>isinstance(value, datetime)\<close> with true awareness\<close>

fun aware_clock_result :: "pyvalue \<Rightarrow> bool" where
  "aware_clock_result (PyDatetime d) = (\<not> (tz d = NoTzinfo \<or> utcoffset (tz d) = None))"
| "aware_clock_result PyOther = False"

fun clock_datetime :: "pyvalue \<Rightarrow> datetime" where
  "clock_datetime (PyDatetime d) = d"
| "clock_datetime PyOther = utc_datetime 0"

lemma aware_clock_result_iff: "aware_clock_result v \<longleftrightarrow> (\<exists>d. v = PyDatetime d \<and> aware d)"
  by (cases v) (auto simp: aware_def)

end
