(* ===== verification/Py_Iso.thy ===== *)
theory Py_Iso
  imports Py_Datetime
begin

text \<open>
  \<open>datetime.isoformat\<close> and \<open>datetime.fromisoformat\<close> on characters.  The reader follows the
  library's algorithm (calendar and ISO-week dates, basic and extended times, fractions, offsets);
  \<open>None\<close> is its \<open>ValueError\<close>.  The two facts the program needs are proved here: the canonical UTC
  text compares like the instant it denotes (so SQLite's text order is chronological), and reading
  it back yields the same instant.
\<close>

section \<open>Decimal digits\<close>

definition dig :: "nat \<Rightarrow> char" where
  "dig n = char_of (48 + n mod 10)"

definition digit_val :: "char \<Rightarrow> nat option" where
  "digit_val c =
     (let v = of_char c :: nat in if 48 \<le> v \<and> v \<le> 57 then Some (v - 48) else None)"

text \<open>\<open>"%0kd" % n\<close>\<close>

fun digits :: "nat \<Rightarrow> nat \<Rightarrow> string" where
  "digits 0 n = []"
| "digits (Suc k) n = digits k (n div 10) @ [dig n]"

fun num_of :: "nat \<Rightarrow> string \<Rightarrow> nat option" where
  "num_of acc [] = Some acc"
| "num_of acc (c # cs) =
     (case digit_val c of None \<Rightarrow> None | Some v \<Rightarrow> num_of (10 * acc + v) cs)"

text \<open>Exactly \<open>k\<close> ASCII digits.\<close>

definition int_exact :: "nat \<Rightarrow> string \<Rightarrow> nat option" where
  "int_exact k s = (if length s = k then num_of 0 s else None)"

lemma of_char_dig [simp]: "of_char (dig n) = (48 + n mod 10 :: nat)"
proof -
  have "48 + n mod 10 < 256" using mod_less_divisor [of 10 n] by linarith
  then show ?thesis by (simp add: dig_def)
qed

lemma digit_val_dig [simp]: "digit_val (dig n) = Some (n mod 10)"
proof -
  have "n mod 10 \<le> 9" using mod_less_divisor [of 10 n] by linarith
  then show ?thesis by (simp add: digit_val_def Let_def)
qed

lemma dig_neq: "digit_val c = None \<Longrightarrow> dig n \<noteq> c"
  by auto

lemma dig_not_punct [simp]:
  "dig n \<noteq> CHR ''-''" "dig n \<noteq> CHR '':''" "dig n \<noteq> CHR ''+''" "dig n \<noteq> CHR ''Z''"
  "dig n \<noteq> CHR ''W''" "dig n \<noteq> CHR ''T''"
  by (rule dig_neq, simp add: digit_val_def)+

lemma dig_less_iff: "dig a < dig b \<longleftrightarrow> a mod 10 < b mod 10"
  by (simp add: less_char_def)

lemma dig_eq_iff: "dig a = dig b \<longleftrightarrow> a mod 10 = b mod 10"
proof
  assume "dig a = dig b"
  then show "a mod 10 = b mod 10" by (auto dest: arg_cong [where f = digit_val])
qed (simp add: dig_def)

lemma length_digits [simp]: "length (digits k n) = k"
  by (induction k arbitrary: n) auto

lemma set_digits: "c \<in> set (digits k n) \<Longrightarrow> \<exists>m. c = dig m"
  by (induction k arbitrary: n) auto

lemma num_of_append:
  "num_of acc (xs @ [dig n]) = map_option (\<lambda>v. 10 * v + n mod 10) (num_of acc xs)"
  by (induction xs arbitrary: acc) (auto split: option.splits)

lemma num_of_digits: "num_of acc (digits k n) = Some (acc * 10 ^ k + n mod 10 ^ k)"
  by (induction k arbitrary: n) (auto simp: num_of_append mod_mult2_eq algebra_simps)

lemma int_exact_digits [simp]: "int_exact k (digits k n) = Some (n mod 10 ^ k)"
  by (simp add: int_exact_def num_of_digits)

lemma digits_less_iff:
  "n < 10 ^ k \<Longrightarrow> m < 10 ^ k \<Longrightarrow> digits k n < digits k m \<longleftrightarrow> n < m"
proof (induction k arbitrary: n m)
  case 0
  then show ?case by simp
next
  case (Suc k)
  have "n div 10 < 10 ^ k" "m div 10 < 10 ^ k" using Suc.prems by auto
  note IH = Suc.IH [OF this]
  have "digits k (n div 10) = digits k (m div 10) \<longleftrightarrow> n div 10 = m div 10"
    using IH Suc.IH [OF \<open>m div 10 < 10 ^ k\<close> \<open>n div 10 < 10 ^ k\<close>] by (metis nat_neq_iff order_less_irrefl)
  then have "digits (Suc k) n < digits (Suc k) m \<longleftrightarrow>
      n div 10 < m div 10 \<or> n div 10 = m div 10 \<and> n mod 10 < m mod 10"
    by (simp add: append_less_same_length IH dig_less_iff)
  also have "\<dots> \<longleftrightarrow> n < m"
  proof -
    have "n = 10 * (n div 10) + n mod 10" "m = 10 * (m div 10) + m mod 10"
      "n mod 10 < 10" "m mod 10 < 10" by simp_all
    then show ?thesis by linarith
  qed
  finally show ?case .
qed

lemma digits_eq_iff:
  "n < 10 ^ k \<Longrightarrow> m < 10 ^ k \<Longrightarrow> digits k n = digits k m \<longleftrightarrow> n = m"
  using digits_less_iff [of n k m] digits_less_iff [of m k n] by (metis nat_neq_iff order_less_irrefl)

section \<open>isoformat\<close>

definition iso_date :: "nat \<Rightarrow> string" where
  "iso_date n =
     (case ymd_of_day n of (y, m, d) \<Rightarrow> digits 4 y @ ''-'' @ digits 2 m @ ''-'' @ digits 2 d)"

definition iso_hms :: "nat \<Rightarrow> string" where
  "iso_hms s = digits 2 (s div 3600) @ '':'' @ digits 2 (s div 60 mod 60) @ '':'' @ digits 2 (s mod 60)"

definition iso_fraction :: "nat \<Rightarrow> string" where
  "iso_fraction us = (if us = 0 then '''' else ''.'' @ digits 6 us)"

text \<open>\<open>_format_offset\<close>: seconds and microseconds appear only when they are not zero.\<close>

definition iso_offset :: "int \<Rightarrow> string" where
  "iso_offset off =
     (let a = nat \<bar>off\<bar>; us = a mod 1000000; s = a div 1000000
      in (if off < 0 then ''-'' else ''+'') @ digits 2 (s div 3600) @ '':'' @ digits 2 (s div 60 mod 60)
         @ (if s mod 60 = 0 \<and> us = 0 then '''' else '':'' @ digits 2 (s mod 60) @ iso_fraction us))"

definition isoformat :: "datetime \<Rightarrow> string" where
  "isoformat d =
     (let us = nat (wall d) mod 1000000; s = nat (wall d) div 1000000
      in iso_date (s div 86400) @ ''T'' @ iso_hms (s mod 86400) @ iso_fraction us
         @ (case utcoffset (tz d) of None \<Rightarrow> '''' | Some off \<Rightarrow> iso_offset off))"

section \<open>fromisoformat\<close>

definition is_digit :: "char \<Rightarrow> bool" where
  "is_digit c \<longleftrightarrow> digit_val c \<noteq> None"

text \<open>\<open>_find_isoformat_datetime_separator\<close>, for texts of at least seven characters\<close>

definition find_separator :: "string \<Rightarrow> nat option" where
  "find_separator s =
     (if length s = 7 then Some 7
      else if s ! 4 = CHR ''-'' then
        (if s ! 5 = CHR ''W'' then
           (if length s > 8 \<and> s ! 8 = CHR ''-'' then
              (if length s = 9 then None
               else if length s > 10 \<and> is_digit (s ! 10) then Some 8 else Some 10)
            else Some 8)
         else Some 10)
      else if s ! 4 = CHR ''W'' then
        (let idx = 7 + length (takeWhile is_digit (drop 7 s))
         in if idx < 9 then Some idx else if even idx then Some 7 else Some 8)
      else Some 8)"

text \<open>\<open>_isoweek_to_gregorian\<close>, as a day number\<close>

definition day_of_isoweek :: "nat \<Rightarrow> nat \<Rightarrow> nat \<Rightarrow> nat option" where
  "day_of_isoweek y w d =
     (if \<not> (1 \<le> y \<and> y \<le> 9999) then None
      else let first = days_before (y - 1); weekday = first mod 7;
               week_ok = (0 < w \<and> w < 53 \<or>
                 w = 53 \<and> ((first + 1) mod 7 = 4 \<or> (first + 1) mod 7 = 3 \<and> is_leap y));
               monday = (if weekday > 3 then first - weekday + 7 else first - weekday);
               day = monday + (w - 1) * 7 + (d - 1)
           in if week_ok \<and> 0 < d \<and> d < 8 \<and> day < days_before 9999 then Some day else None)"

definition parse_date :: "string \<Rightarrow> nat option" where
  "parse_date s =
     (if length s \<notin> {7, 8, 10} then None else
      let has_sep = (s ! 4 = CHR ''-''); rest = drop (if has_sep then 5 else 4) s
      in case int_exact 4 (take 4 s) of None \<Rightarrow> None | Some y \<Rightarrow>
        if take 1 rest = ''W'' then
          (case int_exact 2 (take 2 (drop 1 rest)) of None \<Rightarrow> None | Some w \<Rightarrow>
             let rest' = drop 3 rest
             in if rest' = [] then day_of_isoweek y w 1
                else if (take 1 rest' = ''-'') \<noteq> has_sep then None
                else (case int_exact 1 (take 1 (drop (if has_sep then 1 else 0) rest')) of
                        None \<Rightarrow> None | Some d \<Rightarrow> day_of_isoweek y w d))
        else
          (case int_exact 2 (take 2 rest) of None \<Rightarrow> None | Some m \<Rightarrow>
             let rest' = drop 2 rest
             in if (take 1 rest' = ''-'') \<noteq> has_sep then None
                else (case int_exact 2 (take 2 (drop (if has_sep then 1 else 0) rest')) of
                        None \<Rightarrow> None | Some d \<Rightarrow> day_of_ymd y m d)))"

text \<open>
  The component loop of \<open>_parse_hh_mm_ss_ff\<close>: \<open>i\<close> counts the components read, \<open>sep\<close> is the
  separator decision made after the first.  The result holds the components and the unread rest.
\<close>

function hms_loop :: "nat \<Rightarrow> bool \<Rightarrow> string \<Rightarrow> (nat list \<times> string) option" where
  "hms_loop i sep s =
     (if length s < 2 then None
      else case int_exact 2 (take 2 s) of None \<Rightarrow> None | Some v \<Rightarrow>
        let rest = drop 2 s; sep' = (if i = 0 then take 1 rest = '':'' else sep)
        in if rest = [] \<or> 2 \<le> i then Some ([v], rest)
           else if sep' \<and> take 1 rest \<noteq> '':'' then None
           else (case hms_loop (Suc i) sep' (drop (if sep' then 1 else 0) rest) of
                   None \<Rightarrow> None | Some (vs, r) \<Rightarrow> Some (v # vs, r)))"
  by pat_completeness auto
termination
  by (relation "measure (\<lambda>(i, sep, s). length s)") auto

declare hms_loop.simps [simp del]

definition parse_fraction :: "string \<Rightarrow> nat option" where
  "parse_fraction r =
     (if r = [] then Some 0
      else if hd r \<notin> {CHR ''.'', CHR '',''} then None
      else let f = tl r; n = min 6 (length f)
           in if n = 0 \<or> \<not> list_all is_digit (drop n f) then None
              else map_option (\<lambda>v. v * 10 ^ (6 - n)) (int_exact n (take n f)))"

text \<open>Hours, minutes, seconds (as one second count) and microseconds, with the hour, minute and
  second kept for the range check of the constructor.\<close>

definition parse_hms :: "string \<Rightarrow> (nat \<times> nat \<times> nat \<times> nat) option" where
  "parse_hms s =
     (case hms_loop 0 False s of None \<Rightarrow> None
      | Some (vs, r) \<Rightarrow>
          (case parse_fraction r of None \<Rightarrow> None
           | Some us \<Rightarrow>
               Some (vs ! 0, if 1 < length vs then vs ! 1 else 0,
                     if 2 < length vs then vs ! 2 else 0, us)))"

text \<open>One past the first occurrence, or 0: \<open>tstr.find(c) + 1\<close>\<close>

definition find1 :: "char \<Rightarrow> string \<Rightarrow> nat" where
  "find1 c s = (if c \<in> set s then Suc (length (takeWhile (\<lambda>x. x \<noteq> c) s)) else 0)"

definition tz_position :: "string \<Rightarrow> nat" where
  "tz_position s =
     (if find1 (CHR ''-'') s \<noteq> 0 then find1 (CHR ''-'') s
      else if find1 (CHR ''+'') s \<noteq> 0 then find1 (CHR ''+'') s
      else find1 (CHR ''Z'') s)"

definition parse_offset :: "char \<Rightarrow> string \<Rightarrow> tzinfo option" where
  "parse_offset sign s =
     (if length s \<in> {0, 1, 3} then None
      else case parse_hms s of None \<Rightarrow> None
      | Some (h, m, sec, us) \<Rightarrow>
          let off = int (((h * 60 + m) * 60 + sec) * 1000000 + us)
          in if off = 0 then Some (TzFixed 0)
             else if off < us_per_day then Some (TzFixed (if sign = CHR ''-'' then - off else off))
             else None)"

text \<open>Microseconds of the day and zone; the constructor's range checks are part of the result.\<close>

definition parse_time :: "string \<Rightarrow> (nat \<times> tzinfo) option" where
  "parse_time s =
     (if length s < 2 then None
      else let p = tz_position s; t = (if p > 0 then take (p - 1) s else s)
           in case parse_hms t of None \<Rightarrow> None
              | Some (h, m, sec, us) \<Rightarrow>
                  (case (if p = length s \<and> last s = CHR ''Z'' then Some (TzFixed 0)
                         else if p > 0 then parse_offset (s ! (p - 1)) (drop p s)
                         else Some NoTzinfo) of
                     None \<Rightarrow> None
                   | Some z \<Rightarrow>
                       if h < 24 \<and> m < 60 \<and> sec < 60
                       then Some (((h * 60 + m) * 60 + sec) * 1000000 + us, z) else None))"

definition fromisoformat :: "string \<Rightarrow> datetime option" where
  "fromisoformat s =
     (if length s < 7 then None
      else case find_separator s of None \<Rightarrow> None
      | Some k \<Rightarrow>
          (case parse_date (take k s) of None \<Rightarrow> None
           | Some n \<Rightarrow>
               (case (if drop (Suc k) s = [] then Some (0, NoTzinfo) else parse_time (drop (Suc k) s)) of
                  None \<Rightarrow> None
                | Some (us, z) \<Rightarrow> Some \<lparr>wall = int n * us_per_day + int us, tz = z\<rparr>)))"

section \<open>The canonical UTC text\<close>

definition utc_text :: "int \<Rightarrow> string" where
  "utc_text w = isoformat (utc_datetime w)"

lemma iso_offset_utc: "iso_offset 0 = ''+00:00''"
proof -
  have "dig 0 = CHR ''0''" by (simp add: dig_def char_of_def bit_0)
  then show ?thesis by (simp add: iso_offset_def numeral_2_eq_2)
qed

lemma utc_text_parts:
  "utc_text w =
     iso_date (nat w div 1000000 div 86400) @ ''T'' @ iso_hms (nat w div 1000000 mod 86400)
       @ iso_fraction (nat w mod 1000000) @ ''+00:00''"
  by (simp add: utc_text_def isoformat_def utc_datetime_def iso_offset_utc Let_def)

lemma length_iso_date [simp]: "length (iso_date n) = 10"
  by (simp add: iso_date_def split: prod.splits)

lemma length_iso_hms [simp]: "length (iso_hms n) = 8"
  by (simp add: iso_hms_def)

lemma days_before_9999: "days_before 9999 = 3652059"
  by (simp add: days_before_def)

lemma ymd_of_day_mono:
  assumes "n < m" "ymd_of_day n = (y, mo, d)" "ymd_of_day m = (y', mo', d')"
  shows "y < y' \<or> y = y' \<and> (mo < mo' \<or> mo = mo' \<and> d < d')"
proof -
  let ?i = "year_index n" and ?j = "year_index m"
  have ij: "?i \<le> ?j"
    using year_index_bounds [of n] year_index_bounds [of m] assms(1) days_before_mono [of "Suc ?j" ?i]
    by linarith
  show ?thesis
  proof (cases "?i = ?j")
    case True
    have "m - days_before ?j < sum_list (month_lengths (Suc ?j))"
      using year_index_bounds [of m] by (simp add: sum_month_lengths days_before_Suc)
    moreover have "n - days_before ?j < m - days_before ?j"
      using year_index_bounds(1) [of n] assms(1) True by (intro diff_less_mono) auto
    ultimately show ?thesis
      using split_month_mono [of "n - days_before ?j" "m - days_before ?j" "month_lengths (Suc ?j)" 1]
        assms(2,3) True
      by (auto simp: ymd_of_day_def Let_def)
  next
    case False
    with ij assms(2,3) show ?thesis by (auto simp: ymd_of_day_def Let_def)
  qed
qed

lemma iso_date_less:
  assumes "n < m" "m < 3652059"
  shows "iso_date n < iso_date m"
proof -
  obtain y mo d where n: "ymd_of_day n = (y, mo, d)" by (cases "ymd_of_day n")
  obtain y' mo' d' where m: "ymd_of_day m = (y', mo', d')" by (cases "ymd_of_day m")
  have "n < days_before 9999" "m < days_before 9999" using assms by (simp_all add: days_before_9999)
  note b = day_of_ymd_of_day [OF this(1) n] day_of_ymd_of_day [OF this(2) m]
  from ymd_of_day_mono [OF assms(1) n m] b show ?thesis
    by (auto simp: iso_date_def n m append_less_same_length digits_less_iff)
qed

text \<open>Quotient and remainder compare lexicographically.\<close>

lemma div_mod_lex:
  fixes n m k :: nat
  assumes "n < m"
  shows "n div k < m div k \<or> n div k = m div k \<and> n mod k < m mod k"
proof (cases "n div k = m div k")
  case True
  then show ?thesis using assms by (metis mult_div_mod_eq nat_add_left_cancel_less)
next
  case False
  then show ?thesis using div_le_mono [of n m k] assms by auto
qed

lemma iso_hms_less:
  assumes "s < t" "t < 86400"
  shows "iso_hms s < iso_hms t"
proof -
  have q: "x div 60 div 60 = x div 3600" for x :: nat
    by (simp add: div_mult2_eq [symmetric])
  have m: "x mod 60 < 100" for x :: nat
    using mod_less_divisor [of 60 x] by linarith
  have h: "s div 3600 < 100" "t div 3600 < 100" using assms by (auto simp: less_mult_imp_div_less)
  have "s div 3600 < t div 3600 \<or> s div 3600 = t div 3600 \<and>
      (s div 60 mod 60 < t div 60 mod 60 \<or> s div 60 mod 60 = t div 60 mod 60 \<and> s mod 60 < t mod 60)"
    using div_mod_lex [OF assms(1), of 60] div_mod_lex [of "s div 60" "t div 60" 60]
    by (auto simp: q [symmetric])
  then show ?thesis
    using h m by (auto simp: iso_hms_def append_less_same_length digits_less_iff)
qed

text \<open>A whole second sorts before its fractions because \<open>+\<close> precedes \<open>.\<close> in ASCII.\<close>

lemma iso_fraction_less:
  "u < v \<Longrightarrow> v < 1000000 \<Longrightarrow> iso_fraction u @ ''+00:00'' < iso_fraction v @ ''+00:00''"
  by (auto simp: iso_fraction_def append_less_same_length digits_less_iff less_char_def)

lemma utc_text_less:
  assumes "0 \<le> v" "v < w" "w < max_wall"
  shows "utc_text v < utc_text w"
proof -
  define V where "V = nat v" define W where "W = nat w"
  have vw: "V < W" "W < 3652059 * 86400 * 1000000"
    using assms by (auto simp: V_def W_def max_wall_def us_per_day_def)
  let ?s = "V div 1000000" and ?t = "W div 1000000"
  have t: "?t < 3652059 * 86400" using vw(2) by (simp add: less_mult_imp_div_less)
  then have day: "?t div 86400 < 3652059" by (simp add: less_mult_imp_div_less)
  have "?s div 86400 < ?t div 86400 \<or> ?s div 86400 = ?t div 86400 \<and>
      (?s mod 86400 < ?t mod 86400 \<or> ?s mod 86400 = ?t mod 86400 \<and> V mod 1000000 < W mod 1000000)"
    using div_mod_lex [OF vw(1), of 1000000] div_mod_lex [of ?s ?t 86400] by auto
  then show ?thesis
    using iso_date_less [OF _ day, of "?s div 86400"] iso_hms_less [of "?s mod 86400" "?t mod 86400"]
      iso_fraction_less [of "V mod 1000000" "W mod 1000000"]
    unfolding utc_text_parts V_def [symmetric] W_def [symmetric]
    by (auto simp: append_less_same_length)
qed

text \<open>The text order of canonical UTC stamps is the order of the instants.\<close>

lemma utc_text_less_iff:
  assumes "0 \<le> v" "v < max_wall" "0 \<le> w" "w < max_wall"
  shows "utc_text v < utc_text w \<longleftrightarrow> v < w"
  using utc_text_less [of v w] utc_text_less [of w v] assms
  by (metis not_less_iff_gr_or_eq order_less_asym)

lemma utc_text_le_iff:
  assumes "0 \<le> v" "v < max_wall" "0 \<le> w" "w < max_wall"
  shows "utc_text v \<le> utc_text w \<longleftrightarrow> v \<le> w"
  using utc_text_less_iff [OF assms(3,4,1,2)] by (simp add: not_less [symmetric])

subsection \<open>Reading the canonical text back\<close>

lemma iso_date_nth:
  "iso_date n ! 4 = CHR ''-''" "iso_date n ! 5 \<noteq> CHR ''W''"
proof -
  obtain y m d where e: "ymd_of_day n = (y, m, d)" by (cases "ymd_of_day n")
  show "iso_date n ! 4 = CHR ''-''" by (simp add: iso_date_def e nth_append)
  have "digits 2 m ! 0 \<in> set (digits 2 m)" by (rule nth_mem) simp
  then obtain k where "digits 2 m ! 0 = dig k" using set_digits by blast
  then show "iso_date n ! 5 \<noteq> CHR ''W''" by (simp add: iso_date_def e nth_append)
qed

lemma parse_date_extended:
  assumes "length Y = 4" "length M = 2" "length D = 2" "M ! 0 \<noteq> CHR ''W''"
    and "int_exact 4 Y = Some y" "int_exact 2 M = Some m" "int_exact 2 D = Some d"
  shows "parse_date (Y @ ''-'' @ M @ ''-'' @ D) = day_of_ymd y m d"
proof -
  obtain a b c e where Y: "Y = [a, b, c, e]" using assms(1) by (auto simp: length_Suc_conv numeral_eq_Suc)
  obtain f g where M: "M = [f, g]" using assms(2) by (auto simp: length_Suc_conv numeral_eq_Suc)
  obtain h i where D: "D = [h, i]" using assms(3) by (auto simp: length_Suc_conv numeral_eq_Suc)
  show ?thesis using assms(4-) by (simp add: parse_date_def Let_def Y M D)
qed

lemma parse_date_iso_date: "n < 3652059 \<Longrightarrow> parse_date (iso_date n) = Some n"
proof -
  assume n: "n < 3652059"
  obtain y m d where e: "ymd_of_day n = (y, m, d)" by (cases "ymd_of_day n")
  have "n < days_before 9999" using n by (simp add: days_before_9999)
  note b = day_of_ymd_of_day [OF this e]
  have "digits 2 m ! 0 \<in> set (digits 2 m)" by (rule nth_mem) simp
  then have "digits 2 m ! 0 \<noteq> CHR ''W''" using set_digits by fastforce
  moreover have "int_exact 4 (digits 4 y) = Some y" "int_exact 2 (digits 2 m) = Some m"
    "int_exact 2 (digits 2 d) = Some d" using b by simp_all
  ultimately have "parse_date (iso_date n) = day_of_ymd y m d"
    unfolding iso_date_def e prod.case by (intro parse_date_extended) simp_all
  then show ?thesis using b(1) by simp
qed

lemma hms_loop_colon:
  assumes "length H = 2" "int_exact 2 H = Some h" "i < 2" "sep \<or> i = 0"
  shows "hms_loop i sep (H @ CHR '':'' # r) =
    (case hms_loop (Suc i) True r of None \<Rightarrow> None | Some (vs, r') \<Rightarrow> Some (h # vs, r'))"
  using assms by (subst hms_loop.simps) (auto simp: Let_def)

lemma hms_loop_last:
  assumes "length H = 2" "int_exact 2 H = Some h"
  shows "hms_loop i sep H = Some ([h], [])" and "hms_loop 2 sep (H @ r) = Some ([h], r)"
  using assms by (subst hms_loop.simps, simp add: Let_def)+

lemma parse_fraction_iso: "us < 1000000 \<Longrightarrow> parse_fraction (iso_fraction us) = Some us"
  by (auto simp: parse_fraction_def iso_fraction_def Let_def)

lemma parse_hms_iso:
  assumes "s < 86400" "us < 1000000"
  shows "parse_hms (iso_hms s @ iso_fraction us) = Some (s div 3600, s div 60 mod 60, s mod 60, us)"
proof -
  have m: "x mod 60 < 100" for x :: nat using mod_less_divisor [of 60 x] by linarith
  have "s div 3600 < 100" using assms(1) by (auto simp: less_mult_imp_div_less)
  with m have i: "int_exact 2 (digits 2 (s div 3600)) = Some (s div 3600)"
    "int_exact 2 (digits 2 (s div 60 mod 60)) = Some (s div 60 mod 60)"
    "int_exact 2 (digits 2 (s mod 60)) = Some (s mod 60)" by simp_all
  have "hms_loop 0 False (iso_hms s @ iso_fraction us) =
      Some ([s div 3600, s div 60 mod 60, s mod 60], iso_fraction us)"
    unfolding iso_hms_def
    by (simp add: hms_loop_colon [OF _ i(1)] hms_loop_colon [OF _ i(2)] hms_loop_last(2) [OF _ i(3)]
        del: One_nat_def flip: numeral_2_eq_2)
  then show ?thesis using parse_fraction_iso [OF assms(2)] by (simp add: parse_hms_def)
qed

lemma digits_no_punct [simp]:
  "CHR ''-'' \<notin> set (digits k n)" "CHR ''+'' \<notin> set (digits k n)" "CHR ''Z'' \<notin> set (digits k n)"
  by (auto dest!: set_digits dest: sym)

lemma recompose_time:
  "(d::nat) * 86400 + m = s \<Longrightarrow> s * 1000000 + u = n \<Longrightarrow> d * 86400000000 + (m * 1000000 + u) = n"
  by linarith

lemma iso_time_chars:
  assumes "c \<in> set (iso_hms s @ iso_fraction us)"
  shows "c \<noteq> CHR ''-''" "c \<noteq> CHR ''+''" "c \<noteq> CHR ''Z''"
  using assms by (auto simp: iso_hms_def iso_fraction_def split: if_splits)

lemma parse_offset_utc: "parse_offset c ''00:00'' = Some (TzFixed 0)"
  by (simp add: parse_offset_def parse_hms_def hms_loop.simps int_exact_def digit_val_def
      parse_fraction_def)

lemma parse_time_utc:
  assumes "s < 86400" "us < 1000000"
  shows "parse_time (iso_hms s @ iso_fraction us @ ''+00:00'') = Some (s * 1000000 + us, TzFixed 0)"
proof -
  let ?a = "iso_hms s @ iso_fraction us" and ?t = "iso_hms s @ iso_fraction us @ ''+00:00''"
  have c: "\<forall>c \<in> set ?a. c \<noteq> CHR ''-'' \<and> c \<noteq> CHR ''+''" using iso_time_chars by blast
  have "find1 (CHR ''-'') ?t = 0" using c by (auto simp: find1_def)
  moreover have "takeWhile (\<lambda>x. x \<noteq> CHR ''+'') (?a @ ''+00:00'') = ?a @ takeWhile (\<lambda>x. x \<noteq> CHR ''+'') ''+00:00''"
    using c by (intro takeWhile_append2) auto
  then have "find1 (CHR ''+'') ?t = Suc (length ?a)" by (simp add: find1_def)
  ultimately have p: "tz_position ?t = Suc (length ?a)" by (simp add: tz_position_def)
  have d: "drop (Suc (length ?a)) ?t = ''00:00''" by simp
  have t: "take (Suc (length ?a) - 1) ?t = ?a" by simp
  have v: "s div 3600 < 24" "s div 60 mod 60 < 60" "s mod 60 < 60"
    using assms(1) by (auto simp: less_mult_imp_div_less)
  have "s div 3600 = s div 60 div 60" by (simp add: div_mult2_eq [symmetric])
  then have e: "(s div 3600 * 60 + s div 60 mod 60) * 60 + s mod 60 = s" by simp
  have "2 \<le> length ?t" "Suc (length ?a) \<noteq> length ?t" by simp_all
  then show ?thesis
    using v by (simp only: parse_time_def p d t Let_def parse_hms_iso [OF assms] parse_offset_utc
        e option.case prod.case if_True if_False simp_thms zero_less_Suc not_less split: if_splits) auto
qed

text \<open>Reading a canonical stamp gives the UTC value of the same instant.\<close>

lemma fromisoformat_utc_text:
  assumes "0 \<le> w" "w < max_wall"
  shows "fromisoformat (utc_text w) = Some (utc_datetime w)"
proof -
  define n where "n = nat w"
  define day sod us where "day = n div 1000000 div 86400" and "sod = n div 1000000 mod 86400"
    and "us = n mod 1000000"
  define t where "t = iso_hms sod @ iso_fraction us @ ''+00:00''"
  have e: "utc_text w = iso_date day @ CHR ''T'' # t"
    by (simp add: utc_text_parts t_def n_def day_def sod_def us_def)
  have "n < 3652059 * 86400 * 1000000" using assms by (auto simp: n_def max_wall_def us_per_day_def)
  then have "n div 1000000 < 3652059 * 86400" by (simp add: less_mult_imp_div_less)
  then have day: "day < 3652059" by (simp add: day_def less_mult_imp_div_less)
  have "sod < 86400" "us < 1000000" by (simp_all add: sod_def us_def)
  note pt = parse_time_utc [OF this, folded t_def]
  have sep: "find_separator (utc_text w) = Some 10"
    by (simp add: find_separator_def e nth_append iso_date_nth)
  have tk: "take 10 (utc_text w) = iso_date day" "drop (Suc 10) (utc_text w) = t"
    by (simp_all add: e)
  have "day * 86400000000 + (sod * 1000000 + us) = n"
    unfolding day_def sod_def us_def by (rule recompose_time) (rule div_mult_mod_eq)+
  then have "int day * us_per_day + int (sod * 1000000 + us) = int n"
    unfolding us_per_day_def by (metis of_nat_add of_nat_mult of_nat_numeral)
  then have wall: "int day * us_per_day + int (sod * 1000000 + us) = w"
    using assms(1) by (simp add: n_def)
  have "\<not> length (utc_text w) < 7" "t \<noteq> []" by (simp_all add: e t_def)
  then show ?thesis
    by (simp only: fromisoformat_def sep option.case tk parse_date_iso_date [OF day] pt if_False
        prod.case wall utc_datetime_def)
qed

lemma utc_text_inj:
  "0 \<le> v \<Longrightarrow> v < max_wall \<Longrightarrow> 0 \<le> w \<Longrightarrow> w < max_wall \<Longrightarrow> utc_text v = utc_text w \<longleftrightarrow> v = w"
  using utc_text_less_iff [of v w] utc_text_less_iff [of w v] by (metis linorder_neqE order_less_irrefl)

end
