(* ===== verification/Domain.thy ===== *)
theory Domain
  imports Py_Iso
begin

text \<open>
  \<open>domain.py\<close>: the typed data every stage shares.  A frozen dataclass is a record; its
  \<open>__post_init__\<close> is a \<open>..._post_init\<close> function over the record, and constructing a value is
  \<open>validated\<close> by it.
\<close>

section \<open>Scalar checks\<close>

definition require_finite :: "pyfloat \<Rightarrow> unit res" where
  "require_finite v = raise_if (\<not> flt_isfinite v) ValueError"

definition require_non_negative :: "pyfloat \<Rightarrow> unit res" where
  "require_non_negative v = in_order [require_finite v, raise_if (flt_less v (Fin 0)) ValueError]"

definition require_percent :: "pyfloat \<Rightarrow> unit res" where
  "require_percent v =
     in_order [require_finite v, raise_if (\<not> (flt_le (Fin 0) v \<and> flt_le v (Fin 100))) ValueError]"

definition require_non_empty :: "string \<Rightarrow> unit res" where
  "require_non_empty s = raise_if (s = []) ValueError"

section \<open>Data\<close>

datatype host_state = HEALTHY | DEGRADED | DOWN

record load_average =
  la_one :: pyfloat
  la_five :: pyfloat
  la_fifteen :: pyfloat

definition load_average_post_init :: "load_average \<Rightarrow> unit res" where
  "load_average_post_init l =
     in_order [require_non_negative (la_one l), require_non_negative (la_five l),
               require_non_negative (la_fifteen l)]"

record resource_usage =
  ru_used :: pyfloat
  ru_total :: pyfloat
  ru_percent :: pyfloat

definition resource_usage_post_init :: "resource_usage \<Rightarrow> unit res" where
  "resource_usage_post_init r =
     in_order
       [require_non_negative (ru_used r), require_non_negative (ru_total r),
        require_percent (ru_percent r),
        if ru_total r = Fin 0 then
          in_order [raise_if (ru_used r \<noteq> Fin 0) ValueError, raise_if (ru_percent r \<noteq> Fin 0) ValueError]
        else raise_if (flt_less (ru_total r) (ru_used r)) ValueError]"

record host_telemetry =
  ht_host :: string
  ht_timestamp :: datetime
  ht_uptime_seconds :: pyfloat
  ht_load :: load_average
  ht_cpu_percent :: pyfloat
  ht_ram :: resource_usage
  ht_swap :: resource_usage
  ht_root_filesystem :: resource_usage
  ht_root_inodes :: resource_usage

definition host_telemetry_post_init :: "host_telemetry \<Rightarrow> unit res" where
  "host_telemetry_post_init t =
     in_order
       [require_non_empty (ht_host t), raise_if (tz (ht_timestamp t) = NoTzinfo) ValueError,
        require_non_negative (ht_uptime_seconds t), require_percent (ht_cpu_percent t)]"

record host_transition =
  tr_host :: string
  tr_from :: host_state
  tr_to :: host_state
  tr_at :: datetime

definition host_transition_post_init :: "host_transition \<Rightarrow> unit res" where
  "host_transition_post_init t =
     in_order
       [require_non_empty (tr_host t), raise_if (tz (tr_at t) = NoTzinfo) ValueError,
        raise_if (tr_from t = tr_to t) ValueError]"

definition is_down_event :: "host_transition \<Rightarrow> bool" where
  "is_down_event t \<longleftrightarrow> tr_to t = DOWN"

definition is_recovery_event :: "host_transition \<Rightarrow> bool" where
  "is_recovery_event t \<longleftrightarrow> tr_from t = DOWN \<and> tr_to t \<noteq> DOWN"

section \<open>What validated telemetry satisfies\<close>

definition telemetry_ok :: "host_telemetry \<Rightarrow> bool" where
  "telemetry_ok t \<longleftrightarrow>
     host_telemetry_post_init t = Inr () \<and> load_average_post_init (ht_load t) = Inr () \<and>
     (\<forall>r \<in> {ht_ram t, ht_swap t, ht_root_filesystem t, ht_root_inodes t}.
        resource_usage_post_init r = Inr ())"

lemma require_finite_eq_Inr [simp]: "require_finite v = Inr u \<longleftrightarrow> (\<exists>r. v = Fin r)"
  by (cases v) (auto simp: require_finite_def)

lemma require_non_negative_eq_Inr [simp]:
  "require_non_negative v = Inr u \<longleftrightarrow> (\<exists>r \<ge> 0. v = Fin r)"
  by (auto simp: require_non_negative_def)

lemma require_percent_eq_Inr [simp]:
  "require_percent v = Inr u \<longleftrightarrow> (\<exists>r. v = Fin r \<and> 0 \<le> r \<and> r \<le> 100)"
  by (auto simp: require_percent_def)

lemma require_non_empty_eq_Inr [simp]: "require_non_empty s = Inr u \<longleftrightarrow> s \<noteq> []"
  by (simp add: require_non_empty_def)

text \<open>An accepted resource satisfies \<open>used \<le> total\<close>, and an absent one is entirely zero.\<close>

lemma resource_usage_accepted:
  "resource_usage_post_init r = Inr () \<longleftrightarrow>
     (\<exists>u t p. ru_used r = Fin u \<and> ru_total r = Fin t \<and> ru_percent r = Fin p \<and>
        0 \<le> u \<and> u \<le> t \<and> 0 \<le> p \<and> p \<le> 100 \<and> (t = 0 \<longrightarrow> p = 0))"
  by (auto simp: resource_usage_post_init_def)

end
