(* ===== verification/Py_Text.thy ===== *)
theory Py_Text
  imports Prelude
begin

text \<open>
  The \<open>str\<close> methods the program uses.  A Python string is a \<open>string\<close>, so its code points are
  those of Latin-1 (0 to 255); the character classes below are Python's on that range.
\<close>

text \<open>The marker of an execution that leaves this range.\<close>

definition outside_model :: exn where "outside_model = ForeignException 255"

definition is_space :: "char \<Rightarrow> bool" where
  "is_space c = (of_char c \<in> ({9, 10, 11, 12, 13, 28, 29, 30, 31, 32, 133, 160} :: nat set))"

definition lstrip :: "string \<Rightarrow> string" where
  "lstrip s = dropWhile is_space s"

definition strip :: "string \<Rightarrow> string" where
  "strip s = rev (lstrip (rev (lstrip s)))"

text \<open>\<open>str.split(sep)\<close> for a one-character separator: always at least one piece.\<close>

fun split_on :: "char \<Rightarrow> string \<Rightarrow> string list" where
  "split_on sep [] = [[]]"
| "split_on sep (c # cs) =
     (if c = sep then [] # split_on sep cs
      else (case split_on sep cs of [] \<Rightarrow> [[c]] | p # ps \<Rightarrow> (c # p) # ps))"

text \<open>\<open>sep.join(pieces)\<close>\<close>

fun join_with :: "string \<Rightarrow> string list \<Rightarrow> string" where
  "join_with sep [] = []"
| "join_with sep [p] = p"
| "join_with sep (p # q # ps) = p @ sep @ join_with sep (q # ps)"

text \<open>\<open>repr\<close> of a string: single quotes unless only they occur in it, and escapes\<close>

definition hex_character :: "nat \<Rightarrow> char" where
  "hex_character d = char_of (if d < 10 then d + 48 else d + 87)"

definition repr_character :: "char \<Rightarrow> char \<Rightarrow> string" where
  "repr_character quote c =
     (let n = of_char c :: nat; backslash = CHR 0x5C in
      if c = quote \<or> c = backslash then [backslash, c]
      else if n = 9 then [backslash, CHR ''t'']
      else if n = 10 then [backslash, CHR ''n'']
      else if n = 13 then [backslash, CHR ''r'']
      else if n < 32 \<or> 127 \<le> n \<and> n \<le> 160 \<or> n = 173
        then [backslash, CHR ''x'', hex_character (n div 16), hex_character (n mod 16)]
      else [c])"

definition repr_string :: "string \<Rightarrow> string" where
  "repr_string s =
     (let quote = (if CHR 0x27 \<in> set s \<and> CHR 0x22 \<notin> set s then CHR 0x22 else CHR 0x27)
      in quote # concat (map (repr_character quote) s) @ [quote])"

definition repr_strings :: "string list \<Rightarrow> string" where
  "repr_strings ss = ''['' @ join_with '', '' (map repr_string ss) @ '']''"

lemma strip_Nil [simp]: "strip [] = []"
  by (simp add: strip_def lstrip_def)

lemma lstrip_eq_Nil: "lstrip s = [] \<longleftrightarrow> (\<forall>c \<in> set s. is_space c)"
  by (simp add: lstrip_def)

lemma strip_eq_Nil: "strip s = [] \<longleftrightarrow> (\<forall>c \<in> set s. is_space c)"
proof -
  have "strip s = [] \<longleftrightarrow> (\<forall>c \<in> set (lstrip s). is_space c)"
    by (simp add: strip_def lstrip_eq_Nil)
  also have "\<dots> \<longleftrightarrow> (\<forall>c \<in> set s. is_space c)"
  proof
    assume a: "\<forall>c \<in> set (lstrip s). is_space c"
    show "\<forall>c \<in> set s. is_space c"
    proof (rule ccontr)
      assume "\<not> (\<forall>c \<in> set s. is_space c)"
      then have ne: "lstrip s \<noteq> []" by (simp add: lstrip_eq_Nil)
      then have "\<not> is_space (hd (lstrip s))" unfolding lstrip_def by (rule hd_dropWhile)
      with a ne show False by simp
    qed
  next
    assume "\<forall>c \<in> set s. is_space c"
    then show "\<forall>c \<in> set (lstrip s). is_space c" by (auto simp: lstrip_def dest: set_dropWhileD)
  qed
  finally show ?thesis .
qed

lemma split_on_not_Nil [simp]: "split_on sep s \<noteq> []"
  by (induction s) (auto split: list.splits)

lemma join_split_on: "join_with [sep] (split_on sep s) = s"
proof (induction s)
  case (Cons c cs)
  then show ?case by (cases "split_on sep cs"; cases "tl (split_on sep cs)") auto
qed simp

end
