(* ===== verification/Debounce.thy ===== *)
theory Debounce
  imports Prelude
begin

text \<open>
  The contract the host-state resolver and the dead-man core share: a state goes down after
  \<open>D\<close> consecutive qualifying failures and leaves down after \<open>R\<close> consecutive successes, with
  every break resetting the streak.  The locale states the one-step laws; its lemmas give the
  behaviour of whole runs in terms of the observation history alone.
\<close>

section \<open>Histories\<close>

text \<open>Length of the streak of \<open>P\<close>-observations a history ends with.\<close>

definition trail :: "('o \<Rightarrow> bool) \<Rightarrow> 'o list \<Rightarrow> nat" where
  "trail P obs = length (takeWhile P (rev obs))"

lemma trail_Nil [simp]: "trail P [] = 0"
  by (simp add: trail_def)

lemma trail_snoc [simp]: "trail P (obs @ [ob]) = (if P ob then Suc (trail P obs) else 0)"
  by (simp add: trail_def)

lemma trail_le_length: "trail P obs \<le> length obs"
  unfolding trail_def using length_takeWhile_le [of P "rev obs"] by simp

text \<open>A streak of \<open>k\<close> is a suffix of \<open>k\<close> observations that all satisfy the predicate.\<close>

lemma trail_ge_iff:
  "k \<le> trail P obs \<longleftrightarrow> k \<le> length obs \<and> (\<forall>ob \<in> set (drop (length obs - k) obs). P ob)"
proof
  assume k: "k \<le> trail P obs"
  then have l: "k \<le> length obs" using trail_le_length [of P obs] by linarith
  have "take k (rev obs) = take k (takeWhile P (rev obs))"
    using k by (metis takeWhile_eq_take take_take min.absorb1 trail_def)
  then have "\<forall>ob \<in> set (take k (rev obs)). P ob"
    using set_takeWhileD by (metis in_set_takeD)
  then show "k \<le> length obs \<and> (\<forall>ob \<in> set (drop (length obs - k) obs). P ob)"
    using l by (simp add: take_rev)
next
  assume a: "k \<le> length obs \<and> (\<forall>ob \<in> set (drop (length obs - k) obs). P ob)"
  then have "\<forall>ob \<in> set (take k (rev obs)). P ob" by (simp add: take_rev)
  then have "takeWhile P (rev obs) = take k (rev obs) @ takeWhile P (drop k (rev obs))"
    by (metis append_take_drop_id takeWhile_append2)
  then show "k \<le> trail P obs" using a by (simp add: trail_def)
qed

text \<open>
  The reference: at some moment \<open>k\<close> the history ended with \<open>D\<close> failures, and at no later
  moment did it end with \<open>R\<close> successes.
\<close>

definition confirmed_down :: "nat \<Rightarrow> nat \<Rightarrow> ('o \<Rightarrow> bool) \<Rightarrow> ('o \<Rightarrow> bool) \<Rightarrow> 'o list \<Rightarrow> bool" where
  "confirmed_down D R bad good obs \<longleftrightarrow>
     (\<exists>k \<le> length obs. D \<le> trail bad (take k obs) \<and>
        (\<forall>j \<le> length obs. k < j \<longrightarrow> trail good (take j obs) < R))"

lemma trail_map: "trail P obs = trail id (map P obs)"
  by (simp add: trail_def rev_map takeWhile_map comp_def)

text \<open>The reference depends on the history only through its two predicates.\<close>

lemma confirmed_down_cong:
  assumes "map bad obs = map bad obs'" "map good obs = map good obs'"
  shows "confirmed_down D R bad good obs = confirmed_down D R bad good obs'"
proof -
  have "length obs = length obs'" using assms(1) by (rule map_eq_imp_length_eq)
  moreover have "trail bad (take k obs) = trail bad (take k obs')" for k
    by (metis trail_map take_map assms(1))
  moreover have "trail good (take k obs) = trail good (take k obs')" for k
    by (metis trail_map take_map assms(2))
  ultimately show ?thesis by (simp add: confirmed_down_def)
qed

lemma confirmed_down_Nil: "0 < D \<Longrightarrow> \<not> confirmed_down D R bad good []"
  by (simp add: confirmed_down_def)

lemma confirmed_down_snoc:
  assumes "0 < D" "0 < R" and disj: "\<And>ob. \<not> (bad ob \<and> good ob)"
  shows "confirmed_down D R bad good (obs @ [ob]) \<longleftrightarrow>
    (if confirmed_down D R bad good obs then trail good (obs @ [ob]) < R
     else D \<le> trail bad (obs @ [ob]))"
proof -
  let ?n = "length obs" and ?obs = "obs @ [ob]"
  have tk: "take k ?obs = take k obs" if "k \<le> ?n" for k using that by simp
  have full: "take (Suc ?n) ?obs = ?obs" by simp
  have old: "(\<exists>k \<le> ?n. D \<le> trail bad (take k ?obs) \<and>
        (\<forall>j \<le> Suc ?n. k < j \<longrightarrow> trail good (take j ?obs) < R)) \<longleftrightarrow>
      confirmed_down D R bad good obs \<and> trail good ?obs < R"
    unfolding confirmed_down_def using tk full by (auto simp: le_Suc_eq)
  have "confirmed_down D R bad good ?obs \<longleftrightarrow>
      (confirmed_down D R bad good obs \<and> trail good ?obs < R) \<or> D \<le> trail bad ?obs"
    unfolding old [symmetric] unfolding confirmed_down_def using full
    by (auto simp: le_Suc_eq)
  moreover have "D \<le> trail bad ?obs \<Longrightarrow> trail good ?obs < R"
    using assms(1,2) disj [of ob] by (auto split: if_splits)
  ultimately show ?thesis by auto
qed

section \<open>The interface\<close>

text \<open>Every observation of a run meets the step's precondition.\<close>

fun ok_run :: "('s \<Rightarrow> 'o \<Rightarrow> 's) \<Rightarrow> ('s \<Rightarrow> 'o \<Rightarrow> bool) \<Rightarrow> 's \<Rightarrow> 'o list \<Rightarrow> bool" where
  "ok_run step ok s [] = True"
| "ok_run step ok s (ob # obs) = (ok s ob \<and> ok_run step ok (step s ob) obs)"

lemma ok_run_append:
  "ok_run step ok s (as @ bs) \<longleftrightarrow> ok_run step ok s as \<and> ok_run step ok (foldl step s as) bs"
  by (induction as arbitrary: s) auto

locale debounce =
  fixes step :: "'s \<Rightarrow> 'o \<Rightarrow> 's" and inv :: "'s \<Rightarrow> bool" and ok :: "'s \<Rightarrow> 'o \<Rightarrow> bool"
    and down :: "'s \<Rightarrow> bool" and fails :: "'s \<Rightarrow> nat" and succs :: "'s \<Rightarrow> nat"
    and bad :: "'o \<Rightarrow> bool" and good :: "'o \<Rightarrow> bool" and D :: nat and R :: nat
  assumes D_pos: "0 < D" and R_pos: "0 < R"
    and disjoint: "\<not> (bad ob \<and> good ob)"
    and inv_step: "inv s \<Longrightarrow> ok s ob \<Longrightarrow> inv (step s ob)"
    and count_bad: "inv s \<Longrightarrow> ok s ob \<Longrightarrow> \<not> down s \<Longrightarrow> bad ob \<Longrightarrow> Suc (fails s) < D \<Longrightarrow>
      \<not> down (step s ob) \<and> fails (step s ob) = Suc (fails s)"
    and enter: "inv s \<Longrightarrow> ok s ob \<Longrightarrow> \<not> down s \<Longrightarrow> bad ob \<Longrightarrow> D \<le> Suc (fails s) \<Longrightarrow>
      down (step s ob) \<and> succs (step s ob) = 0"
    and reset_bad: "inv s \<Longrightarrow> ok s ob \<Longrightarrow> \<not> down s \<Longrightarrow> \<not> bad ob \<Longrightarrow>
      \<not> down (step s ob) \<and> fails (step s ob) = 0"
    and count_good: "inv s \<Longrightarrow> ok s ob \<Longrightarrow> down s \<Longrightarrow> good ob \<Longrightarrow> Suc (succs s) < R \<Longrightarrow>
      down (step s ob) \<and> succs (step s ob) = Suc (succs s)"
    and leave: "inv s \<Longrightarrow> ok s ob \<Longrightarrow> down s \<Longrightarrow> good ob \<Longrightarrow> R \<le> Suc (succs s) \<Longrightarrow>
      \<not> down (step s ob) \<and> fails (step s ob) = 0"
    and hold: "inv s \<Longrightarrow> ok s ob \<Longrightarrow> down s \<Longrightarrow> \<not> good ob \<Longrightarrow>
      down (step s ob) \<and> succs (step s ob) = 0"
begin

lemma inv_run: "inv s \<Longrightarrow> ok_run step ok s obs \<Longrightarrow> inv (foldl step s obs)"
  by (induction obs arbitrary: s) (auto intro: inv_step)

lemma confirmed_snoc:
  "confirmed_down D R bad good (obs @ [ob]) \<longleftrightarrow>
    (if confirmed_down D R bad good obs then trail good (obs @ [ob]) < R
     else D \<le> trail bad (obs @ [ob]))"
  by (rule confirmed_down_snoc) (use D_pos R_pos disjoint in auto)

text \<open>The counters are the streaks of the history, and DOWN is the reference.\<close>

lemma run_history:
  assumes "inv s" "\<not> down s" "fails s = 0" "ok_run step ok s obs"
  shows "(down (foldl step s obs) \<longleftrightarrow> confirmed_down D R bad good obs) \<and>
    (\<not> down (foldl step s obs) \<longrightarrow> fails (foldl step s obs) = trail bad obs \<and> trail bad obs < D) \<and>
    (down (foldl step s obs) \<longrightarrow> succs (foldl step s obs) = trail good obs \<and> trail good obs < R)"
  using assms(4)
proof (induction obs rule: rev_induct)
  case Nil
  then show ?case using assms D_pos by (simp add: confirmed_down_Nil)
next
  case (snoc ob obs)
  let ?s = "foldl step s obs"
  have ok: "ok_run step ok s obs" "ok ?s ob" using snoc.prems by (auto simp: ok_run_append)
  note IH = snoc.IH [OF ok(1)]
  have i: "inv ?s" using assms(1) ok(1) by (rule inv_run)
  note cd = confirmed_snoc [of obs ob]
  show ?case
  proof (cases "down ?s")
    case True
    then show ?thesis
      using IH cd count_good [OF i ok(2)] leave [OF i ok(2)] hold [OF i ok(2)] disjoint [of ob] D_pos R_pos
      by (cases "good ob"; cases "Suc (succs ?s) < R") (auto simp: not_less)
  next
    case False
    then show ?thesis
      using IH cd count_bad [OF i ok(2)] enter [OF i ok(2)] reset_bad [OF i ok(2)] disjoint [of ob]
        D_pos R_pos
      by (cases "bad ob"; cases "Suc (fails ?s) < D") (auto simp: not_less)
  qed
qed

lemma run_down_iff:
  "inv s \<Longrightarrow> \<not> down s \<Longrightarrow> fails s = 0 \<Longrightarrow> ok_run step ok s obs \<Longrightarrow>
    down (foldl step s obs) \<longleftrightarrow> confirmed_down D R bad good obs"
  using run_history by blast

text \<open>One more observation enters DOWN exactly when it completes the failure streak.\<close>

lemma enter_iff:
  assumes "inv s" "\<not> down s" "fails s = 0" "ok_run step ok s (obs @ [ob])"
    and "\<not> down (foldl step s obs)"
  shows "down (foldl step s (obs @ [ob])) \<longleftrightarrow> D \<le> trail bad (obs @ [ob])"
proof -
  have "ok_run step ok s obs" using assms(4) by (simp add: ok_run_append)
  then have "\<not> confirmed_down D R bad good obs"
    using run_down_iff assms(1-3,5) by blast
  then show ?thesis
    using run_down_iff [OF assms(1-4)] confirmed_snoc [of obs ob] by simp
qed

lemma leave_iff:
  assumes "inv s" "\<not> down s" "fails s = 0" "ok_run step ok s (obs @ [ob])"
    and "down (foldl step s obs)"
  shows "\<not> down (foldl step s (obs @ [ob])) \<longleftrightarrow> R \<le> trail good (obs @ [ob])"
proof -
  have "ok_run step ok s obs" using assms(4) by (simp add: ok_run_append)
  then have "confirmed_down D R bad good obs"
    using run_down_iff assms(1-3,5) by blast
  then show ?thesis
    using run_down_iff [OF assms(1-4)] confirmed_snoc [of obs ob] by (simp add: not_less)
qed

end

end
