(* ===== verification/Repository.thy ===== *)
theory Repository
  imports Domain Py_Text Debounce
begin

text \<open>
  \<open>persistence/repository.py\<close>: heartbeat rows in SQLite.  The table is the list of its rows in
  insertion order together with the \<open>AUTOINCREMENT\<close> sequence; timestamps are stored as text and
  compared as text.  Executing a statement can fail for reasons outside the program (a locked
  file, a full disk): \<open>execute\<close> is the parameter that says whether it does.
\<close>

section \<open>State\<close>

record heartbeat_record =
  hr_telemetry :: host_telemetry
  hr_received_at :: datetime

record heartbeat_row =
  row_id :: int
  row_node :: string
  row_reported_at :: string
  row_received_at :: string
  row_uptime_seconds :: pyfloat
  row_load_one :: pyfloat
  row_load_five :: pyfloat
  row_load_fifteen :: pyfloat
  row_cpu_percent :: pyfloat
  row_ram_used :: pyfloat
  row_ram_total :: pyfloat
  row_ram_percent :: pyfloat
  row_swap_used :: pyfloat
  row_swap_total :: pyfloat
  row_swap_percent :: pyfloat
  row_root_fs_used :: pyfloat
  row_root_fs_total :: pyfloat
  row_root_fs_percent :: pyfloat
  row_root_inode_used :: pyfloat
  row_root_inode_total :: pyfloat
  row_root_inode_percent :: pyfloat

record heartbeat_db =
  db_rows :: "heartbeat_row list"
  db_sequence :: int

section \<open>Boundary checks\<close>

definition require_valid_node :: "string \<Rightarrow> unit res" where
  "require_valid_node s = raise_if (strip s = []) ValueError"

definition require_aware_timestamp :: "datetime \<Rightarrow> unit res" where
  "require_aware_timestamp d = raise_if (tz d = NoTzinfo \<or> utcoffset (tz d) = None) ValueError"

definition serialize_timestamp :: "datetime \<Rightarrow> string res" where
  "serialize_timestamp d =
     bind_res (require_aware_timestamp d) (\<lambda>_.
       bind_res (astimezone_utc d) (\<lambda>u. Inr (isoformat u)))"

definition parse_timestamp :: "string \<Rightarrow> datetime res" where
  "parse_timestamp s =
     (case fromisoformat s of
        None \<Rightarrow> Inl ValueError
      | Some d \<Rightarrow> bind_res (require_aware_timestamp d) (\<lambda>_. Inr d))"

definition heartbeat_record_post_init :: "heartbeat_record \<Rightarrow> unit res" where
  "heartbeat_record_post_init r =
     in_order [require_valid_node (ht_host (hr_telemetry r)), require_aware_timestamp (hr_received_at r),
               require_aware_timestamp (ht_timestamp (hr_telemetry r))]"

definition hr_node :: "heartbeat_record \<Rightarrow> string" where
  "hr_node r = ht_host (hr_telemetry r)"

section \<open>Writing\<close>

text \<open>The parameter tuple of the \<open>INSERT\<close>; serializing a timestamp can raise.\<close>

definition row_of_record :: "heartbeat_record \<Rightarrow> heartbeat_row res" where
  "row_of_record r =
     (let t = hr_telemetry r in
      bind_res (serialize_timestamp (ht_timestamp t)) (\<lambda>reported.
      bind_res (serialize_timestamp (hr_received_at r)) (\<lambda>received.
        Inr \<lparr>row_id = 0, row_node = hr_node r, row_reported_at = reported, row_received_at = received,
             row_uptime_seconds = ht_uptime_seconds t,
             row_load_one = la_one (ht_load t), row_load_five = la_five (ht_load t),
             row_load_fifteen = la_fifteen (ht_load t),
             row_cpu_percent = ht_cpu_percent t,
             row_ram_used = ru_used (ht_ram t), row_ram_total = ru_total (ht_ram t),
             row_ram_percent = ru_percent (ht_ram t),
             row_swap_used = ru_used (ht_swap t), row_swap_total = ru_total (ht_swap t),
             row_swap_percent = ru_percent (ht_swap t),
             row_root_fs_used = ru_used (ht_root_filesystem t),
             row_root_fs_total = ru_total (ht_root_filesystem t),
             row_root_fs_percent = ru_percent (ht_root_filesystem t),
             row_root_inode_used = ru_used (ht_root_inodes t),
             row_root_inode_total = ru_total (ht_root_inodes t),
             row_root_inode_percent = ru_percent (ht_root_inodes t)\<rparr>)))"

text \<open>
  \<open>INSERT\<close> into a table with an \<open>INTEGER PRIMARY KEY AUTOINCREMENT\<close>: the new id is one above the
  largest ever used; when that is the largest 64-bit integer the statement fails.
\<close>

definition sqlite_full :: exn where "sqlite_full = ForeignException 13"

definition insert_row :: "heartbeat_row \<Rightarrow> heartbeat_db \<Rightarrow> int res \<times> heartbeat_db" where
  "insert_row row db =
     (if db_sequence db \<ge> 2 ^ 63 - 1 then (Inl sqlite_full, db)
      else let i = db_sequence db + 1
           in (Inr i, \<lparr>db_rows = db_rows db @ [row\<lparr>row_id := i\<rparr>], db_sequence = i\<rparr>))"

definition insert_heartbeat ::
  "('w, unit) io \<Rightarrow> heartbeat_record \<Rightarrow> (heartbeat_db \<times> 'w, int) io" where
  "insert_heartbeat execute r dbw =
     (case dbw of (db, w) \<Rightarrow>
       case row_of_record r of
         Inl e \<Rightarrow> (Inl e, db, w)
       | Inr row \<Rightarrow>
           (case execute w of
              (Inl e, w') \<Rightarrow> (Inl e, db, w')
            | (Inr _, w') \<Rightarrow> (case insert_row row db of (res, db') \<Rightarrow> (res, db', w'))))"

section \<open>Reading\<close>

text \<open>\<open>ORDER BY received_at DESC, id DESC LIMIT 1\<close> on the rows of one node.\<close>

definition later_row :: "heartbeat_row \<Rightarrow> heartbeat_row \<Rightarrow> bool" where
  "later_row a b \<longleftrightarrow> row_received_at b < row_received_at a \<or>
     (row_received_at a = row_received_at b \<and> row_id b < row_id a)"

fun first_by_order :: "heartbeat_row list \<Rightarrow> heartbeat_row option" where
  "first_by_order [] = None"
| "first_by_order (r # rs) =
     (case first_by_order rs of None \<Rightarrow> Some r | Some q \<Rightarrow> Some (if later_row r q then r else q))"

definition select_latest :: "string \<Rightarrow> heartbeat_db \<Rightarrow> heartbeat_row option" where
  "select_latest node db = first_by_order (filter (\<lambda>r. row_node r = node) (db_rows db))"

text \<open>The telemetry is rebuilt through the validating constructors, inner values first.\<close>

definition resource_of :: "pyfloat \<Rightarrow> pyfloat \<Rightarrow> pyfloat \<Rightarrow> resource_usage res" where
  "resource_of u t p = validated resource_usage_post_init \<lparr>ru_used = u, ru_total = t, ru_percent = p\<rparr>"

definition row_to_record :: "heartbeat_row \<Rightarrow> heartbeat_record res" where
  "row_to_record row =
     bind_res (parse_timestamp (row_reported_at row)) (\<lambda>reported.
     bind_res (validated load_average_post_init
       \<lparr>la_one = row_load_one row, la_five = row_load_five row, la_fifteen = row_load_fifteen row\<rparr>) (\<lambda>load.
     bind_res (resource_of (row_ram_used row) (row_ram_total row) (row_ram_percent row)) (\<lambda>ram.
     bind_res (resource_of (row_swap_used row) (row_swap_total row) (row_swap_percent row)) (\<lambda>swap.
     bind_res (resource_of (row_root_fs_used row) (row_root_fs_total row) (row_root_fs_percent row)) (\<lambda>fs.
     bind_res (resource_of (row_root_inode_used row) (row_root_inode_total row)
                 (row_root_inode_percent row)) (\<lambda>inodes.
     bind_res (validated host_telemetry_post_init
       \<lparr>ht_host = row_node row, ht_timestamp = reported, ht_uptime_seconds = row_uptime_seconds row,
        ht_load = load, ht_cpu_percent = row_cpu_percent row, ht_ram = ram, ht_swap = swap,
        ht_root_filesystem = fs, ht_root_inodes = inodes\<rparr>) (\<lambda>telemetry.
     bind_res (parse_timestamp (row_received_at row)) (\<lambda>received.
       validated heartbeat_record_post_init
         \<lparr>hr_telemetry = telemetry, hr_received_at = received\<rparr>))))))))"

definition latest_heartbeat ::
  "('w, unit) io \<Rightarrow> string \<Rightarrow> (heartbeat_db \<times> 'w, heartbeat_record option) io" where
  "latest_heartbeat execute node dbw =
     (case dbw of (db, w) \<Rightarrow>
       case require_valid_node node of
         Inl e \<Rightarrow> (Inl e, db, w)
       | Inr _ \<Rightarrow>
           (case execute w of
              (Inl e, w') \<Rightarrow> (Inl e, db, w')
            | (Inr _, w') \<Rightarrow>
                (case select_latest node db of
                   None \<Rightarrow> (Inr None, db, w')
                 | Some row \<Rightarrow> (map_sum id Some (row_to_record row), db, w'))))"

definition latest_received_at ::
  "('w, unit) io \<Rightarrow> string \<Rightarrow> (heartbeat_db \<times> 'w, datetime option) io" where
  "latest_received_at execute node dbw =
     (case dbw of (db, w) \<Rightarrow>
       case require_valid_node node of
         Inl e \<Rightarrow> (Inl e, db, w)
       | Inr _ \<Rightarrow>
           (case execute w of
              (Inl e, w') \<Rightarrow> (Inl e, db, w')
            | (Inr _, w') \<Rightarrow>
                (case select_latest node db of
                   None \<Rightarrow> (Inr None, db, w')
                 | Some row \<Rightarrow> (map_sum id Some (parse_timestamp (row_received_at row)), db, w'))))"

definition count_observations :: "('w, unit) io \<Rightarrow> (heartbeat_db \<times> 'w, int) io" where
  "count_observations execute dbw =
     (case dbw of (db, w) \<Rightarrow>
       case execute w of
         (Inl e, w') \<Rightarrow> (Inl e, db, w')
       | (Inr _, w') \<Rightarrow> (Inr (int (length (db_rows db))), db, w'))"

section \<open>The contract of a heartbeat store\<close>

text \<open>
  What the health engine and the ingestion rely on.  \<open>newest\<close> is the reference: the observation of
  the node with the greatest receive moment, the last inserted one among equals.
\<close>

definition newest :: "('r \<Rightarrow> string) \<Rightarrow> ('r \<Rightarrow> int) \<Rightarrow> string \<Rightarrow> 'r list \<Rightarrow> 'r option" where
  "newest node time n rs =
     foldl (\<lambda>best r. if node r = n \<and> (\<forall>q. best = Some q \<longrightarrow> time q \<le> time r) then Some r else best) None rs"

lemma newest_Nil [simp]: "newest node time n [] = None"
  by (simp add: newest_def)

lemma newest_snoc [simp]:
  "newest node time n (rs @ [r]) =
    (if node r = n \<and> (\<forall>q. newest node time n rs = Some q \<longrightarrow> time q \<le> time r) then Some r
     else newest node time n rs)"
  unfolding newest_def foldl_append foldl.simps by (rule refl)

lemma newest_filter: "newest node time n rs = newest node time n (filter (\<lambda>r. node r = n) rs)"
  by (induction rs rule: rev_induct) auto

lemma newest_None_iff: "newest node time n rs = None \<longleftrightarrow> (\<forall>r \<in> set rs. node r \<noteq> n)"
  by (induction rs rule: rev_induct) auto

lemma newest_Some:
  "newest node time n rs = Some q \<Longrightarrow>
    q \<in> set rs \<and> node q = n \<and> (\<forall>r \<in> set rs. node r = n \<longrightarrow> time r \<le> time q)"
proof (induction rs arbitrary: q rule: rev_induct)
  case (snoc r rs)
  show ?case
  proof (cases "newest node time n rs")
    case None
    have "q = r \<and> node r = n" using snoc.prems None by (simp split: if_splits)
    moreover have "\<forall>r \<in> set rs. node r \<noteq> n" using None by (simp add: newest_None_iff)
    ultimately show ?thesis by auto
  next
    case (Some p)
    note IH = snoc.IH [OF Some]
    show ?thesis
    proof (cases "node r = n \<and> time p \<le> time r")
      case True
      then have "q = r" using snoc.prems Some by simp
      then show ?thesis using IH True by (auto intro: order_trans)
    next
      case False
      then have "q = p" using snoc.prems Some by (auto split: if_splits)
      then show ?thesis using IH False by auto
    qed
  qed
qed simp

locale heartbeat_store =
  fixes insert :: "'db \<Rightarrow> 'r \<Rightarrow> 'db" and latest :: "string \<Rightarrow> 'db \<Rightarrow> 'r option" and empty :: 'db
    and inv :: "'db \<Rightarrow> bool" and ok :: "'db \<Rightarrow> 'r \<Rightarrow> bool"
    and node :: "'r \<Rightarrow> string" and time :: "'r \<Rightarrow> int" and canon :: "'r \<Rightarrow> 'r"
  assumes inv_empty: "inv empty"
    and inv_insert: "inv db \<Longrightarrow> ok db r \<Longrightarrow> inv (insert db r)"
    and latest_empty: "latest n empty = None"
    and latest_insert: "inv db \<Longrightarrow> ok db r \<Longrightarrow> latest n (insert db r) =
      (if node r = n \<and> (\<forall>q. latest n db = Some q \<longrightarrow> time q \<le> time r) then Some (canon r)
       else latest n db)"
    and canon: "time (canon r) = time r"
begin

lemma latest_run:
  "ok_run insert ok empty rs \<Longrightarrow>
    inv (foldl insert empty rs) \<and>
    latest n (foldl insert empty rs) = map_option canon (newest node time n rs)"
proof (induction rs rule: rev_induct)
  case Nil
  then show ?case by (simp add: inv_empty latest_empty)
next
  case (snoc r rs)
  then have ok: "ok_run insert ok empty rs" "ok (foldl insert empty rs) r"
    by (simp_all add: ok_run_append)
  note IH = snoc.IH [OF ok(1)]
  then have i: "inv (foldl insert empty rs)" by blast
  show ?case
    using IH inv_insert [OF i ok(2)] latest_insert [OF i ok(2), of n] canon
    by (cases "newest node time n rs") auto
qed

lemma latest_isolated:
  assumes "ok_run insert ok empty rs" "ok_run insert ok empty (filter (\<lambda>r. node r = n) rs)"
  shows "latest n (foldl insert empty rs) = latest n (foldl insert empty (filter (\<lambda>r. node r = n) rs))"
  using latest_run [OF assms(1), of n] latest_run [OF assms(2), of n] newest_filter [of node time n rs]
  by simp

end

section \<open>SQLite as a heartbeat store\<close>

text \<open>A record that passed its constructors, with both moments inside the years 1 to 9999 of UTC.\<close>

definition storable :: "heartbeat_record \<Rightarrow> bool" where
  "storable r \<longleftrightarrow> heartbeat_record_post_init r = Inr () \<and> telemetry_ok (hr_telemetry r) \<and>
     (\<forall>d \<in> {hr_received_at r, ht_timestamp (hr_telemetry r)}. 0 \<le> instant d \<and> instant d < max_wall)"

text \<open>The record with both moments expressed in UTC: what reading back returns.\<close>

definition canonical :: "heartbeat_record \<Rightarrow> heartbeat_record" where
  "canonical r =
     \<lparr>hr_telemetry = (hr_telemetry r)\<lparr>ht_timestamp := utc_datetime (instant (ht_timestamp (hr_telemetry r)))\<rparr>,
      hr_received_at = utc_datetime (instant (hr_received_at r))\<rparr>"

definition empty_db :: heartbeat_db where
  "empty_db = \<lparr>db_rows = [], db_sequence = 0\<rparr>"

text \<open>The table holds the given records, ids ascending and bounded by the sequence.\<close>

definition holds_record :: "heartbeat_row \<Rightarrow> heartbeat_record \<Rightarrow> bool" where
  "holds_record row r \<longleftrightarrow> storable r \<and>
     (\<exists>row0. row_of_record r = Inr row0 \<and> row = row0\<lparr>row_id := row_id row\<rparr>)"

definition stores :: "heartbeat_db \<Rightarrow> heartbeat_record list \<Rightarrow> bool" where
  "stores db rs \<longleftrightarrow> list_all2 holds_record (db_rows db) rs \<and>
     sorted_wrt (<) (map row_id (db_rows db)) \<and> (\<forall>row \<in> set (db_rows db). row_id row \<le> db_sequence db)"

definition received :: "heartbeat_record \<Rightarrow> int" where
  "received r = instant (hr_received_at r)"

lemma require_aware_timestamp_eq_Inr [simp]: "require_aware_timestamp d = Inr u \<longleftrightarrow> aware d"
  by (auto simp: require_aware_timestamp_def aware_def)

lemma serialize_timestamp_eq_Inr:
  "serialize_timestamp d = Inr t \<longleftrightarrow>
    aware d \<and> 0 \<le> instant d \<and> instant d < max_wall \<and> t = utc_text (instant d)"
  by (auto simp: serialize_timestamp_def utc_text_def)

lemma parse_utc_text:
  "0 \<le> w \<Longrightarrow> w < max_wall \<Longrightarrow> parse_timestamp (utc_text w) = Inr (utc_datetime w)"
  by (simp add: parse_timestamp_def fromisoformat_utc_text)

lemma first_by_order_snoc:
  "\<forall>r \<in> set rs. row_id r < row_id x \<Longrightarrow>
    first_by_order (rs @ [x]) =
      (case first_by_order rs of None \<Rightarrow> Some x
       | Some q \<Rightarrow> Some (if row_received_at q \<le> row_received_at x then x else q))"
proof (induction rs)
  case (Cons r rs)
  have "row_id r < row_id x" using Cons.prems by simp
  then show ?case
    using Cons by (cases "first_by_order rs") (auto simp: later_row_def not_le not_less)
qed simp

text \<open>Taking a record apart and putting its fields back.\<close>

lemma rebuilt_records:
  "\<lparr>la_one = la_one l, la_five = la_five l, la_fifteen = la_fifteen l\<rparr> = (l :: load_average)"
  "\<lparr>ru_used = ru_used u, ru_total = ru_total u, ru_percent = ru_percent u\<rparr> = (u :: resource_usage)"
  "\<lparr>ht_host = ht_host t, ht_timestamp = d, ht_uptime_seconds = ht_uptime_seconds t, ht_load = ht_load t,
    ht_cpu_percent = ht_cpu_percent t, ht_ram = ht_ram t, ht_swap = ht_swap t,
    ht_root_filesystem = ht_root_filesystem t, ht_root_inodes = ht_root_inodes t\<rparr> =
    (t :: host_telemetry)\<lparr>ht_timestamp := d\<rparr>"
  by simp_all

lemma row_of_record_storable:
  assumes "storable r"
  shows "\<exists>row. row_of_record r = Inr row \<and> row_node row = hr_node r \<and>
    row_received_at row = utc_text (received r) \<and>
    (\<forall>i. row_to_record (row\<lparr>row_id := i\<rparr>) = Inr (canonical r))"
proof -
  define t where "t = hr_telemetry r"
  have a: "aware (hr_received_at r)" "aware (ht_timestamp t)" "strip (ht_host t) \<noteq> []"
    and b: "0 \<le> instant (hr_received_at r)" "instant (hr_received_at r) < max_wall"
      "0 \<le> instant (ht_timestamp t)" "instant (ht_timestamp t) < max_wall"
    and k: "host_telemetry_post_init t = Inr ()" "load_average_post_init (ht_load t) = Inr ()"
      "resource_usage_post_init (ht_ram t) = Inr ()" "resource_usage_post_init (ht_swap t) = Inr ()"
      "resource_usage_post_init (ht_root_filesystem t) = Inr ()"
      "resource_usage_post_init (ht_root_inodes t) = Inr ()"
    using assms by (simp_all add: storable_def t_def heartbeat_record_post_init_def
        require_valid_node_def telemetry_ok_def)
  have utc: "host_telemetry_post_init (t\<lparr>ht_timestamp := utc_datetime x\<rparr>) = Inr ()" for x
    using k(1) by (simp add: host_telemetry_post_init_def utc_datetime_def)
  have rec: "heartbeat_record_post_init
      \<lparr>hr_telemetry = t\<lparr>ht_timestamp := utc_datetime x\<rparr>, hr_received_at = utc_datetime y\<rparr> = Inr ()" for x y
    using a(3) by (simp add: heartbeat_record_post_init_def require_valid_node_def)
  from a b obtain row where row: "row_of_record r = Inr row"
    by (simp add: row_of_record_def Let_def serialize_timestamp_eq_Inr t_def [symmetric] del: ex_simps)
  have reads: "row_to_record (row\<lparr>row_id := i\<rparr>) = Inr (canonical r)" for i
    using row a b unfolding row_of_record_def Let_def
    by (auto simp: row_to_record_def resource_of_def serialize_timestamp_eq_Inr parse_utc_text
        canonical_def hr_node_def t_def [symmetric] k utc rec rebuilt_records)
  have "row_node row = hr_node r" "row_received_at row = utc_text (received r)"
    using row by (auto simp: row_of_record_def Let_def serialize_timestamp_eq_Inr received_def)
  with row reads show ?thesis by blast
qed

lemma stores_empty [simp]: "stores empty_db []"
  by (simp add: stores_def empty_db_def)

lemma stores_insert:
  assumes "stores db rs" "storable r" "row_of_record r = Inr row" "insert_row row db = (Inr i, db')"
  shows "stores db' (rs @ [r])"
proof -
  have db': "i = db_sequence db + 1"
    "db' = \<lparr>db_rows = db_rows db @ [row\<lparr>row_id := i\<rparr>], db_sequence = i\<rparr>"
    using assms(4) by (auto simp: insert_row_def Let_def split: if_splits)
  have "holds_record (row\<lparr>row_id := i\<rparr>) r"
    using assms(2,3) by (auto simp: holds_record_def)
  then show ?thesis
    using assms(1) db' by (auto simp: stores_def sorted_wrt_append list_all2_appendI)
qed

text \<open>What \<open>latest_heartbeat\<close> reads, as a function of the records inserted.\<close>

definition read_latest :: "string \<Rightarrow> heartbeat_db \<Rightarrow> heartbeat_record option" where
  "read_latest n db =
     (case select_latest n db of None \<Rightarrow> None
      | Some row \<Rightarrow> (case row_to_record row of Inl _ \<Rightarrow> None | Inr r \<Rightarrow> Some r))"

lemma first_by_order_in: "first_by_order rows = Some q \<Longrightarrow> q \<in> set rows"
  by (induction rows arbitrary: q) (auto split: option.splits if_splits)

lemma holds_record_facts:
  assumes "holds_record row r"
  shows "row_node row = hr_node r" "row_received_at row = utc_text (received r)"
    "row_to_record row = Inr (canonical r)" "0 \<le> received r" "received r < max_wall"
proof -
  obtain row0 where r: "storable r" "row_of_record r = Inr row0" "row = row0\<lparr>row_id := row_id row\<rparr>"
    using assms by (auto simp: holds_record_def)
  obtain row1 where 1: "row_of_record r = Inr row1" "row_node row1 = hr_node r"
    "row_received_at row1 = utc_text (received r)"
    "\<forall>i. row_to_record (row1\<lparr>row_id := i\<rparr>) = Inr (canonical r)"
    using row_of_record_storable [OF r(1)] by blast
  have e: "row1 = row0" using 1(1) r(2) by simp
  show "row_node row = hr_node r" using 1(2) e r(3) by (metis heartbeat_row.select_convs(2) heartbeat_row.update_convs(1) heartbeat_row.surjective)
  show "row_received_at row = utc_text (received r)"
    using 1(3) e r(3) by (metis heartbeat_row.select_convs(4) heartbeat_row.update_convs(1) heartbeat_row.surjective)
  show "row_to_record row = Inr (canonical r)" using 1(4) e r(3) by metis
  show "0 \<le> received r" "received r < max_wall" using r(1) by (simp_all add: storable_def received_def)
qed

lemma stores_row:
  "stores db rs \<Longrightarrow> row \<in> set (db_rows db) \<Longrightarrow> \<exists>r \<in> set rs. holds_record row r"
  unfolding stores_def by (metis in_set_conv_nth list_all2_conv_all_nth)

lemma select_latest_facts:
  assumes "stores db rs" "select_latest n db = Some row"
  shows "\<exists>r. holds_record row r \<and> hr_node r = n \<and> read_latest n db = Some (canonical r)"
proof -
  have "row \<in> set (db_rows db)" "row_node row = n"
    using assms(2) first_by_order_in unfolding select_latest_def by fastforce+
  then obtain r where "holds_record row r" using stores_row [OF assms(1)] by blast
  with \<open>row_node row = n\<close> holds_record_facts [OF this] show ?thesis
    by (auto simp: read_latest_def assms(2))
qed

lemma received_canonical [simp]: "received (canonical r) = received r"
  by (simp add: received_def canonical_def)

lemma canonical_node [simp]: "hr_node (canonical r) = hr_node r"
  by (simp add: hr_node_def canonical_def)

lemma read_latest_insert:
  assumes st: "stores db rs" and ok: "storable r" "row_of_record r = Inr row"
    and ins: "insert_row row db = (Inr i, db')"
  shows "read_latest n db' =
    (if hr_node r = n \<and> (\<forall>q. read_latest n db = Some q \<longrightarrow> received q \<le> received r)
     then Some (canonical r) else read_latest n db)"
proof -
  define new where "new = row\<lparr>row_id := i\<rparr>"
  have db': "i = db_sequence db + 1" "db_rows db' = db_rows db @ [new]"
    using ins by (auto simp: insert_row_def Let_def new_def split: if_splits)
  have h: "holds_record new r" using ok by (auto simp: holds_record_def new_def)
  note new = holds_record_facts [OF h]
  have ids: "\<forall>q \<in> set (filter (\<lambda>q. row_node q = n) (db_rows db)). row_id q < row_id new"
    using st db'(1) by (auto simp: stores_def new_def)
  show ?thesis
  proof (cases "hr_node r = n")
    case False
    then show ?thesis by (simp add: read_latest_def select_latest_def db'(2) new(1))
  next
    case True
    then have sel: "select_latest n db' =
      (case select_latest n db of None \<Rightarrow> Some new
       | Some q \<Rightarrow> Some (if row_received_at q \<le> row_received_at new then new else q))"
      using first_by_order_snoc [OF ids] by (simp add: select_latest_def db'(2) new(1))
    show ?thesis
    proof (cases "select_latest n db")
      case None
      then show ?thesis using sel True new(3) by (simp add: read_latest_def)
    next
      case (Some q)
      obtain p where p: "holds_record q p" "read_latest n db = Some (canonical p)"
        using select_latest_facts [OF st Some] by blast
      note old = holds_record_facts [OF p(1)]
      have "row_received_at q \<le> row_received_at new \<longleftrightarrow> received p \<le> received r"
        unfolding old(2) new(2) using old(4,5) new(4,5) by (rule utc_text_le_iff)
      then show ?thesis
        using sel Some True new(3) old(3) p(2) by (auto simp: read_latest_def)
    qed
  qed
qed

section \<open>The interpretation\<close>

text \<open>One successful \<open>insert_heartbeat\<close>, as a function on the database.\<close>

definition insert_record :: "heartbeat_db \<Rightarrow> heartbeat_record \<Rightarrow> heartbeat_db" where
  "insert_record db r =
     (case row_of_record r of Inl _ \<Rightarrow> db | Inr row \<Rightarrow> snd (insert_row row db))"

definition insertable :: "heartbeat_db \<Rightarrow> heartbeat_record \<Rightarrow> bool" where
  "insertable db r \<longleftrightarrow> storable r \<and> db_sequence db < 2 ^ 63 - 1"

lemma insert_record_row:
  assumes "insertable db r"
  shows "\<exists>row i. row_of_record r = Inr row \<and> insert_row row db = (Inr i, insert_record db r)"
  using row_of_record_storable [of r] assms
  by (auto simp: insertable_def insert_record_def insert_row_def Let_def)

interpretation sqlite: heartbeat_store insert_record read_latest empty_db "\<lambda>db. \<exists>rs. stores db rs"
  insertable hr_node received canonical
proof
  show "\<exists>rs. stores empty_db rs" by (rule exI, rule stores_empty)
  show "read_latest n empty_db = None" for n
    by (simp add: read_latest_def select_latest_def empty_db_def)
  show "received (canonical r) = received r" for r by simp
  fix db r n
  assume "\<exists>rs. stores db rs" and ok: "insertable db r"
  then obtain rs where st: "stores db rs" by blast
  obtain row i where row: "row_of_record r = Inr row" "insert_row row db = (Inr i, insert_record db r)"
    using insert_record_row [OF ok] by blast
  have s: "storable r" using ok by (simp add: insertable_def)
  show "\<exists>rs. stores (insert_record db r) rs" using stores_insert [OF st s row] by blast
  show "read_latest n (insert_record db r) =
      (if hr_node r = n \<and> (\<forall>q. read_latest n db = Some q \<longrightarrow> received q \<le> received r)
       then Some (canonical r) else read_latest n db)"
    by (rule read_latest_insert [OF st s row])
qed

lemma sequence_insert_record: "insertable db r \<Longrightarrow> db_sequence (insert_record db r) = db_sequence db + 1"
  using row_of_record_storable [of r]
  by (auto simp: insertable_def insert_record_def insert_row_def Let_def)

text \<open>Fewer than \<open>2 ^ 63 - 1\<close> observations never exhaust the ids.\<close>

lemma storable_run:
  "\<forall>r \<in> set rs. storable r \<Longrightarrow> int (length rs) < 2 ^ 63 \<Longrightarrow>
    ok_run insert_record insertable empty_db rs \<and>
    db_sequence (foldl insert_record empty_db rs) = int (length rs)"
proof (induction rs rule: rev_induct)
  case (snoc r rs)
  then show ?case
    using sequence_insert_record [of "foldl insert_record empty_db rs" r]
    by (auto simp: ok_run_append insertable_def)
qed (simp add: empty_db_def)

lemma latest_heartbeat_read_latest:
  assumes "stores db rs" "strip n \<noteq> []" "execute w = (Inr (), w')"
  shows "latest_heartbeat execute n (db, w) = (Inr (read_latest n db), db, w')"
proof (cases "select_latest n db")
  case None
  then show ?thesis
    using assms by (simp add: latest_heartbeat_def require_valid_node_def raise_if_def read_latest_def)
next
  case (Some row)
  then obtain r where "holds_record row r" using select_latest_facts [OF assms(1)] by blast
  then have "row_to_record row = Inr (canonical r)" by (rule holds_record_facts(3))
  then show ?thesis
    using assms Some by (simp add: latest_heartbeat_def require_valid_node_def raise_if_def read_latest_def)
qed

section \<open>Properties\<close>

definition sample_telemetry :: "string \<Rightarrow> int \<Rightarrow> host_telemetry" where
  "sample_telemetry h w =
     (let none = \<lparr>ru_used = Fin 0, ru_total = Fin 0, ru_percent = Fin 0\<rparr> in
      \<lparr>ht_host = h, ht_timestamp = utc_datetime w, ht_uptime_seconds = Fin 10,
       ht_load = \<lparr>la_one = Fin 0, la_five = Fin 0, la_fifteen = Fin 0\<rparr>, ht_cpu_percent = Fin 5,
       ht_ram = none, ht_swap = none, ht_root_filesystem = none, ht_root_inodes = none\<rparr>)"

definition sample_record :: "string \<Rightarrow> int \<Rightarrow> heartbeat_record" where
  "sample_record h w = \<lparr>hr_telemetry = sample_telemetry h w, hr_received_at = utc_datetime w\<rparr>"

lemma sample_telemetry_ok: "h \<noteq> [] \<Longrightarrow> telemetry_ok (sample_telemetry h w)"
  by (simp add: telemetry_ok_def sample_telemetry_def Let_def host_telemetry_post_init_def
      load_average_post_init_def resource_usage_accepted utc_datetime_def)

lemma sample_record_storable: "0 \<le> w \<Longrightarrow> w < max_wall \<Longrightarrow> storable (sample_record ''de'' w)"
  using sample_telemetry_ok [of "''de''" w]
  by (simp add: storable_def sample_record_def heartbeat_record_post_init_def sample_telemetry_def
      Let_def require_valid_node_def strip_eq_Nil is_space_def)

text \<open>C9: after any sequence of stored observations the latest heartbeat of a node is the one with
  the greatest central receive moment, the last stored one among equals, read back exactly up to
  the time zone of its moments; reading changes nothing in the database.\<close>

theorem latest_heartbeat_is_newest:
  assumes "\<forall>r \<in> set rs. storable r" "int (length rs) < 2 ^ 63" "strip n \<noteq> []"
    and "execute w = (Inr (), w')"
  shows "latest_heartbeat execute n (foldl insert_record empty_db rs, w) =
    (Inr (map_option canonical (newest hr_node received n rs)), foldl insert_record empty_db rs, w')"
proof -
  have ok: "ok_run insert_record insertable empty_db rs" using storable_run assms(1,2) by blast
  then obtain log where "stores (foldl insert_record empty_db rs) log"
    using sqlite.latest_run [OF ok] by blast
  then show ?thesis
    using latest_heartbeat_read_latest [where execute = execute and w = w, OF _ assms(3,4)]
      sqlite.latest_run [OF ok, of n] by simp
qed

lemma latest_heartbeat_is_newest_witness:
  "latest_heartbeat (\<lambda>w. (Inr (), w)) ''de''
      (foldl insert_record empty_db [sample_record ''de'' 7, sample_record ''de'' 3], ()) =
    (Inr (Some (canonical (sample_record ''de'' 7))),
     foldl insert_record empty_db [sample_record ''de'' 7, sample_record ''de'' 3], ())"
proof -
  have "\<forall>r \<in> set [sample_record ''de'' 7, sample_record ''de'' 3]. storable r"
    using sample_record_storable by (simp add: max_wall_def us_per_day_def)
  from latest_heartbeat_is_newest [OF this, of "''de''" "\<lambda>w. (Inr (), w)" "()" "()"] show ?thesis
    by (simp add: newest_def sample_record_def hr_node_def sample_telemetry_def Let_def received_def
        strip_eq_Nil is_space_def)
qed

text \<open>Telemetry of different nodes never mixes: what is read for a node depends only on the
  observations of that node.\<close>

theorem nodes_are_isolated:
  assumes "\<forall>r \<in> set rs. storable r" "int (length rs) < 2 ^ 63"
  shows "read_latest n (foldl insert_record empty_db rs) =
    read_latest n (foldl insert_record empty_db (filter (\<lambda>r. hr_node r = n) rs))"
proof (rule sqlite.latest_isolated)
  show "ok_run insert_record insertable empty_db rs" using storable_run assms by blast
  have "length (filter (\<lambda>r. hr_node r = n) rs) \<le> length rs" by (rule length_filter_le)
  then have "int (length (filter (\<lambda>r. hr_node r = n) rs)) < 2 ^ 63" using assms(2) by linarith
  then show "ok_run insert_record insertable empty_db (filter (\<lambda>r. hr_node r = n) rs)"
    using storable_run [of "filter (\<lambda>r. hr_node r = n) rs"] assms(1) by auto
qed

lemma nodes_are_isolated_witness:
  "read_latest ''us'' (foldl insert_record empty_db [sample_record ''de'' 7]) =
    read_latest ''us'' (foldl insert_record empty_db
      (filter (\<lambda>r. hr_node r = ''us'') [sample_record ''de'' 7]))"
  by (rule nodes_are_isolated)
    (use sample_record_storable in \<open>simp_all add: max_wall_def us_per_day_def\<close>)

text \<open>\<open>insert_heartbeat\<close> is all or nothing: when it raises the database is the one before;
  when it returns, exactly one row was appended, under an id never used before, which it returns.\<close>

theorem insert_heartbeat_atomic:
  "case insert_heartbeat execute r (db, w) of
     (Inl _, db', _) \<Rightarrow> db' = db
   | (Inr i, db', _) \<Rightarrow> i = db_sequence db + 1 \<and> db_sequence db' = i \<and>
       (\<exists>row. row_of_record r = Inr row \<and> db_rows db' = db_rows db @ [row\<lparr>row_id := i\<rparr>])"
  by (auto simp: insert_heartbeat_def insert_row_def Let_def split: sum.splits prod.splits)

end
