(* ===== verification/Config.thy ===== *)
theory Config
  imports Domain
begin

text \<open>
  \<open>config.py\<close>: the per-host configuration.  Numeric fields hold whatever Python number the
  settings loader passed on, an exact int or a float, so they have type \<open>pynum\<close>; checking a
  huge int raises \<open>OverflowError\<close> out of \<open>math.isfinite\<close>.
\<close>

section \<open>Scalar checks\<close>

definition require_positive :: "pynum \<Rightarrow> unit res" where
  "require_positive v =
     bind_res (math_isfinite v) (\<lambda>finite.
       in_order [raise_if (\<not> finite) ValueError, raise_if (num_le v (PInt 0)) ValueError])"

definition require_open_percent :: "pynum \<Rightarrow> unit res" where
  "require_open_percent v =
     bind_res (math_isfinite v) (\<lambda>finite.
       in_order [raise_if (\<not> finite) ValueError,
                 raise_if (\<not> (num_less (PInt 0) v \<and> num_le v (PInt 100))) ValueError])"

definition config_require_non_empty :: "string \<Rightarrow> unit res" where
  "config_require_non_empty v = raise_if (v = []) ValueError"

lemma config_require_non_empty_twin [simp]: "config_require_non_empty = require_non_empty"
  by (simp add: config_require_non_empty_def require_non_empty_def fun_eq_iff)

definition require_positive_int :: "int \<Rightarrow> unit res" where
  "require_positive_int v = raise_if (v < 1) ValueError"

section \<open>Data\<close>

record heartbeat_settings =
  hb_expected_interval_seconds :: pynum
  hb_stale_after_seconds :: pynum

definition heartbeat_settings_post_init :: "heartbeat_settings \<Rightarrow> unit res" where
  "heartbeat_settings_post_init h =
     in_order [require_positive (hb_expected_interval_seconds h),
               require_positive (hb_stale_after_seconds h)]"

record external_check_settings =
  ec_tcp_host :: string
  ec_tcp_port :: int
  ec_timeout_seconds :: pynum
  ec_down_confirmations :: int
  ec_recovery_confirmations :: int

definition external_check_settings_post_init :: "external_check_settings \<Rightarrow> unit res" where
  "external_check_settings_post_init e =
     in_order
       [config_require_non_empty (ec_tcp_host e),
        raise_if (\<not> (1 \<le> ec_tcp_port e \<and> ec_tcp_port e \<le> 65535)) ValueError,
        require_positive (ec_timeout_seconds e), require_positive_int (ec_down_confirmations e),
        require_positive_int (ec_recovery_confirmations e)]"

text \<open>\<open>ExternalCheckSettings(tcp_host, tcp_port)\<close> with the remaining fields at their defaults.\<close>

definition default_external :: "string \<Rightarrow> int \<Rightarrow> external_check_settings" where
  "default_external h p =
     \<lparr>ec_tcp_host = h, ec_tcp_port = p, ec_timeout_seconds = PFlt (Fin 5),
      ec_down_confirmations = 3, ec_recovery_confirmations = 2\<rparr>"

record thresholds =
  th_cpu_percent :: pynum
  th_ram_percent :: pynum
  th_swap_percent :: pynum
  th_disk_percent :: pynum
  th_inode_percent :: pynum
  th_load5_max :: "pynum option"

definition thresholds_post_init :: "thresholds \<Rightarrow> unit res" where
  "thresholds_post_init t =
     in_order
       [require_open_percent (th_cpu_percent t), require_open_percent (th_ram_percent t),
        require_open_percent (th_swap_percent t), require_open_percent (th_disk_percent t),
        require_open_percent (th_inode_percent t),
        case th_load5_max t of None \<Rightarrow> Inr () | Some m \<Rightarrow> require_positive m]"

definition default_thresholds :: thresholds where
  "default_thresholds =
     \<lparr>th_cpu_percent = PFlt (Fin 90), th_ram_percent = PFlt (Fin 90), th_swap_percent = PFlt (Fin 80),
      th_disk_percent = PFlt (Fin 85), th_inode_percent = PFlt (Fin 90), th_load5_max = None\<rparr>"

record host_config =
  hc_name :: string
  hc_heartbeat :: heartbeat_settings
  hc_external :: external_check_settings
  hc_thresholds :: thresholds
  hc_services :: "string list"

definition host_config_post_init :: "host_config \<Rightarrow> unit res" where
  "host_config_post_init h =
     in_order
       [config_require_non_empty (hc_name h), in_order (map config_require_non_empty (hc_services h)),
        raise_if (card (set (hc_services h)) \<noteq> length (hc_services h)) ValueError]"

record sentinel_config =
  sc_hosts :: "host_config list"

definition sentinel_config_post_init :: "sentinel_config \<Rightarrow> unit res" where
  "sentinel_config_post_init c =
     (let names = map hc_name (sc_hosts c)
      in raise_if (card (set names) \<noteq> length names) ValueError)"

text \<open>\<open>SentinelConfig.host\<close>: the first candidate of that exact name.\<close>

fun config_host :: "host_config list \<Rightarrow> string \<Rightarrow> host_config option" where
  "config_host [] name = None"
| "config_host (c # cs) name = (if hc_name c = name then Some c else config_host cs name)"

section \<open>Accepted configurations\<close>

definition host_config_ok :: "host_config \<Rightarrow> bool" where
  "host_config_ok h \<longleftrightarrow>
     host_config_post_init h = Inr () \<and> heartbeat_settings_post_init (hc_heartbeat h) = Inr () \<and>
     external_check_settings_post_init (hc_external h) = Inr () \<and>
     thresholds_post_init (hc_thresholds h) = Inr ()"

definition config_ok :: "sentinel_config \<Rightarrow> bool" where
  "config_ok c \<longleftrightarrow>
     sentinel_config_post_init c = Inr () \<and> (\<forall>h \<in> set (sc_hosts c). host_config_ok h)"

lemma num_pos_iff: "math_isfinite v = Inr True \<Longrightarrow> \<not> num_le v (PInt 0) \<longleftrightarrow> (\<exists>r > 0. exact v = Fin r)"
  by (cases v) (auto simp: num_le_def flt_isfinite_iff split: if_splits)

lemma require_positive_eq_Inr [simp]:
  "require_positive v = Inr u \<longleftrightarrow> math_isfinite v = Inr True \<and> (\<exists>r > 0. exact v = Fin r)"
  using num_pos_iff [of v] by (auto simp: require_positive_def)

lemma require_positive_int_eq_Inr [simp]: "require_positive_int v = Inr u \<longleftrightarrow> 1 \<le> v"
  by (auto simp: require_positive_int_def)

lemma config_host_name: "config_host cs name = Some h \<Longrightarrow> hc_name h = name \<and> h \<in> set cs"
  by (induction cs) (auto split: if_splits)

lemma config_host_None_iff: "config_host cs name = None \<longleftrightarrow> name \<notin> hc_name ` set cs"
  by (induction cs) auto

text \<open>Names are unique, so a lookup finds exactly the host that carries the name.\<close>

lemma config_host_unique:
  "distinct (map hc_name cs) \<Longrightarrow> h \<in> set cs \<Longrightarrow> config_host cs (hc_name h) = Some h"
  by (induction cs) (auto simp: image_iff)

lemma sentinel_config_accepted:
  "sentinel_config_post_init c = Inr () \<longleftrightarrow> distinct (map hc_name (sc_hosts c))"
  unfolding sentinel_config_post_init_def Let_def raise_if_eq_Inr
  using card_distinct [of "map hc_name (sc_hosts c)"] distinct_card [of "map hc_name (sc_hosts c)"]
  by blast

end
