(* ===== verification/Ingestion.thy ===== *)
theory Ingestion
  imports Repository Config
begin

text \<open>
  \<open>ingestion.py\<close>: accepting one heartbeat.  The central clock is a parameter; it may return
  something other than an aware \<open>datetime\<close>, or raise.
\<close>

record heartbeat_receipt =
  rc_node :: string
  rc_observation_id :: int
  rc_received_at :: datetime

definition ingest ::
  "sentinel_config \<Rightarrow> ('w, pyvalue) io \<Rightarrow> ('w, unit) io \<Rightarrow> host_telemetry \<Rightarrow>
    (heartbeat_db \<times> 'w, heartbeat_receipt) io" where
  "ingest config clock execute telemetry =
     (if config_host (sc_hosts config) (ht_host telemetry) = None then lift_io (Inl UnknownNodeError)
      else bind_io (on_snd clock) (\<lambda>received.
        if \<not> aware_clock_result received then lift_io (Inl IngestClockError)
        else bind_io
          (lift_io (validated heartbeat_record_post_init
             \<lparr>hr_telemetry = telemetry, hr_received_at = clock_datetime received\<rparr>)) (\<lambda>record.
        bind_io (insert_heartbeat execute record) (\<lambda>observation_id.
          return_io \<lparr>rc_node = ht_host telemetry, rc_observation_id = observation_id,
                     rc_received_at = clock_datetime received\<rparr>))))"

section \<open>Facts\<close>

lemma insert_heartbeat_cases:
  assumes "insert_heartbeat execute r (db, w) = (res, db', w')"
  shows "(\<exists>e. res = Inl e \<and> db' = db) \<or>
    (\<exists>row. res = Inr (db_sequence db + 1) \<and> row_of_record r = Inr row \<and> db' = insert_record db r \<and>
      db_rows db' = db_rows db @ [row\<lparr>row_id := db_sequence db + 1\<rparr>])"
  using assms
  by (auto simp: insert_heartbeat_def insert_row_def insert_record_def Let_def
      split: sum.splits prod.splits if_splits)

lemma ingest_cases:
  assumes "ingest config clock execute t (db, w) = (res, db', w')"
  shows "(\<exists>e. res = Inl e \<and> db' = db) \<or>
    (\<exists>d row. fst (clock w) = Inr (PyDatetime d) \<and> aware d \<and> ht_host t \<in> hc_name ` set (sc_hosts config) \<and>
      res = Inr \<lparr>rc_node = ht_host t, rc_observation_id = db_sequence db + 1, rc_received_at = d\<rparr> \<and>
      row_of_record \<lparr>hr_telemetry = t, hr_received_at = d\<rparr> = Inr row \<and>
      heartbeat_record_post_init \<lparr>hr_telemetry = t, hr_received_at = d\<rparr> = Inr () \<and>
      db' = insert_record db \<lparr>hr_telemetry = t, hr_received_at = d\<rparr> \<and>
      db_rows db' = db_rows db @ [row\<lparr>row_id := db_sequence db + 1\<rparr>])"
proof -
  show ?thesis
  proof (cases "config_host (sc_hosts config) (ht_host t) = None")
    case True
    then show ?thesis using assms by (auto simp: ingest_def)
  next
    case known: False
    then have mem: "ht_host t \<in> hc_name ` set (sc_hosts config)" by (simp add: config_host_None_iff)
    obtain c w1 where c: "clock w = (c, w1)" by (cases "clock w")
    show ?thesis
    proof (cases "\<exists>d. c = Inr (PyDatetime d) \<and> aware d")
      case False
      then show ?thesis
        using assms known c
        by (cases c) (auto simp: ingest_def bind_io_split aware_clock_result_iff)
    next
      case True
      then obtain d where d: "c = Inr (PyDatetime d)" "aware d" by blast
      let ?r = "\<lparr>hr_telemetry = t, hr_received_at = d\<rparr>"
      show ?thesis
      proof (cases "heartbeat_record_post_init ?r")
        case (Inl e)
        then show ?thesis
          using assms known c d
          by (auto simp: ingest_def bind_io_split aware_clock_result_iff validated_def)
      next
        case (Inr u)
        obtain res1 db1 w2 where i: "insert_heartbeat execute ?r (db, w1) = (res1, db1, w2)"
          by (cases "insert_heartbeat execute ?r (db, w1)")
        show ?thesis
          using assms known c d Inr mem insert_heartbeat_cases [OF i]
          by (auto simp: ingest_def bind_io_split aware_clock_result_iff validated_def i)
      qed
    qed
  qed
qed

section \<open>Properties\<close>

definition sample_config :: sentinel_config where
  "sample_config =
     \<lparr>sc_hosts = [\<lparr>hc_name = ''de'',
        hc_heartbeat = \<lparr>hb_expected_interval_seconds = PInt 60, hb_stale_after_seconds = PInt 180\<rparr>,
        hc_external = default_external ''de.example'' 443,
        hc_thresholds = default_thresholds, hc_services = []\<rparr>]\<rparr>"

text \<open>Accepting a heartbeat writes only what it acknowledges: a call that raises leaves the
  database as it was; a receipt means the node is configured, the receive moment is the aware
  value of the one clock reading, the observation passed its boundary checks, and exactly its row
  was appended under the acknowledged id.\<close>

theorem ingest_writes_what_it_acknowledges:
  assumes "ingest config clock execute t (db, w) = (res, db', w')"
  shows "case res of
      Inl _ \<Rightarrow> db' = db
    | Inr receipt \<Rightarrow>
        ht_host t \<in> hc_name ` set (sc_hosts config) \<and> rc_node receipt = ht_host t \<and>
        fst (clock w) = Inr (PyDatetime (rc_received_at receipt)) \<and> aware (rc_received_at receipt) \<and>
        (\<exists>row. row_of_record \<lparr>hr_telemetry = t, hr_received_at = rc_received_at receipt\<rparr> = Inr row \<and>
          db_rows db' = db_rows db @ [row\<lparr>row_id := rc_observation_id receipt\<rparr>])"
  using ingest_cases [OF assms] by auto

lemma ingest_writes_what_it_acknowledges_witness:
  "\<exists>db'. ingest sample_config (\<lambda>w. (Inr (PyDatetime (utc_datetime w)), w)) (\<lambda>w. (Inr (), w))
      (sample_telemetry ''us'' 3) (empty_db, 7) = (Inl UnknownNodeError, db', 7) \<and> db' = empty_db"
  using ingest_writes_what_it_acknowledges
    [of sample_config "\<lambda>w. (Inr (PyDatetime (utc_datetime w)), w)" "\<lambda>w. (Inr (), w)"
        "sample_telemetry ''us'' 3" empty_db 7 "Inl UnknownNodeError" empty_db 7]
  by (simp add: ingest_def sample_config_def sample_telemetry_def Let_def)

text \<open>C14: an accepted heartbeat is what the engine reads next: when no stored heartbeat of the node
  is later on the central clock, \<open>latest_heartbeat\<close> after the call returns exactly the accepted
  telemetry and receive moment, expressed in UTC.\<close>

theorem ingest_then_read:
  assumes "stores db rs" "telemetry_ok t"
    and "ingest config clock execute t (db, w) = (Inr receipt, db', w')"
    and "\<forall>q. read_latest (ht_host t) db = Some q \<longrightarrow> received q \<le> instant (rc_received_at receipt)"
    and "execute w' = (Inr (), w'')"
  shows "latest_heartbeat execute (ht_host t) (db', w') =
    (Inr (Some (canonical \<lparr>hr_telemetry = t, hr_received_at = rc_received_at receipt\<rparr>)), db', w'')"
proof -
  let ?r = "\<lparr>hr_telemetry = t, hr_received_at = rc_received_at receipt\<rparr>"
  obtain row where row: "row_of_record ?r = Inr row" "heartbeat_record_post_init ?r = Inr ()"
    "db' = insert_record db ?r" "db_rows db' = db_rows db @ [row\<lparr>row_id := db_sequence db + 1\<rparr>]"
    using ingest_cases [OF assms(3)] by auto
  have st: "storable ?r"
    using row(1,2) assms(2)
    by (auto simp: storable_def row_of_record_def Let_def serialize_timestamp_eq_Inr)
  have "db_sequence db < 2 ^ 63 - 1"
    using row(1,3,4) by (auto simp: insert_record_def insert_row_def Let_def split: if_splits)
  then have ok: "insertable db ?r" using st by (simp add: insertable_def)
  obtain rs' where "stores db' rs'" using sqlite.inv_insert [OF _ ok] assms(1) row(3) by blast
  moreover have "strip (ht_host t) \<noteq> []"
    using row(2) by (simp add: heartbeat_record_post_init_def require_valid_node_def)
  moreover have "read_latest (ht_host t) db' = Some (canonical ?r)"
    using sqlite.latest_insert [OF _ ok, of "ht_host t"] assms(1,4) row(3)
    by (auto simp: hr_node_def received_def)
  ultimately show ?thesis using latest_heartbeat_read_latest assms(5) by fastforce
qed

lemma ingest_then_read_witness:
  "\<exists>(receipt::heartbeat_receipt) db'. latest_heartbeat (\<lambda>w. (Inr (), w)) ''de'' (db', 7::int) =
    (Inr (Some (canonical \<lparr>hr_telemetry = sample_telemetry ''de'' 3, hr_received_at = rc_received_at receipt\<rparr>)), db', 7)"
proof -
  let ?t = "sample_telemetry ''de'' 3" and ?clock = "\<lambda>w. (Inr (PyDatetime (utc_datetime w)), w)"
    and ?ok = "\<lambda>w::int. (Inr (), w)"
  let ?r = "\<lparr>hr_telemetry = ?t, hr_received_at = utc_datetime 7\<rparr>"
  have "storable ?r"
    using sample_record_storable [of 3] by (auto simp: storable_def sample_record_def max_wall_def
        us_per_day_def heartbeat_record_post_init_def)
  then obtain row where row: "row_of_record ?r = Inr row" using row_of_record_storable by blast
  have "heartbeat_record_post_init ?r = Inr ()" using \<open>storable ?r\<close> by (simp add: storable_def)
  moreover have "config_host (sc_hosts sample_config) (ht_host ?t) \<noteq> None" "ht_host ?t = ''de''"
    by (simp_all add: sample_config_def sample_telemetry_def Let_def)
  ultimately obtain receipt db' where run:
    "ingest sample_config ?clock ?ok ?t (empty_db, 7) = (Inr receipt, db', 7)"
    by (simp add: ingest_def bind_io_split aware_clock_result_iff validated_def insert_heartbeat_def
        row insert_row_def empty_db_def Let_def)
  have "read_latest ''de'' empty_db = None" by (rule sqlite.latest_empty)
  then have "latest_heartbeat ?ok ''de'' (db', 7) =
      (Inr (Some (canonical \<lparr>hr_telemetry = ?t, hr_received_at = rc_received_at receipt\<rparr>)), db', 7)"
    using ingest_then_read [OF stores_empty sample_telemetry_ok run, of 7] \<open>ht_host ?t = ''de''\<close> by simp
  then show ?thesis by (intro exI)
qed

end
