(* ===== verification/Health.thy ===== *)
theory Health
  imports Config
begin

text \<open>
  \<open>health.py\<close> and \<open>reachability.py\<close>: the evidence a host evaluation rests on, namely heartbeat
  freshness on the central clock, breached resource thresholds, and one TCP connection attempt.
\<close>

section \<open>Heartbeat freshness\<close>

datatype heartbeat_freshness = MISSING | FRESH | STALE

record freshness_result =
  fr_status :: heartbeat_freshness
  fr_age_seconds :: "pyfloat option"

definition require_aware :: "datetime \<Rightarrow> unit res" where
  "require_aware d = raise_if (\<not> aware d) ValueError"

definition freshness_result_post_init :: "freshness_result \<Rightarrow> unit res" where
  "freshness_result_post_init r =
     (if fr_status r = MISSING then raise_if (fr_age_seconds r \<noteq> None) ValueError
      else case fr_age_seconds r of
        None \<Rightarrow> Inl ValueError
      | Some age \<Rightarrow>
          in_order [raise_if (\<not> flt_isfinite age) ValueError, raise_if (flt_less age (Fin 0)) ValueError])"

definition evaluate_heartbeat_freshness ::
  "datetime \<Rightarrow> datetime option \<Rightarrow> heartbeat_settings \<Rightarrow> freshness_result res" where
  "evaluate_heartbeat_freshness now latest_received_at settings =
     bind_res (require_aware now) (\<lambda>_.
       case latest_received_at of
         None \<Rightarrow> validated freshness_result_post_init \<lparr>fr_status = MISSING, fr_age_seconds = None\<rparr>
       | Some latest \<Rightarrow>
           bind_res (require_aware latest) (\<lambda>_.
             if instant now < instant latest then Inl ValueError
             else let age = total_seconds_between now latest;
                      status = (if num_le (PFlt age) (hb_stale_after_seconds settings)
                                then FRESH else STALE)
                  in validated freshness_result_post_init
                       \<lparr>fr_status = status, fr_age_seconds = Some age\<rparr>))"

section \<open>Resource thresholds\<close>

datatype resource_metric = CPU | RAM | SWAP | DISK | INODES | LOAD5

definition canonical_metric_order :: "resource_metric list" where
  "canonical_metric_order = [CPU, RAM, SWAP, DISK, INODES, LOAD5]"

text \<open>The index of a metric in the canonical order (\<open>enumerate\<close>).\<close>

definition metric_rank :: "resource_metric \<Rightarrow> nat" where
  "metric_rank m = length (takeWhile (\<lambda>x. x \<noteq> m) canonical_metric_order)"

record resource_assessment =
  breaches :: "resource_metric list"

definition resource_assessment_post_init :: "resource_assessment \<Rightarrow> unit res" where
  "resource_assessment_post_init r =
     (let positions = map metric_rank (breaches r)
      in in_order [raise_if (positions \<noteq> sort positions) ValueError,
                   raise_if (card (set positions) \<noteq> length positions) ValueError])"

definition is_breached :: "resource_assessment \<Rightarrow> bool" where
  "is_breached r \<longleftrightarrow> length (breaches r) > 0"

text \<open>Whether the metric of a snapshot reaches its threshold; a missing threshold is never reached.\<close>

fun metric_breached :: "host_telemetry \<Rightarrow> thresholds \<Rightarrow> resource_metric \<Rightarrow> bool" where
  "metric_breached t th CPU = num_le (th_cpu_percent th) (PFlt (ht_cpu_percent t))"
| "metric_breached t th RAM = num_le (th_ram_percent th) (PFlt (ru_percent (ht_ram t)))"
| "metric_breached t th SWAP = num_le (th_swap_percent th) (PFlt (ru_percent (ht_swap t)))"
| "metric_breached t th DISK = num_le (th_disk_percent th) (PFlt (ru_percent (ht_root_filesystem t)))"
| "metric_breached t th INODES = num_le (th_inode_percent th) (PFlt (ru_percent (ht_root_inodes t)))"
| "metric_breached t th LOAD5 =
     (case th_load5_max th of None \<Rightarrow> False | Some m \<Rightarrow> num_le m (PFlt (la_five (ht_load t))))"

text \<open>The chain of \<open>if ...: breaches.append(...)\<close> statements.\<close>

definition evaluate_resource_thresholds ::
  "host_telemetry \<Rightarrow> thresholds \<Rightarrow> resource_assessment res" where
  "evaluate_resource_thresholds t th =
     (let bs = (if metric_breached t th CPU then [CPU] else []) @
               (if metric_breached t th RAM then [RAM] else []) @
               (if metric_breached t th SWAP then [SWAP] else []) @
               (if metric_breached t th DISK then [DISK] else []) @
               (if metric_breached t th INODES then [INODES] else []) @
               (if metric_breached t th LOAD5 then [LOAD5] else [])
      in validated resource_assessment_post_init \<lparr>breaches = bs\<rparr>)"

section \<open>TCP reachability\<close>

datatype tcp_reachability = REACHABLE | UNREACHABLE

text \<open>
  One \<open>socket.create_connection\<close> call and, when it succeeds, one \<open>close\<close> of the connection it
  returned; both belong to the network and are parameters.
\<close>

definition probe_tcp_reachability ::
  "(string \<times> int \<Rightarrow> pynum \<Rightarrow> ('w, 'c) io) \<Rightarrow> ('c \<Rightarrow> ('w, unit) io) \<Rightarrow>
    external_check_settings \<Rightarrow> ('w, tcp_reachability) io" where
  "probe_tcp_reachability create_connection close settings w =
     (case create_connection (ec_tcp_host settings, ec_tcp_port settings)
             (ec_timeout_seconds settings) w of
        (Inl e, w') \<Rightarrow> (if is_os_error e then Inr UNREACHABLE else Inl e, w')
      | (Inr connection, w') \<Rightarrow>
          (case close connection w' of
             (Inl e, w'') \<Rightarrow> (Inl e, w'')
           | (Inr _, w'') \<Rightarrow> (Inr REACHABLE, w'')))"

section \<open>Facts about the evidence\<close>

lemma require_aware_eq_Inr [simp]: "require_aware d = Inr u \<longleftrightarrow> aware d"
  by (simp add: require_aware_def)

lemma metric_rank_values [simp]:
  "metric_rank CPU = 0" "metric_rank RAM = 1" "metric_rank SWAP = 2" "metric_rank DISK = 3"
  "metric_rank INODES = 4" "metric_rank LOAD5 = 5"
  by (simp_all add: metric_rank_def canonical_metric_order_def)

lemma resource_assessment_post_init_eq_Inr [simp]:
  "resource_assessment_post_init r = Inr () \<longleftrightarrow>
     sorted (map metric_rank (breaches r)) \<and> distinct (map metric_rank (breaches r))"
proof -
  let ?p = "map metric_rank (breaches r)"
  have "?p \<noteq> sort ?p \<longleftrightarrow> \<not> sorted ?p" by (metis sorted_sort sorted_sort_id)
  moreover have "card (set ?p) \<noteq> length ?p \<longleftrightarrow> \<not> distinct ?p"
    using card_distinct [of ?p] distinct_card [of ?p] by blast
  ultimately show ?thesis
    unfolding resource_assessment_post_init_def Let_def by (simp del: distinct_map sorted_map)
qed

lemma canonical_filter_accepted:
  "resource_assessment_post_init \<lparr>breaches = filter P canonical_metric_order\<rparr> = Inr ()"
proof -
  have "sorted (map metric_rank canonical_metric_order)" "distinct (map metric_rank canonical_metric_order)"
    by (simp_all add: canonical_metric_order_def)
  then show ?thesis by (simp add: sorted_filter distinct_map_filter)
qed

lemma evaluate_resource_thresholds_total:
  "evaluate_resource_thresholds t th =
     Inr \<lparr>breaches = filter (metric_breached t th) canonical_metric_order\<rparr>"
proof -
  have "evaluate_resource_thresholds t th =
    validated resource_assessment_post_init
      \<lparr>breaches = filter (metric_breached t th) canonical_metric_order\<rparr>"
    unfolding evaluate_resource_thresholds_def Let_def canonical_metric_order_def filter.simps
    by (simp del: metric_breached.simps)
  then show ?thesis by (simp add: canonical_filter_accepted)
qed

text \<open>A day's microseconds fit a double with room to spare: the age is always finite.\<close>

lemma round64_finite:
  assumes "0 \<le> x" "x < 2 ^ 53"
  shows "\<exists>r \<ge> 0. round64 x = Fin r"
proof (cases "x = 0")
  case False
  then have x: "0 < x" using assms by simp
  have "ulp_exp x \<le> 0"
    using ilog2_le [of x 52] x assms(2) by (simp add: ulp_exp_def power_int_def)
  have "of_int (round_half_even (x / 2 powi (ulp_exp x))) \<le> (of_int (2 ^ 53) :: rat)"
    using round_half_even_upper [OF scaled_upper [OF x]] by (simp only: of_int_le_iff)
  then have "round_magnitude x \<le> 2 ^ 53 * 2 powi (ulp_exp x)"
    by (simp add: round_magnitude_def Let_def mult_right_mono)
  also have "\<dots> \<le> 2 ^ 53 * 2 powi 0"
    using \<open>ulp_exp x \<le> 0\<close> by (intro mult_left_mono) (simp_all add: powi_le_iff del: power_int_0_right)
  finally have m: "round_magnitude x \<le> 2 ^ 53" by simp
  have "(2::rat) ^ 53 < 2 ^ 1024" by (rule power_strict_increasing) simp_all
  with m have "round_magnitude x < 2 ^ 1024" by linarith
  then show ?thesis using x round_magnitude_nonneg [OF x] by (simp add: round64_def Let_def not_le)
qed simp

lemma instant_range:
  "valid_datetime d \<Longrightarrow> - us_per_day < instant d \<and> instant d < max_wall + us_per_day"
  by (auto simp: valid_datetime_def instant_def us_per_day_def split: option.splits)

lemma elapsed_finite:
  assumes "valid_datetime now" "valid_datetime latest" "instant latest \<le> instant now"
  shows "\<exists>r \<ge> 0. total_seconds_between now latest = Fin r"
proof -
  have "instant now - instant latest < 1000000 * 2 ^ 53"
    using instant_range [OF assms(1)] instant_range [OF assms(2)]
    by (simp add: max_wall_def us_per_day_def)
  then have "rat_of_int (instant now - instant latest) < of_int (1000000 * 2 ^ 53)"
    by (simp only: of_int_less_iff)
  then have "rat_of_int (instant now - instant latest) / 1000000 < 2 ^ 53" by simp
  then show ?thesis
    unfolding total_seconds_between_def using assms(3) by (intro round64_finite) simp_all
qed

lemma freshness_cases:
  assumes "valid_datetime now" "valid_datetime latest" "aware now" "aware latest"
  shows "evaluate_heartbeat_freshness now (Some latest) settings =
    (if instant now < instant latest then Inl ValueError
     else Inr \<lparr>fr_status = (if num_le (PFlt (total_seconds_between now latest)) (hb_stale_after_seconds settings)
                            then FRESH else STALE),
               fr_age_seconds = Some (total_seconds_between now latest)\<rparr>)"
proof (cases "instant now < instant latest")
  case True
  then show ?thesis
    using assms(3,4) by (simp add: evaluate_heartbeat_freshness_def require_aware_def raise_if_def)
next
  case False
  with elapsed_finite [OF assms(1,2)] obtain r where r: "r \<ge> 0" "total_seconds_between now latest = Fin r"
    by auto
  have "freshness_result_post_init \<lparr>fr_status = st, fr_age_seconds = Some (Fin r)\<rparr> = Inr ()"
    if "st \<noteq> MISSING" for st
    using that r(1) by (simp add: freshness_result_post_init_def)
  then show ?thesis
    using assms(3,4) False r
    by (auto simp: evaluate_heartbeat_freshness_def require_aware_def raise_if_def Let_def)
qed

text \<open>
  A probe reports UNREACHABLE exactly when its one connection attempt fails with an
  operating-system error, and REACHABLE when the connection was made and closed.
\<close>

lemma probe_unreachable_iff:
  "fst (probe_tcp_reachability cc cl s w) = Inr UNREACHABLE \<longleftrightarrow>
    (\<exists>e. fst (cc (ec_tcp_host s, ec_tcp_port s) (ec_timeout_seconds s) w) = Inl e \<and> is_os_error e)"
  by (auto simp: probe_tcp_reachability_def split: prod.splits sum.splits)

section \<open>Properties\<close>

text \<open>For timezone-aware moments the freshness verdict on a stored heartbeat is an error
  exactly when the heartbeat lies in the future of the central clock; otherwise it carries the
  elapsed seconds, finite and not negative, and is FRESH exactly up to and including the
  configured limit.\<close>

theorem freshness_decision:
  assumes "valid_datetime now" "valid_datetime latest" "aware now" "aware latest"
  shows "(evaluate_heartbeat_freshness now (Some latest) settings = Inl ValueError \<longleftrightarrow>
      instant now < instant latest) \<and>
    (instant latest \<le> instant now \<longrightarrow>
      (\<exists>age \<ge> 0. total_seconds_between now latest = Fin age \<and>
        evaluate_heartbeat_freshness now (Some latest) settings =
          Inr \<lparr>fr_status = (if num_le (PFlt (Fin age)) (hb_stale_after_seconds settings)
                             then FRESH else STALE), fr_age_seconds = Some (Fin age)\<rparr>))"
proof (cases "instant now < instant latest")
  case False
  then obtain r where "r \<ge> 0" "total_seconds_between now latest = Fin r"
    using elapsed_finite [OF assms(1,2)] by auto
  with False show ?thesis unfolding freshness_cases [OF assms] by (intro conjI impI exI [of _ r]) simp_all
qed (simp add: freshness_cases [OF assms])

lemma freshness_decision_witness:
  "(evaluate_heartbeat_freshness (utc_datetime 0) (Some (utc_datetime 5))
      \<lparr>hb_expected_interval_seconds = PInt 60, hb_stale_after_seconds = PInt 180\<rparr> = Inl ValueError)"
  using freshness_decision [of "utc_datetime 0" "utc_datetime 5"]
  by (simp add: valid_datetime_def utc_datetime_def aware_def instant_def max_wall_def us_per_day_def)

text \<open>Freshness never comes back by waiting: once a stored heartbeat is stale, it is stale at
  every later moment of the central clock.\<close>

theorem staleness_is_monotone:
  assumes "valid_datetime latest" "valid_datetime now" "valid_datetime later"
    and "aware latest" "aware now" "aware later"
    and "evaluate_heartbeat_freshness now (Some latest) settings = Inr r" and "fr_status r = STALE"
    and "instant now \<le> instant later" and "hb_stale_after_seconds settings \<noteq> PFlt NaN"
  shows "\<exists>age. evaluate_heartbeat_freshness later (Some latest) settings =
    Inr \<lparr>fr_status = STALE, fr_age_seconds = Some age\<rparr>"
proof -
  let ?t = "\<lambda>d. total_seconds_between d latest"
  have le: "instant latest \<le> instant now"
    and stale: "\<not> num_le (PFlt (?t now)) (hb_stale_after_seconds settings)"
    using assms(7,8) unfolding freshness_cases [OF assms(2,1,5,4)] by (auto split: if_splits)
  have "flt_le (?t now) (?t later)"
    unfolding total_seconds_between_def using le assms(9)
    by (intro round64_mono divide_right_mono) simp_all
  then have "\<not> num_le (PFlt (?t later)) (hb_stale_after_seconds settings)"
    using stale flt_le_trans by (auto simp: num_le_def)
  then show ?thesis
    using le assms(9) unfolding freshness_cases [OF assms(3,1,6,4)] by auto
qed

lemma staleness_is_monotone_witness:
  "\<exists>age. evaluate_heartbeat_freshness (utc_datetime 300000000) (Some (utc_datetime 0))
      \<lparr>hb_expected_interval_seconds = PInt 60, hb_stale_after_seconds = PInt 180\<rparr> =
    Inr \<lparr>fr_status = STALE, fr_age_seconds = Some age\<rparr>"
proof (rule staleness_is_monotone [of "utc_datetime 0" "utc_datetime 200000000" "utc_datetime 300000000"])
  show "evaluate_heartbeat_freshness (utc_datetime 200000000) (Some (utc_datetime 0))
      \<lparr>hb_expected_interval_seconds = PInt 60, hb_stale_after_seconds = PInt 180\<rparr> =
    Inr \<lparr>fr_status = STALE, fr_age_seconds = Some (Fin 200)\<rparr>"
    by code_simp
qed (simp_all add: valid_datetime_def utc_datetime_def aware_def instant_def max_wall_def us_per_day_def)

text \<open>The breached metrics of a snapshot are exactly those at or above their threshold, in
  the canonical order and without repetition; the evaluation never raises.\<close>

theorem breaches_are_exact:
  "\<exists>bs. evaluate_resource_thresholds t th = Inr \<lparr>breaches = bs\<rparr> \<and>
     set bs = {m. metric_breached t th m} \<and> sorted (map metric_rank bs) \<and> distinct bs"
proof -
  let ?bs = "filter (metric_breached t th) canonical_metric_order"
  have "m \<in> set canonical_metric_order" for m
    by (cases m) (simp_all add: canonical_metric_order_def)
  moreover have "sorted (map metric_rank ?bs) \<and> distinct ?bs"
    using canonical_filter_accepted [of "metric_breached t th"] by (auto simp: distinct_map)
  ultimately show ?thesis by (auto simp: evaluate_resource_thresholds_total)
qed

end
