(* ===== verification/State_Resolver.thy ===== *)
theory State_Resolver
  imports Health Debounce
begin

text \<open>
  \<open>state_resolver.py\<close>: the host-state machine with debounce and hysteresis.  Its memory is the
  previous resolution (absent before the first evaluation); one call maps it and the evidence to
  the next resolution.
\<close>

record host_state_resolution =
  rs_state :: host_state
  rs_down_failures :: int
  rs_recovery_successes :: int

definition resolution_post_init :: "host_state_resolution \<Rightarrow> unit res" where
  "resolution_post_init r =
     in_order
       [raise_if (rs_down_failures r < 0) ValueError,
        raise_if (rs_recovery_successes r < 0) ValueError,
        if rs_state r = DOWN then raise_if (rs_down_failures r \<noteq> 0) ValueError
        else raise_if (rs_recovery_successes r \<noteq> 0) ValueError]"

definition new_resolution :: "host_state \<Rightarrow> int \<Rightarrow> int \<Rightarrow> host_state_resolution res" where
  "new_resolution s f r =
     validated resolution_post_init \<lparr>rs_state = s, rs_down_failures = f, rs_recovery_successes = r\<rparr>"

definition base_state ::
  "heartbeat_freshness \<Rightarrow> resource_assessment \<Rightarrow> tcp_reachability \<Rightarrow> host_state" where
  "base_state freshness resources reachability =
     (if freshness = FRESH \<and> reachability = REACHABLE \<and> \<not> is_breached resources
      then HEALTHY else DEGRADED)"

definition is_down_observation :: "heartbeat_freshness \<Rightarrow> tcp_reachability \<Rightarrow> bool" where
  "is_down_observation freshness reachability \<longleftrightarrow>
     freshness \<in> {MISSING, STALE} \<and> reachability = UNREACHABLE"

definition resolve_host_state ::
  "host_state_resolution option \<Rightarrow> heartbeat_freshness \<Rightarrow> resource_assessment \<Rightarrow>
    tcp_reachability \<Rightarrow> external_check_settings \<Rightarrow> host_state_resolution res" where
  "resolve_host_state previous freshness resources reachability settings =
     (if previous \<noteq> None \<and> rs_state (the previous) = DOWN then
        (if reachability = UNREACHABLE then new_resolution DOWN 0 0
         else let successes = rs_recovery_successes (the previous) + 1
              in if ec_recovery_confirmations settings \<le> successes
                 then new_resolution (base_state freshness resources reachability) 0 0
                 else new_resolution DOWN 0 successes)
      else if is_down_observation freshness reachability then
        (let failures = (case previous of None \<Rightarrow> 0 | Some p \<Rightarrow> rs_down_failures p) + 1
         in if ec_down_confirmations settings \<le> failures then new_resolution DOWN 0 0
            else new_resolution DEGRADED failures 0)
      else new_resolution (base_state freshness resources reachability) 0 0)"

section \<open>The machine as a run\<close>

text \<open>One observation: freshness, resource assessment, reachability.\<close>

type_synonym observation = "heartbeat_freshness \<times> resource_assessment \<times> tcp_reachability"

text \<open>Feeding observations one after another, starting without memory.\<close>

fun resolve_step :: "external_check_settings \<Rightarrow> host_state_resolution option \<Rightarrow> observation \<Rightarrow>
    host_state_resolution option" where
  "resolve_step settings previous (f, a, r) =
     (case resolve_host_state previous f a r settings of Inl _ \<Rightarrow> previous | Inr x \<Rightarrow> Some x)"

definition resolve_all ::
  "external_check_settings \<Rightarrow> observation list \<Rightarrow> host_state_resolution option" where
  "resolve_all settings obs = foldl (resolve_step settings) None obs"

definition lost_and_unreachable :: "observation \<Rightarrow> bool" where
  "lost_and_unreachable ob = (case ob of (f, a, r) \<Rightarrow> is_down_observation f r)"

definition tcp_reachable :: "observation \<Rightarrow> bool" where
  "tcp_reachable ob = (case ob of (f, a, r) \<Rightarrow> r = REACHABLE)"

definition is_down :: "host_state_resolution option \<Rightarrow> bool" where
  "is_down p \<longleftrightarrow> (case p of None \<Rightarrow> False | Some r \<Rightarrow> rs_state r = DOWN)"

definition resolution_ok :: "host_state_resolution option \<Rightarrow> bool" where
  "resolution_ok p \<longleftrightarrow> (case p of None \<Rightarrow> True | Some r \<Rightarrow> resolution_post_init r = Inr ())"

definition pending_failures :: "host_state_resolution option \<Rightarrow> nat" where
  "pending_failures p = (case p of None \<Rightarrow> 0 | Some r \<Rightarrow> nat (rs_down_failures r))"

definition pending_successes :: "host_state_resolution option \<Rightarrow> nat" where
  "pending_successes p = (case p of None \<Rightarrow> 0 | Some r \<Rightarrow> nat (rs_recovery_successes r))"

section \<open>One call\<close>

lemma resolution_post_init_eq_Inr [simp]:
  "resolution_post_init r = Inr () \<longleftrightarrow>
     0 \<le> rs_down_failures r \<and> 0 \<le> rs_recovery_successes r \<and>
     (if rs_state r = DOWN then rs_down_failures r = 0 else rs_recovery_successes r = 0)"
  by (auto simp: resolution_post_init_def)

lemma new_resolution_Inr:
  "0 \<le> f \<Longrightarrow> 0 \<le> r \<Longrightarrow> (if s = DOWN then f = 0 else r = 0) \<Longrightarrow>
    new_resolution s f r = Inr \<lparr>rs_state = s, rs_down_failures = f, rs_recovery_successes = r\<rparr>"
  by (auto simp: new_resolution_def)

lemma base_state_not_DOWN [simp]: "base_state f a r \<noteq> DOWN"
  by (simp add: base_state_def)

lemma resolve_cases:
  assumes "resolution_ok p"
  shows "resolve_host_state p f a r s =
    Inr (if is_down p then
           (if r = UNREACHABLE then \<lparr>rs_state = DOWN, rs_down_failures = 0, rs_recovery_successes = 0\<rparr>
            else if ec_recovery_confirmations s \<le> int (pending_successes p) + 1
            then \<lparr>rs_state = base_state f a r, rs_down_failures = 0, rs_recovery_successes = 0\<rparr>
            else \<lparr>rs_state = DOWN, rs_down_failures = 0,
                  rs_recovery_successes = int (pending_successes p) + 1\<rparr>)
         else if is_down_observation f r then
           (if ec_down_confirmations s \<le> int (pending_failures p) + 1
            then \<lparr>rs_state = DOWN, rs_down_failures = 0, rs_recovery_successes = 0\<rparr>
            else \<lparr>rs_state = DEGRADED, rs_down_failures = int (pending_failures p) + 1,
                  rs_recovery_successes = 0\<rparr>)
         else \<lparr>rs_state = base_state f a r, rs_down_failures = 0, rs_recovery_successes = 0\<rparr>)"
  using assms
  by (cases p) (auto simp: resolve_host_state_def is_down_def pending_failures_def
      pending_successes_def resolution_ok_def new_resolution_Inr Let_def split: if_splits)

section \<open>The resolver as a debounced machine\<close>

text \<open>
  The counters are compared after the increment, so a threshold below one (which the settings
  reject) would act as one.
\<close>

definition down_after :: "external_check_settings \<Rightarrow> nat" where
  "down_after s = max 1 (nat (ec_down_confirmations s))"

definition recover_after :: "external_check_settings \<Rightarrow> nat" where
  "recover_after s = max 1 (nat (ec_recovery_confirmations s))"

lemma threshold_le_iff:
  "down_after s \<le> Suc k \<longleftrightarrow> ec_down_confirmations s \<le> int k + 1"
  "recover_after s \<le> Suc k \<longleftrightarrow> ec_recovery_confirmations s \<le> int k + 1"
  unfolding down_after_def recover_after_def by linarith+

lemmas resolver_views = is_down_def pending_failures_def pending_successes_def resolution_ok_def
  lost_and_unreachable_def tcp_reachable_def down_after_def recover_after_def

lemma resolve_step_eq:
  assumes "resolution_ok p"
  shows "resolve_step s p ob =
    Some (if is_down p then
           (if \<not> tcp_reachable ob then \<lparr>rs_state = DOWN, rs_down_failures = 0, rs_recovery_successes = 0\<rparr>
            else if recover_after s \<le> Suc (pending_successes p)
            then \<lparr>rs_state = base_state (fst ob) (fst (snd ob)) (snd (snd ob)),
                  rs_down_failures = 0, rs_recovery_successes = 0\<rparr>
            else \<lparr>rs_state = DOWN, rs_down_failures = 0,
                  rs_recovery_successes = int (Suc (pending_successes p))\<rparr>)
         else if lost_and_unreachable ob then
           (if down_after s \<le> Suc (pending_failures p)
            then \<lparr>rs_state = DOWN, rs_down_failures = 0, rs_recovery_successes = 0\<rparr>
            else \<lparr>rs_state = DEGRADED, rs_down_failures = int (Suc (pending_failures p)),
                  rs_recovery_successes = 0\<rparr>)
         else \<lparr>rs_state = base_state (fst ob) (fst (snd ob)) (snd (snd ob)),
               rs_down_failures = 0, rs_recovery_successes = 0\<rparr>)"
proof -
  obtain f a r where ob: "ob = (f, a, r)" by (cases ob)
  have "r = UNREACHABLE \<longleftrightarrow> r \<noteq> REACHABLE" by (cases r) auto
  then show ?thesis
    unfolding ob resolve_step.simps resolve_cases [OF assms]
    by (simp add: tcp_reachable_def lost_and_unreachable_def threshold_le_iff
        add.commute)
qed

interpretation resolver: debounce "resolve_step s" resolution_ok "\<lambda>_ _. True" is_down
  pending_failures pending_successes lost_and_unreachable tcp_reachable "down_after s" "recover_after s"
  for s
proof
  fix p ob
  show "0 < down_after s" "0 < recover_after s" by (simp_all add: down_after_def recover_after_def)
  show "\<not> (lost_and_unreachable ob \<and> tcp_reachable ob)"
    by (auto simp: lost_and_unreachable_def tcp_reachable_def is_down_observation_def)
  assume ok: "resolution_ok p"
  show "resolution_ok (resolve_step s p ob)"
    unfolding resolve_step_eq [OF ok] by (simp add: resolution_ok_def)
  note step = resolve_step_eq [OF ok, of s ob]
  show "\<not> is_down p \<Longrightarrow> lost_and_unreachable ob \<Longrightarrow> Suc (pending_failures p) < down_after s \<Longrightarrow>
      \<not> is_down (resolve_step s p ob) \<and> pending_failures (resolve_step s p ob) = Suc (pending_failures p)"
    unfolding step by (simp add: is_down_def pending_failures_def)
  show "\<not> is_down p \<Longrightarrow> lost_and_unreachable ob \<Longrightarrow> down_after s \<le> Suc (pending_failures p) \<Longrightarrow>
      is_down (resolve_step s p ob) \<and> pending_successes (resolve_step s p ob) = 0"
    unfolding step by (simp add: is_down_def pending_successes_def)
  show "\<not> is_down p \<Longrightarrow> \<not> lost_and_unreachable ob \<Longrightarrow>
      \<not> is_down (resolve_step s p ob) \<and> pending_failures (resolve_step s p ob) = 0"
    unfolding step by (simp add: is_down_def pending_failures_def)
  show "is_down p \<Longrightarrow> tcp_reachable ob \<Longrightarrow> Suc (pending_successes p) < recover_after s \<Longrightarrow>
      is_down (resolve_step s p ob) \<and> pending_successes (resolve_step s p ob) = Suc (pending_successes p)"
    unfolding step by (simp add: is_down_def pending_successes_def)
  show "is_down p \<Longrightarrow> tcp_reachable ob \<Longrightarrow> recover_after s \<le> Suc (pending_successes p) \<Longrightarrow>
      \<not> is_down (resolve_step s p ob) \<and> pending_failures (resolve_step s p ob) = 0"
    unfolding step by (simp add: is_down_def pending_failures_def)
  show "is_down p \<Longrightarrow> \<not> tcp_reachable ob \<Longrightarrow>
      is_down (resolve_step s p ob) \<and> pending_successes (resolve_step s p ob) = 0"
    unfolding step by (simp add: is_down_def pending_successes_def)
qed

lemma down_after_accepted [simp]:
  "external_check_settings_post_init s = Inr () \<Longrightarrow> down_after s = nat (ec_down_confirmations s)"
  "external_check_settings_post_init s = Inr () \<Longrightarrow> recover_after s = nat (ec_recovery_confirmations s)"
  by (auto simp: external_check_settings_post_init_def down_after_def recover_after_def)

lemma ok_run_True [simp]: "ok_run step (\<lambda>_ _. True) s obs"
  by (induction obs arbitrary: s) auto

lemma initial_memory [simp]:
  "resolution_ok None" "\<not> is_down None" "pending_failures None = 0" "pending_successes None = 0"
  by (simp_all add: resolver_views)

section \<open>Properties\<close>

definition sample_settings :: external_check_settings where
  "sample_settings = default_external ''vds.example'' 22"

definition lost :: observation where
  "lost = (STALE, \<lparr>breaches = []\<rparr>, UNREACHABLE)"

definition fine :: observation where
  "fine = (FRESH, \<lparr>breaches = []\<rparr>, REACHABLE)"

lemma sample_settings_accepted: "external_check_settings_post_init sample_settings = Inr ()"
  by (simp add: sample_settings_def default_external_def external_check_settings_post_init_def)

text \<open>C11: a host is DOWN after a sequence of observations exactly when the observation history
  confirms it: some moment ended a streak of \<open>down_confirmations\<close> observations with a missing or
  stale heartbeat and an unreachable TCP port, and no later moment ended a streak of
  \<open>recovery_confirmations\<close> reachable observations.\<close>

theorem resolver_down_iff_confirmed:
  assumes "external_check_settings_post_init s = Inr ()"
  shows "is_down (resolve_all s obs) \<longleftrightarrow>
    confirmed_down (nat (ec_down_confirmations s)) (nat (ec_recovery_confirmations s))
      lost_and_unreachable tcp_reachable obs"
  using resolver.run_down_iff [of None s obs] assms by (simp add: resolve_all_def)

lemma resolver_down_iff_confirmed_witness:
  "confirmed_down 3 2 lost_and_unreachable tcp_reachable [fine, lost, lost, lost, fine]"
  using resolver_down_iff_confirmed [OF sample_settings_accepted, of "[fine, lost, lost, lost, fine]"]
  by (simp add: sample_settings_def default_external_def resolve_all_def fine_def lost_def
      resolve_host_state_def new_resolution_Inr is_down_observation_def base_state_def
      is_breached_def is_down_def)

text \<open>One resolution never raises on a remembered value the resolver itself accepts, and its
  result is again accepted (no negative counter, a failure counter only outside DOWN, a success
  counter only in DOWN), whatever the evidence and the settings.\<close>

theorem resolver_total_and_preserving:
  assumes "resolution_ok p"
  shows "\<exists>x. resolve_host_state p f a r s = Inr x \<and> resolution_ok (Some x)"
  unfolding resolve_cases [OF assms] by (simp add: resolution_ok_def)

lemma resolver_total_and_preserving_witness:
  "\<exists>x. resolve_host_state None MISSING \<lparr>breaches = []\<rparr> UNREACHABLE sample_settings = Inr x \<and>
    resolution_ok (Some x)"
  by (rule resolver_total_and_preserving) (simp add: resolution_ok_def)

text \<open>A host is reported HEALTHY exactly when its heartbeat is fresh, the TCP port is
  reachable, no threshold is breached and, coming from DOWN, enough consecutive reachable
  observations have been counted.\<close>

theorem resolver_healthy_iff:
  assumes "resolution_ok p" and "resolve_host_state p f a r s = Inr x"
  shows "rs_state x = HEALTHY \<longleftrightarrow>
    f = FRESH \<and> r = REACHABLE \<and> breaches a = [] \<and>
    (is_down p \<longrightarrow> ec_recovery_confirmations s \<le> int (pending_successes p) + 1)"
  using assms(2) unfolding resolve_cases [OF assms(1)]
  by (auto simp: base_state_def is_breached_def is_down_observation_def split: if_splits)

lemma resolver_healthy_iff_witness:
  "rs_state \<lparr>rs_state = HEALTHY, rs_down_failures = 0, rs_recovery_successes = 0\<rparr> = HEALTHY \<longleftrightarrow>
    FRESH = FRESH \<and> REACHABLE = REACHABLE \<and> breaches \<lparr>breaches = []\<rparr> = [] \<and>
    (is_down None \<longrightarrow> ec_recovery_confirmations sample_settings \<le> int (pending_successes None) + 1)"
  by (rule resolver_healthy_iff)
    (simp_all add: resolution_ok_def resolve_host_state_def is_down_observation_def base_state_def
      is_breached_def new_resolution_Inr)

text \<open>Resource breaches never take part in the DOWN decision: two observation sequences that
  agree on freshness and reachability agree on DOWN after every prefix.\<close>

theorem resources_never_affect_down:
  assumes "map (\<lambda>(f, a, r). (f, r)) obs = map (\<lambda>(f, a, r). (f, r)) obs'"
  shows "is_down (resolve_all s (take n obs)) = is_down (resolve_all s (take n obs'))"
proof -
  let ?view = "map (\<lambda>(f, a, r). (f, r))"
  have e: "map lost_and_unreachable os = map (\<lambda>(f, r). is_down_observation f r) (?view os)"
    "map tcp_reachable os = map (\<lambda>(f, r). r = REACHABLE) (?view os)" for os
    by (auto simp: lost_and_unreachable_def tcp_reachable_def)
  have t: "?view (take n obs) = ?view (take n obs')"
    unfolding take_map [symmetric] assms ..
  have "map lost_and_unreachable (take n obs) = map lost_and_unreachable (take n obs')"
    "map tcp_reachable (take n obs) = map tcp_reachable (take n obs')"
    by (simp_all only: e t)
  then have "confirmed_down (down_after s) (recover_after s) lost_and_unreachable tcp_reachable (take n obs) =
    confirmed_down (down_after s) (recover_after s) lost_and_unreachable tcp_reachable (take n obs')"
    by (rule confirmed_down_cong)
  then show ?thesis
    using resolver.run_down_iff [of None s] by (simp add: resolve_all_def)
qed

lemma resources_never_affect_down_witness:
  "is_down (resolve_all sample_settings (take 2 [(STALE, \<lparr>breaches = [CPU]\<rparr>, UNREACHABLE), lost])) =
    is_down (resolve_all sample_settings (take 2 [lost, lost]))"
  by (rule resources_never_affect_down) (simp add: lost_def)

end
