(* ===== verification/Health_Engine.thy ===== *)
theory Health_Engine
  imports Ingestion State_Resolver
begin

text \<open>
  \<open>health_engine.py\<close>: one health evaluation of one host.  The state is the engine's per-host
  memory, the database (read only) and the outside world; the clock, the execution of SQL
  statements and the TCP connection are parameters.
\<close>

type_synonym resolutions = "string \<Rightarrow> host_state_resolution option"

record host_health_evaluation =
  ev_host :: string
  ev_evaluated_at :: datetime
  ev_freshness :: freshness_result
  ev_resources :: "resource_assessment option"
  ev_reachability :: tcp_reachability
  ev_resolution :: host_state_resolution
  ev_transition :: "host_transition option"

definition evaluation_post_init :: "host_health_evaluation \<Rightarrow> unit res" where
  "evaluation_post_init e =
     in_order [raise_if (ev_host e = []) ValueError,
               raise_if (tz (ev_evaluated_at e) = NoTzinfo \<or> utcoffset (tz (ev_evaluated_at e)) = None)
                 ValueError]"

definition neutral_resources :: resource_assessment where
  "neutral_resources = \<lparr>breaches = []\<rparr>"

definition build_transition ::
  "string \<Rightarrow> host_state_resolution option \<Rightarrow> host_state_resolution \<Rightarrow> datetime \<Rightarrow>
    host_transition option res" where
  "build_transition host previous resolution evaluated_at =
     (case previous of
        None \<Rightarrow> Inr None
      | Some p \<Rightarrow>
          (let entering_down = (rs_state p \<noteq> DOWN \<and> rs_state resolution = DOWN);
               leaving_down = (rs_state p = DOWN \<and> rs_state resolution \<noteq> DOWN)
           in if \<not> (entering_down \<or> leaving_down) then Inr None
              else map_sum id Some
                (validated host_transition_post_init
                   \<lparr>tr_host = host, tr_from = rs_state p, tr_to = rs_state resolution,
                    tr_at = evaluated_at\<rparr>)))"

text \<open>From the evidence and the memory to the evaluation: everything after the probe.\<close>

definition conclude ::
  "host_config \<Rightarrow> string \<Rightarrow> datetime \<Rightarrow> freshness_result \<Rightarrow> resource_assessment option \<Rightarrow>
    tcp_reachability \<Rightarrow> host_state_resolution option \<Rightarrow> host_health_evaluation res" where
  "conclude cfg host evaluated_at freshness public_resources reachability previous =
     bind_res (resolve_host_state previous (fr_status freshness)
         (case public_resources of None \<Rightarrow> neutral_resources | Some a \<Rightarrow> a) reachability
         (hc_external cfg)) (\<lambda>resolution.
     bind_res (build_transition host previous resolution evaluated_at) (\<lambda>transition.
       validated evaluation_post_init
         \<lparr>ev_host = host, ev_evaluated_at = evaluated_at, ev_freshness = freshness,
          ev_resources = public_resources, ev_reachability = reachability,
          ev_resolution = resolution, ev_transition = transition\<rparr>))"

text \<open>The D1 evidence of a stored heartbeat or of its absence.\<close>

definition heartbeat_evidence ::
  "host_config \<Rightarrow> datetime \<Rightarrow> heartbeat_record option \<Rightarrow>
    (freshness_result \<times> resource_assessment option) res" where
  "heartbeat_evidence cfg evaluated_at latest =
     bind_res (evaluate_heartbeat_freshness evaluated_at (map_option hr_received_at latest)
         (hc_heartbeat cfg)) (\<lambda>freshness.
     case latest of
       None \<Rightarrow> Inr (freshness, None)
     | Some r \<Rightarrow>
         bind_res (evaluate_resource_thresholds (hr_telemetry r) (hc_thresholds cfg)) (\<lambda>a.
           Inr (freshness, Some a)))"

definition evaluate_host ::
  "sentinel_config \<Rightarrow> ('w, pyvalue) io \<Rightarrow> ('w, unit) io \<Rightarrow>
    (string \<times> int \<Rightarrow> pynum \<Rightarrow> ('w, 'c) io) \<Rightarrow> ('c \<Rightarrow> ('w, unit) io) \<Rightarrow> string \<Rightarrow>
    (resolutions \<times> heartbeat_db \<times> 'w, host_health_evaluation) io" where
  "evaluate_host config clock execute create_connection close host =
     (case config_host (sc_hosts config) host of
        None \<Rightarrow> lift_io (Inl UnknownHostError)
      | Some cfg \<Rightarrow>
          bind_io (on_snd (on_snd clock)) (\<lambda>value.
          if \<not> aware_clock_result value then lift_io (Inl EngineClockError)
          else let evaluated_at = clock_datetime value in
          bind_io (on_snd (latest_heartbeat execute host)) (\<lambda>latest.
          bind_io (lift_io (heartbeat_evidence cfg evaluated_at latest)) (\<lambda>(freshness, resources).
          bind_io (on_snd (on_snd (probe_tcp_reachability create_connection close (hc_external cfg))))
            (\<lambda>reachability. (\<lambda>(memory, outer).
               case conclude cfg host evaluated_at freshness resources reachability (memory host) of
                 Inl e \<Rightarrow> (Inl e, memory, outer)
               | Inr evaluation \<Rightarrow>
                   (Inr evaluation, memory(host := Some (ev_resolution evaluation)), outer)))))))"

section \<open>Facts\<close>

text \<open>The observation an evaluation fed to the resolver.\<close>

definition observation_of :: "host_health_evaluation \<Rightarrow> observation" where
  "observation_of e =
     (fr_status (ev_freshness e), (case ev_resources e of None \<Rightarrow> neutral_resources | Some a \<Rightarrow> a),
      ev_reachability e)"

lemma conclude_facts:
  assumes "conclude cfg host now fresh res reach previous = Inr e"
  shows "ev_host e = host" "ev_evaluated_at e = now" "host \<noteq> []"
    "resolve_step (hc_external cfg) previous (observation_of e) = Some (ev_resolution e)"
    "build_transition host previous (ev_resolution e) now = Inr (ev_transition e)"
  using assms by (auto simp: conclude_def observation_of_def evaluation_post_init_def)

lemma latest_heartbeat_db [simp]: "fst (snd (latest_heartbeat execute n (db, w))) = db"
  by (simp add: latest_heartbeat_def split: sum.splits prod.splits option.splits)

lemma evaluate_host_cases:
  assumes "evaluate_host config clock execute cc cl host (mem, db, w) = (res, mem', db', w')"
  shows "db' = db \<and>
    ((\<exists>e. res = Inl e) \<and> mem' = mem \<or>
     (\<exists>ev cfg fresh rs reach. res = Inr ev \<and> mem' = mem(host := Some (ev_resolution ev)) \<and>
        config_host (sc_hosts config) host = Some cfg \<and>
        fst (clock w) = Inr (PyDatetime (ev_evaluated_at ev)) \<and> aware (ev_evaluated_at ev) \<and>
        conclude cfg host (ev_evaluated_at ev) fresh rs reach (mem host) = Inr ev))"
proof (cases "config_host (sc_hosts config) host")
  case None
  then show ?thesis using assms by (auto simp: evaluate_host_def)
next
  case (Some cfg)
  obtain c w1 where c: "clock w = (c, w1)" by (cases "clock w")
  show ?thesis
  proof (cases "\<exists>d. c = Inr (PyDatetime d) \<and> aware d")
    case False
    then show ?thesis
      using assms Some c by (cases c) (auto simp: evaluate_host_def bind_io_split aware_clock_result_iff)
  next
    case True
    then obtain d where d: "c = Inr (PyDatetime d)" "aware d" by blast
    obtain l w2 where l: "latest_heartbeat execute host (db, w1) = (l, db, w2)"
      using latest_heartbeat_db [of execute host db w1] by (metis prod.collapse)
    show ?thesis
    proof (cases "bind_res l (heartbeat_evidence cfg d)")
      case (Inl e)
      then show ?thesis
        using assms Some c d l
        by (cases l) (auto simp: evaluate_host_def bind_io_split aware_clock_result_iff Let_def)
    next
      case (Inr p)
      then obtain latest fresh rs where e: "l = Inr latest" "heartbeat_evidence cfg d latest = Inr (fresh, rs)"
        by (cases p) auto
      obtain r w3 where r: "probe_tcp_reachability cc cl (hc_external cfg) w2 = (r, w3)"
        by (cases "probe_tcp_reachability cc cl (hc_external cfg) w2")
      show ?thesis
      proof (cases "bind_res r (\<lambda>reach. conclude cfg host d fresh rs reach (mem host))")
        case (Inl e')
        then have "r = Inl e' \<or> (\<exists>b. r = Inr b \<and> conclude cfg host d fresh rs b (mem host) = Inl e')"
          by (simp add: bind_res_eq_Inl)
        then show ?thesis
          using assms Some c d l e r
          by (elim disjE exE) (auto simp: evaluate_host_def bind_io_split aware_clock_result_iff Let_def)
      next
        case (Inr ev)
        then obtain reach where v: "r = Inr reach" "conclude cfg host d fresh rs reach (mem host) = Inr ev"
          by auto
        have now: "ev_evaluated_at ev = d" using conclude_facts(2) [OF v(2)] .
        have "res = Inr ev \<and> mem' = mem(host := Some (ev_resolution ev)) \<and> db' = db"
          using assms Some c d l e r v
          by (simp add: evaluate_host_def bind_io_split aware_clock_result_iff Let_def)
        then show ?thesis using Some c d v now by auto
      qed
    qed
  qed
qed

lemma evaluate_host_returned:
  assumes "evaluate_host config clock execute cc cl host (mem, db, w) = (Inr e, mem', db', w')"
  shows "ev_host e = host" "mem' = mem(host := Some (ev_resolution e))" "db' = db"
  using evaluate_host_cases [OF assms] conclude_facts(1) by auto

section \<open>Sequences of evaluations\<close>

text \<open>
  The engine serving a sequence of hosts, each call on the state the one before left; an
  evaluation that raises yields no result.
\<close>

fun evaluate_all ::
  "(string \<Rightarrow> ('s, host_health_evaluation) io) \<Rightarrow> string list \<Rightarrow> 's \<Rightarrow> host_health_evaluation list \<times> 's" where
  "evaluate_all evaluate [] s = ([], s)"
| "evaluate_all evaluate (h # hs) s =
     (case evaluate h s of
        (Inl _, s') \<Rightarrow> evaluate_all evaluate hs s'
      | (Inr e, s') \<Rightarrow> (case evaluate_all evaluate hs s' of (es, s'') \<Rightarrow> (e # es, s'')))"

text \<open>The memory of a host is the resolver run on the observations of its own evaluations.\<close>

lemma memory_is_resolver_run:
  assumes "evaluate_all (evaluate_host config clock execute cc cl) hs (mem, db, w) = (es, mem', db', w')"
    and "config_host (sc_hosts config) h = Some cfg"
  shows "mem' h = foldl (resolve_step (hc_external cfg)) (mem h)
    (map observation_of (filter (\<lambda>e. ev_host e = h) es))"
  using assms(1)
proof (induction hs arbitrary: mem db w es)
  case (Cons k hs)
  obtain res mem1 db1 w1 where step: "evaluate_host config clock execute cc cl k (mem, db, w) = (res, mem1, db1, w1)"
    by (metis prod_cases4)
  from evaluate_host_cases [OF step]
  show ?case
  proof (elim conjE disjE exE)
    fix e assume "res = Inl e" "mem1 = mem"
    then show ?thesis using Cons step by simp
  next
    fix ev cfg' fresh rs reach
    assume ev: "res = Inr ev" "mem1 = mem(k := Some (ev_resolution ev))"
      "config_host (sc_hosts config) k = Some cfg'"
      "conclude cfg' k (ev_evaluated_at ev) fresh rs reach (mem k) = Inr ev"
    obtain es1 where es: "es = ev # es1"
      "evaluate_all (evaluate_host config clock execute cc cl) hs (mem1, db1, w1) = (es1, mem', db', w')"
      using Cons.prems step ev(1) by (auto split: prod.splits)
    note c = conclude_facts [OF ev(4)]
    show ?thesis
      using Cons.IH [OF es(2)] es(1) ev(2,3) c(1,4) assms(2) by (cases "k = h") auto
  qed
qed simp

section \<open>Properties\<close>

text \<open>The memory update is all or nothing and evaluation is read-only on the database: an
  evaluation that raises leaves the remembered resolutions of every host as they were, one that
  returns changes exactly the entry of its host, to the resolution it reports; the evaluation moment
  is the aware value of the one clock reading.\<close>

theorem evaluation_commits_last:
  assumes "evaluate_host config clock execute cc cl host (mem, db, w) = (res, mem', db', w')"
  shows "db' = db \<and>
    (case res of
       Inl _ \<Rightarrow> mem' = mem
     | Inr e \<Rightarrow> mem' = mem(host := Some (ev_resolution e)) \<and> ev_host e = host \<and>
         fst (clock w) = Inr (PyDatetime (ev_evaluated_at e)) \<and> aware (ev_evaluated_at e))"
  using evaluate_host_cases [OF assms] conclude_facts(1) by auto

lemma evaluation_commits_last_witness:
  "\<exists>mem' db' w'. evaluate_host sample_config (\<lambda>w. (Inr PyOther, w)) (\<lambda>w. (Inr (), w))
      (\<lambda>_ _ w. (Inr (), w)) (\<lambda>_ w. (Inr (), w)) ''de'' (Map.empty, empty_db, ()) =
    (Inl EngineClockError, mem', db', w') \<and> mem' = Map.empty \<and> db' = empty_db"
  using evaluation_commits_last [of sample_config "\<lambda>w. (Inr PyOther, w)" "\<lambda>w. (Inr (), w)"
      "\<lambda>_ _ w. (Inr (), w)" "\<lambda>_ w. (Inr (), w)" "''de''" Map.empty empty_db "()" "Inl EngineClockError"
      Map.empty empty_db "()"]
  by (simp add: evaluate_host_def sample_config_def bind_io_split)

text \<open>An evaluation carries a transition exactly when a remembered resolution exists and DOWN
  was entered or left; the transition then names the host, both states and the evaluation
  moment.\<close>

theorem transition_iff_down_changes:
  assumes "evaluate_host config clock execute cc cl host (mem, db, w) = (Inr e, s')"
  shows "ev_transition e =
    (case mem host of
       None \<Rightarrow> None
     | Some p \<Rightarrow>
         if (rs_state p = DOWN) \<noteq> (rs_state (ev_resolution e) = DOWN)
         then Some \<lparr>tr_host = host, tr_from = rs_state p, tr_to = rs_state (ev_resolution e),
                    tr_at = ev_evaluated_at e\<rparr>
         else None)"
proof -
  obtain mem' db' w' where s': "s' = (mem', db', w')" by (metis prod_cases3)
  obtain cfg fresh rs reach where
    c: "conclude cfg host (ev_evaluated_at e) fresh rs reach (mem host) = Inr e"
    using evaluate_host_cases [OF assms [unfolded s']] by auto
  show ?thesis
    using conclude_facts(5) [OF c] by (auto simp: build_transition_def Let_def split: option.splits if_splits)
qed

definition dead_network :: "string \<times> int \<Rightarrow> pynum \<Rightarrow> (unit, unit) io" where
  "dead_network target timeout w = (Inl TimeoutError, w)"

definition steady_clock :: "(unit, pyvalue) io" where
  "steady_clock w = (Inr (PyDatetime (utc_datetime 1000)), w)"

lemma transition_iff_down_changes_witness:
  "\<exists>e. fst (evaluate_host sample_config steady_clock (\<lambda>w. (Inr (), w)) dead_network (\<lambda>_ w. (Inr (), w)) ''de''
      ([''de'' \<mapsto> \<lparr>rs_state = DEGRADED, rs_down_failures = 2, rs_recovery_successes = 0\<rparr>], empty_db, ())) = Inr e \<and>
    ev_transition e = Some \<lparr>tr_host = ''de'', tr_from = DEGRADED, tr_to = DOWN, tr_at = utc_datetime 1000\<rparr>"
proof -
  let ?mem = "[''de'' \<mapsto> \<lparr>rs_state = DEGRADED, rs_down_failures = 2, rs_recovery_successes = 0\<rparr>]"
  let ?e = "\<lparr>ev_host = ''de'', ev_evaluated_at = utc_datetime 1000,
      ev_freshness = \<lparr>fr_status = MISSING, fr_age_seconds = None\<rparr>, ev_resources = None,
      ev_reachability = UNREACHABLE,
      ev_resolution = \<lparr>rs_state = DOWN, rs_down_failures = 0, rs_recovery_successes = 0\<rparr>,
      ev_transition = Some \<lparr>tr_host = ''de'', tr_from = DEGRADED, tr_to = DOWN, tr_at = utc_datetime 1000\<rparr>\<rparr>"
  obtain s' where "evaluate_host sample_config steady_clock (\<lambda>w. (Inr (), w)) dead_network (\<lambda>_ w. (Inr (), w))
      ''de'' (?mem, empty_db, ()) = (Inr ?e, s')"
  proof -
    have "fst (evaluate_host sample_config steady_clock (\<lambda>w. (Inr (), w)) dead_network (\<lambda>_ w. (Inr (), w))
      ''de'' (?mem, empty_db, ())) = Inr ?e"
      by code_simp
    then show ?thesis using that by (metis prod.collapse)
  qed
  from transition_iff_down_changes [OF this] this show ?thesis by (intro exI [of _ ?e]) simp
qed

text \<open>C7: over any sequence of evaluations of any hosts, including ones that raise, started with
  an empty memory, the host is remembered as DOWN exactly when the observations of its own
  successful evaluations confirm it.\<close>

theorem engine_down_iff_confirmed:
  assumes "evaluate_all (evaluate_host config clock execute cc cl) hs (Map.empty, db, w) = (es, mem', db', w')"
    and "config_host (sc_hosts config) h = Some cfg"
    and "external_check_settings_post_init (hc_external cfg) = Inr ()"
  shows "is_down (mem' h) \<longleftrightarrow>
    confirmed_down (nat (ec_down_confirmations (hc_external cfg)))
      (nat (ec_recovery_confirmations (hc_external cfg))) lost_and_unreachable tcp_reachable
      (map observation_of (filter (\<lambda>e. ev_host e = h) es))"
proof -
  let ?obs = "map observation_of (filter (\<lambda>e. ev_host e = h) es)"
  have "mem' h = foldl (resolve_step (hc_external cfg)) None ?obs"
    using memory_is_resolver_run [OF assms(1,2)] by simp
  then show ?thesis
    using resolver.run_down_iff [of None "hc_external cfg" ?obs] assms(3) by simp
qed

lemma engine_down_iff_confirmed_witness:
  "\<exists>es mem' s'. evaluate_all (evaluate_host sample_config steady_clock (\<lambda>w. (Inr (), w)) dead_network
      (\<lambda>_ w. (Inr (), w))) [''de'', ''de'', ''de''] (Map.empty, empty_db, ()) = (es, mem', s') \<and>
    (is_down (mem' ''de'') \<longleftrightarrow> confirmed_down 3 2 lost_and_unreachable tcp_reachable
      (map observation_of (filter (\<lambda>e. ev_host e = ''de'') es)))"
proof -
  obtain es mem' db' w' where run: "evaluate_all (evaluate_host sample_config steady_clock (\<lambda>w. (Inr (), w))
      dead_network (\<lambda>_ w. (Inr (), w))) [''de'', ''de'', ''de''] (Map.empty, empty_db, ()) = (es, mem', db', w')"
    by (metis prod_cases4)
  obtain cfg where "config_host (sc_hosts sample_config) ''de'' = Some cfg"
    "hc_external cfg = default_external ''de.example'' 443"
    by (simp add: sample_config_def)
  moreover have "external_check_settings_post_init (default_external ''de.example'' 443) = Inr ()"
    by (simp add: default_external_def external_check_settings_post_init_def)
  ultimately show ?thesis
    using engine_down_iff_confirmed [OF run] run by (simp add: default_external_def)
qed

end
