(* ===== verification/Incidents.thy ===== *)
theory Incidents
  imports Domain
begin

text \<open>
  \<open>incidents.py\<close> and \<open>notifications.py\<close>: projecting confirmed transitions onto incidents and
  handing an incident to the injected sender exactly once.
\<close>

datatype incident_kind = DownIncident | RecoveredIncident

record incident =
  in_kind :: incident_kind
  in_transition :: host_transition

definition incident_post_init :: "incident \<Rightarrow> unit res" where
  "incident_post_init i =
     (if in_kind i = DownIncident then raise_if (\<not> is_down_event (in_transition i)) ValueError
      else raise_if (\<not> is_recovery_event (in_transition i)) ValueError)"

definition incident_host :: "incident \<Rightarrow> string" where
  "incident_host i = tr_host (in_transition i)"

definition incident_at :: "incident \<Rightarrow> datetime" where
  "incident_at i = tr_at (in_transition i)"

definition incident_from_state :: "incident \<Rightarrow> host_state" where
  "incident_from_state i = tr_from (in_transition i)"

definition incident_to_state :: "incident \<Rightarrow> host_state" where
  "incident_to_state i = tr_to (in_transition i)"

definition incident_from_transition :: "host_transition \<Rightarrow> incident option res" where
  "incident_from_transition t =
     (if is_down_event t then
        map_sum id Some (validated incident_post_init \<lparr>in_kind = DownIncident, in_transition = t\<rparr>)
      else if is_recovery_event t then
        map_sum id Some (validated incident_post_init \<lparr>in_kind = RecoveredIncident, in_transition = t\<rparr>)
      else Inr None)"

text \<open>\<open>NotificationCoordinator.notify_transition\<close> with its injected sender\<close>

definition notify_transition ::
  "(incident \<Rightarrow> ('w, unit) io) \<Rightarrow> host_transition option \<Rightarrow> ('w, incident option) io" where
  "notify_transition send transition =
     (case transition of
        None \<Rightarrow> return_io None
      | Some t \<Rightarrow>
          bind_io (lift_io (incident_from_transition t)) (\<lambda>mapped.
          case mapped of
            None \<Rightarrow> return_io None
          | Some i \<Rightarrow> bind_io (send i) (\<lambda>_. return_io (Some i))))"

lemma incident_from_transition_eq:
  "incident_from_transition t =
    Inr (if tr_to t = DOWN then Some \<lparr>in_kind = DownIncident, in_transition = t\<rparr>
         else if tr_from t = DOWN then Some \<lparr>in_kind = RecoveredIncident, in_transition = t\<rparr>
         else None)"
  by (auto simp: incident_from_transition_def incident_post_init_def validated_def raise_if_def
      is_down_event_def is_recovery_event_def)

section \<open>Properties\<close>

text \<open>The coordinator never raises by itself and calls the sender exactly once, and exactly for
  a transition into or out of DOWN; it reports the incident only when that call returned, and a
  failure of the sender escapes unchanged.\<close>

theorem notify_sends_exactly_the_incident:
  "notify_transition send transition w =
    (case transition of
       None \<Rightarrow> (Inr None, w)
     | Some t \<Rightarrow>
         if tr_to t \<noteq> DOWN \<and> tr_from t \<noteq> DOWN then (Inr None, w)
         else let i = \<lparr>in_kind = (if tr_to t = DOWN then DownIncident else RecoveredIncident),
                       in_transition = t\<rparr>
              in case send i w of (Inl e, w') \<Rightarrow> (Inl e, w') | (Inr _, w') \<Rightarrow> (Inr (Some i), w'))"
  by (auto simp: notify_transition_def incident_from_transition_eq bind_io_def Let_def
      split: option.splits prod.splits sum.splits)

end
