(* ===== verification/Monitoring.thy ===== *)
theory Monitoring
  imports Health_Engine Incidents
begin

text \<open>
  \<open>monitoring.py\<close>: one pass over the configured hosts, each evaluated once and its transition
  handed to the notification coordinator once.  The state is that of the engine; the sender is a
  parameter.
\<close>

record host_monitoring_result =
  mr_evaluation :: host_health_evaluation
  mr_incident :: "incident option"

text \<open>
  The loop of \<open>MonitoringCycle.run\<close> over the remaining hosts with the results collected so far;
  there is no handler, so the first exception ends the pass.
\<close>

fun monitor_hosts ::
  "(string \<Rightarrow> ('s, host_health_evaluation) io) \<Rightarrow> (host_transition option \<Rightarrow> ('s, incident option) io) \<Rightarrow>
    host_config list \<Rightarrow> host_monitoring_result list \<Rightarrow> ('s, host_monitoring_result list) io" where
  "monitor_hosts evaluate notify [] results s = (Inr results, s)"
| "monitor_hosts evaluate notify (h # hs) results s =
     (case evaluate (hc_name h) s of
        (Inl e, s') \<Rightarrow> (Inl e, s')
      | (Inr evaluation, s') \<Rightarrow>
          (case notify (ev_transition evaluation) s' of
             (Inl e, s'') \<Rightarrow> (Inl e, s'')
           | (Inr found, s'') \<Rightarrow>
               monitor_hosts evaluate notify hs
                 (results @ [\<lparr>mr_evaluation = evaluation, mr_incident = found\<rparr>]) s''))"

definition monitoring_run ::
  "sentinel_config \<Rightarrow> ('w, pyvalue) io \<Rightarrow> ('w, unit) io \<Rightarrow>
    (string \<times> int \<Rightarrow> pynum \<Rightarrow> ('w, 'c) io) \<Rightarrow> ('c \<Rightarrow> ('w, unit) io) \<Rightarrow> (incident \<Rightarrow> ('w, unit) io) \<Rightarrow>
    (resolutions \<times> heartbeat_db \<times> 'w, host_monitoring_result list) io" where
  "monitoring_run config clock execute create_connection close send =
     monitor_hosts (evaluate_host config clock execute create_connection close)
       (\<lambda>t. on_snd (on_snd (notify_transition send t))) (sc_hosts config) []"

section \<open>Facts\<close>

lemma notify_state [simp]:
  "on_snd (on_snd m) (mem, db, w) = (fst (m w), mem, db, snd (m w))"
  by simp

lemma notify_result:
  "fst (notify_transition send (Some t) w) = Inr x \<Longrightarrow> incident_from_transition t = Inr x"
  by (auto simp: notify_transition_def bind_io_split split: option.splits sum.splits)

lemma notify_None [simp]: "notify_transition send None w = (Inr None, w)"
  by (simp add: notify_transition_def)

text \<open>
  A pass that raises has completed a prefix of the hosts and failed at the next one, in its
  evaluation or in its notification; a pass that returns has completed them all.
\<close>

lemma monitor_hosts_app:
  "monitor_hosts evaluate notify (as @ bs) results s =
    (case monitor_hosts evaluate notify as results s of
       (Inl e, s') \<Rightarrow> (Inl e, s') | (Inr rs, s') \<Rightarrow> monitor_hosts evaluate notify bs rs s')"
  by (induction as arbitrary: results s) (auto split: prod.splits sum.splits)

lemma monitor_hosts_split:
  assumes "monitor_hosts evaluate notify hs results s = (Inl e, s')"
  shows "\<exists>before h later rs s1. hs = before @ h # later \<and>
    monitor_hosts evaluate notify before results s = (Inr rs, s1) \<and>
    (evaluate (hc_name h) s1 = (Inl e, s') \<or>
     (\<exists>ev s2. evaluate (hc_name h) s1 = (Inr ev, s2) \<and> notify (ev_transition ev) s2 = (Inl e, s')))"
  using assms
proof (induction hs arbitrary: results s)
  case (Cons h hs)
  obtain r1 s1 where e1: "evaluate (hc_name h) s = (r1, s1)" by (cases "evaluate (hc_name h) s")
  show ?case
  proof (cases r1)
    case (Inl x)
    then show ?thesis using Cons.prems e1 by (intro exI [of _ "[]"]) auto
  next
    case (Inr ev)
    obtain r2 s2 where e2: "notify (ev_transition ev) s1 = (r2, s2)"
      by (cases "notify (ev_transition ev) s1")
    show ?thesis
    proof (cases r2)
      case (Inl x)
      then show ?thesis using Cons.prems e1 Inr e2 by (intro exI [of _ "[]"]) auto
    next
      case found: (Inr i)
      let ?rs = "results @ [\<lparr>mr_evaluation = ev, mr_incident = i\<rparr>]"
      have "monitor_hosts evaluate notify hs ?rs s2 = (Inl e, s')"
        using Cons.prems e1 Inr e2 found by simp
      from Cons.IH [OF this] obtain before k later rs s1' where ih: "hs = before @ k # later"
        "monitor_hosts evaluate notify before ?rs s2 = (Inr rs, s1')"
        "evaluate (hc_name k) s1' = (Inl e, s') \<or>
         (\<exists>ev s2. evaluate (hc_name k) s1' = (Inr ev, s2) \<and> notify (ev_transition ev) s2 = (Inl e, s'))"
        by blast
      have "monitor_hosts evaluate notify (h # before) results s = (Inr rs, s1')"
        using ih(2) e1 Inr e2 found by simp
      with ih(1,3) show ?thesis by (metis append_Cons)
    qed
  qed
qed simp

text \<open>What one host contributes to a completed pass.\<close>

definition incident_of :: "host_health_evaluation \<Rightarrow> incident option" where
  "incident_of e =
     (case ev_transition e of None \<Rightarrow> None
      | Some t \<Rightarrow> (case incident_from_transition t of Inl _ \<Rightarrow> None | Inr i \<Rightarrow> i))"

definition host_served :: "host_config \<Rightarrow> host_monitoring_result \<Rightarrow> bool" where
  "host_served h r \<longleftrightarrow>
     ev_host (mr_evaluation r) = hc_name h \<and> mr_incident r = incident_of (mr_evaluation r)"

lemma monitor_hosts_success:
  assumes "monitor_hosts (evaluate_host config clock execute cc cl)
      (\<lambda>t. on_snd (on_snd (notify_transition send t))) hs results (mem, db, w) = (Inr rs, mem', db', w')"
  shows "db' = db \<and> (\<exists>new. rs = results @ new \<and> list_all2 host_served hs new \<and>
    mem' = mem ++ map_of (rev (map (\<lambda>r. (ev_host (mr_evaluation r), ev_resolution (mr_evaluation r))) new)))"
  using assms
proof (induction hs arbitrary: results mem db w)
  case (Cons h hs)
  obtain r1 mem1 db1 w1 where e1: "evaluate_host config clock execute cc cl (hc_name h) (mem, db, w) = (r1, mem1, db1, w1)"
    by (metis prod_cases4)
  obtain ev where ev: "r1 = Inr ev" using Cons.prems e1 by (cases r1) auto
  obtain r2 w2 where e2: "notify_transition send (ev_transition ev) w1 = (r2, w2)"
    by (cases "notify_transition send (ev_transition ev) w1")
  obtain i where i: "r2 = Inr i" using Cons.prems e1 ev e2 by (cases r2) auto
  let ?r = "\<lparr>mr_evaluation = ev, mr_incident = i\<rparr>"
  have inc: "i = incident_of ev"
  proof (cases "ev_transition ev")
    case None
    then show ?thesis using e2 i by (simp add: incident_of_def)
  next
    case (Some t)
    then have "incident_from_transition t = Inr i" using notify_result [of send t w1 i] e2 i by simp
    then show ?thesis using Some by (simp add: incident_of_def)
  qed
  from evaluate_host_cases [OF e1] ev have
    s1: "db1 = db" "mem1 = mem(hc_name h := Some (ev_resolution ev))" and served: "ev_host ev = hc_name h"
    using conclude_facts(1) by auto
  have "monitor_hosts (evaluate_host config clock execute cc cl)
      (\<lambda>t. on_snd (on_snd (notify_transition send t))) hs (results @ [?r]) (mem1, db1, w2) = (Inr rs, mem', db', w')"
    using Cons.prems e1 ev e2 i by simp
  from Cons.IH [OF this] obtain new where new: "db' = db1" "rs = (results @ [?r]) @ new" "list_all2 host_served hs new"
    "mem' = mem1 ++ map_of (rev (map (\<lambda>r. (ev_host (mr_evaluation r), ev_resolution (mr_evaluation r))) new))"
    by blast
  moreover have "host_served h ?r" using served inc by (simp add: host_served_def)
  ultimately show ?case
    using s1 served by (intro conjI exI [of _ "?r # new"]) simp_all
qed simp

definition remembered :: "host_monitoring_result list \<Rightarrow> resolutions" where
  "remembered rs =
     map_of (rev (map (\<lambda>r. (ev_host (mr_evaluation r), ev_resolution (mr_evaluation r))) rs))"

lemma dom_remembered: "dom (remembered rs) = (\<lambda>r. ev_host (mr_evaluation r)) ` set rs"
  by (force simp: remembered_def dom_map_of_conv_image_fst)

lemma served_hosts:
  "list_all2 host_served hs rs \<Longrightarrow>
    map (\<lambda>r. ev_host (mr_evaluation r)) rs = map hc_name hs \<and>
    (\<forall>r \<in> set rs. mr_incident r = incident_of (mr_evaluation r))"
  by (induction rule: list_all2_induct) (auto simp: host_served_def)

section \<open>Incidents of one host alternate\<close>

fun alternating :: "incident_kind \<Rightarrow> incident_kind list \<Rightarrow> bool" where
  "alternating k [] = True"
| "alternating k (x # xs) =
     (x = k \<and> alternating (if k = DownIncident then RecoveredIncident else DownIncident) xs)"

definition incident_kinds :: "string \<Rightarrow> host_health_evaluation list \<Rightarrow> incident_kind list" where
  "incident_kinds h es =
     map in_kind (List.map_filter incident_of (filter (\<lambda>e. ev_host e = h) es))"

lemma incident_kinds_Nil [simp]: "incident_kinds h [] = []"
  by (simp add: incident_kinds_def map_filter_simps)

lemma incident_kinds_Cons:
  "incident_kinds h (e # es) =
    (if ev_host e = h then (case incident_of e of None \<Rightarrow> [] | Some i \<Rightarrow> [in_kind i]) else []) @ incident_kinds h es"
  by (simp add: incident_kinds_def map_filter_simps split: option.splits)

definition next_kind :: "host_state_resolution \<Rightarrow> incident_kind" where
  "next_kind p = (if rs_state p = DOWN then RecoveredIncident else DownIncident)"

lemma incident_of_step:
  assumes "build_transition host (Some p) (ev_resolution e) now = Inr (ev_transition e)"
  shows "incident_of e = None \<and> next_kind (ev_resolution e) = next_kind p \<or>
    (\<exists>i. incident_of e = Some i \<and> in_kind i = next_kind p \<and> next_kind (ev_resolution e) \<noteq> next_kind p)"
  using assms
  by (auto simp: build_transition_def Let_def incident_of_def incident_from_transition_eq next_kind_def
      split: if_splits)

lemma kinds_alternate:
  assumes "evaluate_all (evaluate_host config clock execute cc cl) hs (mem, db, w) = (es, s')"
  shows "(\<forall>p. mem h = Some p \<longrightarrow> alternating (next_kind p) (incident_kinds h es)) \<and>
    (mem h = None \<longrightarrow> (\<exists>k. alternating k (incident_kinds h es)))"
  using assms
proof (induction hs arbitrary: mem db w es)
  case (Cons g hs)
  obtain res mem1 db1 w1 where step: "evaluate_host config clock execute cc cl g (mem, db, w) = (res, mem1, db1, w1)"
    by (metis prod_cases4)
  from evaluate_host_cases [OF step]
  show ?case
  proof (elim conjE disjE exE)
    fix e assume "res = Inl e" "mem1 = mem"
    then show ?thesis using Cons step by simp
  next
    fix ev cfg fresh rs reach
    assume ev: "res = Inr ev" "mem1 = mem(g := Some (ev_resolution ev))"
      "conclude cfg g (ev_evaluated_at ev) fresh rs reach (mem g) = Inr ev"
    obtain es1 where es: "es = ev # es1"
      "evaluate_all (evaluate_host config clock execute cc cl) hs (mem1, db1, w1) = (es1, s')"
      using Cons.prems step ev(1) by (auto split: prod.splits)
    note c = conclude_facts [OF ev(3)]
    note IH = Cons.IH [OF es(2)]
    show ?thesis
    proof (cases "g = h")
      case False
      then show ?thesis using IH es(1) ev(2) c(1) by (simp add: incident_kinds_Cons)
    next
      case True
      then have rest: "alternating (next_kind (ev_resolution ev)) (incident_kinds h es1)"
        using IH ev(2) by simp
      show ?thesis
      proof (cases "mem h")
        case None
        then have "ev_transition ev = None" using c(5) True by (simp add: build_transition_def)
        then have "incident_of ev = None" by (simp add: incident_of_def)
        then show ?thesis using rest None es(1) by (auto simp: incident_kinds_Cons)
      next
        case (Some p)
        then show ?thesis
          using incident_of_step [of h p ev "ev_evaluated_at ev"] c(1,5) True rest es(1)
          by (auto simp: incident_kinds_Cons next_kind_def split: if_splits)
      qed
    qed
  qed
qed auto

section \<open>Properties\<close>

text \<open>A monitoring pass that returns has evaluated every configured host exactly once, in the
  configured order, and pairs each evaluation with exactly the incident of its transition; the
  memory then holds each host's new resolution and the database is unchanged.\<close>

theorem completed_pass_serves_every_host:
  assumes "monitoring_run config clock execute cc cl send (mem, db, w) = (Inr rs, mem', db', w')"
  shows "map (\<lambda>r. ev_host (mr_evaluation r)) rs = map hc_name (sc_hosts config) \<and>
    (\<forall>r \<in> set rs. mr_incident r = incident_of (mr_evaluation r)) \<and> db' = db \<and>
    mem' = mem ++ remembered rs"
proof -
  obtain new where "rs = new" "list_all2 host_served (sc_hosts config) new" "db' = db"
    "mem' = mem ++ remembered new"
    using monitor_hosts_success [OF assms [unfolded monitoring_run_def]] by (auto simp: remembered_def)
  then show ?thesis using served_hosts by blast
qed

definition quiet_sender :: "incident \<Rightarrow> (unit, unit) io" where
  "quiet_sender i w = (Inr (), w)"

abbreviation sample_pass :: "(unit, pyvalue) io \<Rightarrow> (resolutions \<times> heartbeat_db \<times> unit, host_monitoring_result list) io" where
  "sample_pass clock \<equiv> monitoring_run sample_config clock (\<lambda>w. (Inr (), w)) dead_network
     (\<lambda>_ w. (Inr (), w)) quiet_sender"

lemma completed_pass_serves_every_host_witness:
  "\<exists>rs mem' db' w'. sample_pass steady_clock (Map.empty, empty_db, ()) = (Inr rs, mem', db', w') \<and>
    map (\<lambda>r. ev_host (mr_evaluation r)) rs = [''de''] \<and> mem' = Map.empty ++ remembered rs"
proof -
  have "\<not> isl (fst (sample_pass steady_clock (Map.empty, empty_db, ())))" by code_simp
  then obtain rs mem' db' w' where run: "sample_pass steady_clock (Map.empty, empty_db, ()) = (Inr rs, mem', db', w')"
    by (metis isl_def sum.exhaust prod.collapse fst_conv)
  from completed_pass_serves_every_host [OF run] run show ?thesis
    by (simp add: sample_config_def)
qed



text \<open>C31: the incidents of one host alternate between DOWN and RECOVERED over any sequence of
  evaluations, whatever other hosts are evaluated in between and whatever evaluations fail; after
  a remembered resolution the first one is RECOVERED exactly when the host was DOWN.\<close>

theorem incidents_alternate:
  assumes "evaluate_all (evaluate_host config clock execute cc cl) hs (mem, db, w) = (es, s')"
  shows "case mem h of
      Some p \<Rightarrow> alternating (if rs_state p = DOWN then RecoveredIncident else DownIncident) (incident_kinds h es)
    | None \<Rightarrow> \<exists>k. alternating k (incident_kinds h es)"
  using kinds_alternate [OF assms, of h] by (auto simp: next_kind_def split: option.splits)

lemma incidents_alternate_witness:
  "\<exists>es s'. evaluate_all (evaluate_host sample_config steady_clock (\<lambda>w. (Inr (), w)) dead_network
      (\<lambda>_ w. (Inr (), w))) [''de'', ''de''] (Map.empty, empty_db, ()) = (es, s') \<and>
    (\<exists>k. alternating k (incident_kinds ''de'' es))"
proof -
  obtain es s' where run: "evaluate_all (evaluate_host sample_config steady_clock (\<lambda>w. (Inr (), w))
      dead_network (\<lambda>_ w. (Inr (), w))) [''de'', ''de''] (Map.empty, empty_db, ()) = (es, s')"
    by (metis prod.collapse)
  have "\<exists>k. alternating k (incident_kinds ''de'' es)"
    using incidents_alternate [OF run, of "''de''"] by simp
  with run show ?thesis by blast
qed

end
