(* ===== verification/Deadman.thy ===== *)
theory Deadman
  imports Py_Iso Py_Text Debounce
begin

text \<open>
  \<open>deadman.py\<close> up to the codec: probe classification, the debounced dead-man state with its durable
  queue of notification intents, and acknowledgement.  A frozen dataclass is a record with its
  \<open>__post_init__\<close> as a check; \<open>replace\<close> rebuilds a status through that check.  The
  \<open>isinstance\<close> guards of the source hold by the types of the model.
\<close>

section \<open>Probe classification\<close>

datatype probe_outcome = ProbeHealthy | ProbeFailed

record probe_response =
  pr_status :: int
  pr_allow_headers :: "string list"
  pr_body :: string

definition probe_response_post_init :: "probe_response \<Rightarrow> unit res" where
  "probe_response_post_init r =
     raise_if (\<not> (100 \<le> pr_status r \<and> pr_status r \<le> 599)) ValueError"

text \<open>\<open>token.strip(" \t")\<close>\<close>

definition strip_blanks :: "string \<Rightarrow> string" where
  "strip_blanks s =
     (let blank = (\<lambda>c. c = CHR '' '' \<or> c = CHR 0x09)
      in rev (dropWhile blank (rev (dropWhile blank s))))"

definition healthy_status :: int where [simp]: "healthy_status = 405"

definition required_allowed_method :: string where [simp]: "required_allowed_method = ''POST''"

definition post_is_allowed :: "string list \<Rightarrow> bool" where
  "post_is_allowed allow_headers \<longleftrightarrow>
     required_allowed_method \<in> set (filter (\<lambda>m. m \<noteq> [])
       (concat (map (\<lambda>v. map strip_blanks (split_on (CHR '','') v)) allow_headers)))"

definition classify_deadman_probe :: "probe_response \<Rightarrow> probe_outcome" where
  "classify_deadman_probe r =
     (if pr_status r = healthy_status \<and> post_is_allowed (pr_allow_headers r) \<and> pr_body r = []
      then ProbeHealthy else ProbeFailed)"

section \<open>Data\<close>

definition down_confirmations :: int where "down_confirmations = 3"
definition recovery_confirmations :: int where "recovery_confirmations = 2"

datatype deadman_state = DmUnknown | DmUp | DmDown

datatype dm_kind = DmDownKind | DmRecoveredKind

record dm_transition =
  dt_from :: deadman_state
  dt_to :: deadman_state
  dt_at :: datetime

definition canonical_transitions :: "(deadman_state \<times> deadman_state) list" where
  "canonical_transitions = [(DmUnknown, DmDown), (DmUp, DmDown), (DmDown, DmUp)]"

definition dm_require_aware :: "datetime \<Rightarrow> unit res" where
  "dm_require_aware d = raise_if (tz d = NoTzinfo \<or> utcoffset (tz d) = None) ValueError"

definition require_counter :: "int \<Rightarrow> unit res" where
  "require_counter v = raise_if (v < 0) ValueError"

definition require_notification_id :: "int \<Rightarrow> unit res" where
  "require_notification_id v = raise_if (v < 1) ValueError"

definition transition_post_init :: "dm_transition \<Rightarrow> unit res" where
  "transition_post_init t =
     in_order [raise_if ((dt_from t, dt_to t) \<notin> set canonical_transitions) ValueError,
               dm_require_aware (dt_at t)]"

definition dt_is_down_event :: "dm_transition \<Rightarrow> bool" where
  "dt_is_down_event t \<longleftrightarrow> dt_to t = DmDown"

definition dt_is_recovery_event :: "dm_transition \<Rightarrow> bool" where
  "dt_is_recovery_event t \<longleftrightarrow> dt_from t = DmDown \<and> dt_to t = DmUp"

record dm_notification =
  dn_id :: int
  dn_kind :: dm_kind
  dn_transition :: dm_transition

definition notification_post_init :: "dm_notification \<Rightarrow> unit res" where
  "notification_post_init n =
     in_order
       [require_notification_id (dn_id n),
        if dn_kind n = DmDownKind then raise_if (\<not> dt_is_down_event (dn_transition n)) ValueError
        else raise_if (\<not> dt_is_recovery_event (dn_transition n)) ValueError,
        raise_if (dn_kind n = DmRecoveredKind \<and> dn_id n = 1) ValueError]"

definition dn_at :: "dm_notification \<Rightarrow> datetime" where [simp]: "dn_at n = dt_at (dn_transition n)"

definition dn_from_state :: "dm_notification \<Rightarrow> deadman_state" where [simp]: "dn_from_state n = dt_from (dn_transition n)"

definition dn_to_state :: "dm_notification \<Rightarrow> deadman_state" where [simp]: "dn_to_state n = dt_to (dn_transition n)"

record dm_current_down =
  cd_id :: int
  cd_acknowledged :: bool

definition current_down_post_init :: "dm_current_down \<Rightarrow> unit res" where
  "current_down_post_init c = require_notification_id (cd_id c)"

record dm_status =
  ds_state :: deadman_state
  ds_failures :: int
  ds_successes :: int
  ds_changed_at :: "datetime option"
  ds_pending :: "dm_notification list"
  ds_next_id :: int
  ds_current :: "dm_current_down option"

section \<open>The status invariant, as the constructor checks it\<close>

fun strictly_increasing :: "int list \<Rightarrow> bool" where
  "strictly_increasing (a # b # cs) = (a < b \<and> strictly_increasing (b # cs))"
| "strictly_increasing _ = True"

definition streaks_check :: "dm_status \<Rightarrow> unit res" where
  "streaks_check s =
     in_order
       (require_counter (ds_failures s) # require_counter (ds_successes s) #
        (if ds_state s = DmDown then
           [raise_if (ds_failures s \<noteq> 0) ValueError,
            raise_if (recovery_confirmations \<le> ds_successes s) ValueError]
         else
           [raise_if (ds_successes s \<noteq> 0) ValueError,
            raise_if (down_confirmations \<le> ds_failures s) ValueError]))"

definition ledger_check :: "dm_status \<Rightarrow> unit res" where
  "ledger_check s =
     (let ids = map dn_id (ds_pending s) in
      in_order
        [raise_if (\<not> strictly_increasing ids) ValueError,
         require_notification_id (ds_next_id s),
         if ds_pending s \<noteq> [] then
           in_order [raise_if (last ids \<noteq> ds_next_id s - 1) ValueError,
                     raise_if (hd ids \<noteq> last ids - int (length ids) + 1) ValueError]
         else Inr (),
         raise_if (\<exists>n \<in> set (tl (ds_pending s)). dn_kind n = DmRecoveredKind) ValueError])"

definition anchor_check :: "dm_status \<Rightarrow> unit res" where
  "anchor_check s =
     in_order
       ((case ds_changed_at s of
           Some anchor \<Rightarrow>
             in_order [dm_require_aware anchor,
                       raise_if (\<exists>n \<in> set (ds_pending s). instant anchor < instant (dt_at (dn_transition n)))
                         ValueError]
         | None \<Rightarrow> raise_if (ds_state s \<noteq> DmUnknown) ValueError) #
        (if ds_state s = DmUnknown then
           [raise_if (ds_changed_at s \<noteq> None) ValueError, raise_if (ds_pending s \<noteq> []) ValueError,
            raise_if (ds_next_id s \<noteq> 1) ValueError]
         else []))"

definition binding_check :: "dm_status \<Rightarrow> unit res" where
  "binding_check s =
     (if ds_state s \<noteq> DmDown then raise_if (ds_current s \<noteq> None) ValueError
      else case ds_current s of
        None \<Rightarrow> Inl ValueError
      | Some current \<Rightarrow>
          if cd_id current \<noteq> ds_next_id s - 1 then Inl ValueError
          else if cd_acknowledged current then raise_if (ds_pending s \<noteq> []) ValueError
          else if ds_pending s = [] then Inl ValueError
          else let tail = last (ds_pending s) in
            in_order
              [raise_if (dn_id tail \<noteq> cd_id current) ValueError,
               raise_if (dn_kind tail \<noteq> DmDownKind) ValueError,
               case ds_changed_at s of None \<Rightarrow> Inl ValueError
               | Some anchor \<Rightarrow> raise_if (instant (dt_at (dn_transition tail)) \<noteq> instant anchor) ValueError])"

definition status_post_init :: "dm_status \<Rightarrow> unit res" where
  "status_post_init s = in_order [streaks_check s, ledger_check s, anchor_check s, binding_check s]"

section \<open>Operations\<close>

definition initial_status :: dm_status where
  "initial_status =
     \<lparr>ds_state = DmUnknown, ds_failures = 0, ds_successes = 0, ds_changed_at = None,
      ds_pending = [], ds_next_id = 1, ds_current = None\<rparr>"

definition new_notification :: "int \<Rightarrow> dm_kind \<Rightarrow> deadman_state \<Rightarrow> deadman_state \<Rightarrow> datetime \<Rightarrow> dm_notification res" where
  "new_notification i k f t now =
     bind_res (validated transition_post_init \<lparr>dt_from = f, dt_to = t, dt_at = now\<rparr>) (\<lambda>tr.
       validated notification_post_init \<lparr>dn_id = i, dn_kind = k, dn_transition = tr\<rparr>)"

definition advance_success :: "dm_status \<Rightarrow> datetime \<Rightarrow> dm_status res" where
  "advance_success s now =
     (if ds_state s = DmUnknown then
        validated status_post_init
          (s\<lparr>ds_state := DmUp, ds_failures := 0, ds_successes := 0, ds_changed_at := Some now\<rparr>)
      else if ds_state s = DmUp then
        validated status_post_init (s\<lparr>ds_failures := 0, ds_successes := 0\<rparr>)
      else
        let successes = ds_successes s + 1 in
        if successes < recovery_confirmations then
          validated status_post_init (s\<lparr>ds_failures := 0, ds_successes := successes\<rparr>)
        else case ds_current s of
          None \<Rightarrow> Inl AssertionError
        | Some current \<Rightarrow>
            if \<not> cd_acknowledged current then
              validated status_post_init
                \<lparr>ds_state = DmUp, ds_failures = 0, ds_successes = 0, ds_changed_at = Some now,
                 ds_pending = ds_pending s, ds_next_id = ds_next_id s, ds_current = None\<rparr>
            else
              bind_res (new_notification (ds_next_id s) DmRecoveredKind DmDown DmUp now) (\<lambda>recovered.
                validated status_post_init
                  \<lparr>ds_state = DmUp, ds_failures = 0, ds_successes = 0, ds_changed_at = Some now,
                   ds_pending = ds_pending s @ [recovered], ds_next_id = ds_next_id s + 1,
                   ds_current = None\<rparr>))"

definition advance_failure :: "dm_status \<Rightarrow> datetime \<Rightarrow> dm_status res" where
  "advance_failure s now =
     (if ds_state s = DmDown then
        validated status_post_init (s\<lparr>ds_failures := 0, ds_successes := 0\<rparr>)
      else
        let failures = ds_failures s + 1 in
        if failures < down_confirmations then
          validated status_post_init (s\<lparr>ds_failures := failures, ds_successes := 0\<rparr>)
        else
          bind_res (new_notification (ds_next_id s) DmDownKind (ds_state s) DmDown now) (\<lambda>intent.
          bind_res (validated current_down_post_init \<lparr>cd_id = ds_next_id s, cd_acknowledged = False\<rparr>) (\<lambda>current.
            validated status_post_init
              \<lparr>ds_state = DmDown, ds_failures = 0, ds_successes = 0, ds_changed_at = Some now,
               ds_pending = ds_pending s @ [intent], ds_next_id = ds_next_id s + 1,
               ds_current = Some current\<rparr>)))"

definition advance_deadman_status :: "dm_status \<Rightarrow> probe_outcome \<Rightarrow> datetime \<Rightarrow> dm_status res" where
  "advance_deadman_status s outcome now =
     bind_res (dm_require_aware now) (\<lambda>_.
       if (case ds_changed_at s of None \<Rightarrow> False | Some anchor \<Rightarrow> instant now < instant anchor)
       then Inl ValueError
       else if outcome = ProbeHealthy then advance_success s now else advance_failure s now)"

definition acknowledge_deadman_notification :: "dm_status \<Rightarrow> int \<Rightarrow> dm_status res" where
  "acknowledge_deadman_notification s i =
     bind_res (require_notification_id i) (\<lambda>_.
       case ds_pending s of
         [] \<Rightarrow> Inl ValueError
       | head # rest \<Rightarrow>
           if i \<noteq> dn_id head then Inl ValueError
           else bind_res
             (case ds_current s of
                None \<Rightarrow> Inr None
              | Some current \<Rightarrow>
                  if cd_id current = i
                  then map_sum id Some (validated current_down_post_init (current\<lparr>cd_acknowledged := True\<rparr>))
                  else Inr (Some current)) (\<lambda>marked.
               validated status_post_init (s\<lparr>ds_pending := rest, ds_current := marked\<rparr>)))"

section \<open>The invariant in closed form\<close>

text \<open>The pending ids are exactly the last ids allocated.\<close>

lemma strictly_increasing_ge:
  "strictly_increasing (a # xs) \<Longrightarrow> a + int (length xs) \<le> last (a # xs)"
  by (induction xs arbitrary: a) fastforce+

lemma strictly_increasing_Cons:
  "strictly_increasing (a # xs) \<longleftrightarrow> (xs = [] \<or> a < hd xs) \<and> strictly_increasing xs"
  by (cases xs) auto

lemma hd_upto: "i \<le> j \<Longrightarrow> hd [i..j] = (i::int)"
  by (simp add: upto_rec1)

lemma last_upto: "i \<le> j \<Longrightarrow> last [i..j] = (j::int)"
  by (simp add: upto_rec2)

lemma strictly_increasing_upto: "strictly_increasing [i..j]"
proof (induction "nat (j + 1 - i)" arbitrary: i)
  case (Suc n)
  then have "strictly_increasing [i + 1..j]" "[i..j] = i # [i + 1..j]" by (simp_all add: upto_rec1)
  then show ?case
    by (cases "i + 1 \<le> j") (simp_all add: strictly_increasing_Cons hd_upto)
qed simp

lemma contiguous_ids:
  assumes "ids \<noteq> []" "strictly_increasing ids" "hd ids = last ids - int (length ids) + 1"
  shows "ids = [hd ids..last ids]"
  using assms
proof (induction ids)
  case (Cons a xs)
  show ?case
  proof (cases "xs = []")
    case False
    then have inc: "a < hd xs" "strictly_increasing xs"
      using Cons.prems(2) by (simp_all add: strictly_increasing_Cons)
    have "hd xs + int (length xs) - 1 \<le> last xs"
      using strictly_increasing_ge [of "hd xs" "tl xs"] inc(2) False by simp
    then have h: "hd xs = last xs - int (length xs) + 1" and ab: "hd xs = a + 1"
      using Cons.prems(3) inc(1) False by auto
    have "xs = [a + 1..last xs]" using Cons.IH [OF False inc(2) h] ab by simp
    moreover have "a \<le> last xs" using h ab False by (cases xs) auto
    ultimately have "a # xs = [a..last xs]" by (metis upto_rec1)
    moreover have "last (a # xs) = last xs" using False by simp
    ultimately show ?thesis by (metis list.sel(1))
  qed simp
qed simp

lemma ledger_ids_iff:
  "(strictly_increasing ids \<and> (ids \<noteq> [] \<longrightarrow> last ids = m - 1 \<and> hd ids = last ids - int (length ids) + 1)) \<longleftrightarrow>
    ids = [m - int (length ids)..m - 1]"
proof (cases "ids = []")
  case False
  show ?thesis
  proof
    assume a: "strictly_increasing ids \<and> (ids \<noteq> [] \<longrightarrow> last ids = m - 1 \<and> hd ids = last ids - int (length ids) + 1)"
    then have "last ids = m - 1" "hd ids = m - int (length ids)" using False by auto
    then show "ids = [m - int (length ids)..m - 1]"
      using contiguous_ids [OF False] a False by metis
  next
    assume e: "ids = [m - int (length ids)..m - 1]"
    have "0 < length ids" using False by simp
    then have le: "m - int (length ids) \<le> m - 1" by linarith
    have "last ids = m - 1" "hd ids = m - int (length ids)"
      by (subst e, simp add: last_upto [OF le], subst e, simp add: hd_upto [OF le])
    moreover have "strictly_increasing ids" by (subst e, rule strictly_increasing_upto)
    ultimately show "strictly_increasing ids \<and> (ids \<noteq> [] \<longrightarrow> last ids = m - 1 \<and> hd ids = last ids - int (length ids) + 1)"
      by simp
  qed
qed simp

definition dated_by :: "datetime option \<Rightarrow> dm_notification list \<Rightarrow> bool" where
  "dated_by anchor pending \<longleftrightarrow>
     (\<forall>a. anchor = Some a \<longrightarrow> aware a \<and> (\<forall>n \<in> set pending. instant (dt_at (dn_transition n)) \<le> instant a))"

definition bound_down :: "dm_status \<Rightarrow> bool" where
  "bound_down s \<longleftrightarrow>
     (\<exists>c a. ds_current s = Some c \<and> cd_id c = ds_next_id s - 1 \<and> ds_changed_at s = Some a \<and>
       (if cd_acknowledged c then ds_pending s = []
        else ds_pending s \<noteq> [] \<and> dn_kind (last (ds_pending s)) = DmDownKind \<and>
          instant (dt_at (dn_transition (last (ds_pending s)))) = instant a))"

definition queue_ids :: "dm_status \<Rightarrow> bool" where
  "queue_ids s \<longleftrightarrow> map dn_id (ds_pending s) = [ds_next_id s - int (length (ds_pending s))..ds_next_id s - 1]"

lemma dm_require_aware_eq_Inr [simp]: "dm_require_aware d = Inr u \<longleftrightarrow> aware d"
  by (auto simp: dm_require_aware_def aware_def)

lemma require_counter_eq_Inr [simp]: "require_counter v = Inr u \<longleftrightarrow> 0 \<le> v"
  by (auto simp: require_counter_def)

lemma require_notification_id_eq_Inr [simp]: "require_notification_id v = Inr u \<longleftrightarrow> 1 \<le> v"
  by (auto simp: require_notification_id_def)

lemma streaks_check_eq_Inr:
  "streaks_check s = Inr () \<longleftrightarrow> 0 \<le> ds_failures s \<and> 0 \<le> ds_successes s \<and>
    (if ds_state s = DmDown then ds_failures s = 0 \<and> ds_successes s < 2
     else ds_successes s = 0 \<and> ds_failures s < 3)"
  by (auto simp: streaks_check_def recovery_confirmations_def down_confirmations_def)

lemma ledger_check_eq_Inr:
  "ledger_check s = Inr () \<longleftrightarrow> queue_ids s \<and> 1 \<le> ds_next_id s \<and>
    (\<forall>n \<in> set (tl (ds_pending s)). dn_kind n \<noteq> DmRecoveredKind)"
proof -
  have "ledger_check s = Inr () \<longleftrightarrow>
    (strictly_increasing (map dn_id (ds_pending s)) \<and>
      (map dn_id (ds_pending s) \<noteq> [] \<longrightarrow> last (map dn_id (ds_pending s)) = ds_next_id s - 1 \<and>
        hd (map dn_id (ds_pending s)) = last (map dn_id (ds_pending s)) - int (length (map dn_id (ds_pending s))) + 1)) \<and>
    1 \<le> ds_next_id s \<and> (\<forall>n \<in> set (tl (ds_pending s)). dn_kind n \<noteq> DmRecoveredKind)"
    by (auto simp: ledger_check_def Let_def)
  also note ledger_ids_iff [of "map dn_id (ds_pending s)" "ds_next_id s"]
  finally show ?thesis by (simp add: queue_ids_def)
qed

lemma anchor_check_eq_Inr:
  "anchor_check s = Inr () \<longleftrightarrow> dated_by (ds_changed_at s) (ds_pending s) \<and>
    (ds_changed_at s = None \<longleftrightarrow> ds_state s = DmUnknown) \<and>
    (ds_state s = DmUnknown \<longrightarrow> ds_pending s = [] \<and> ds_next_id s = 1)"
  by (cases "ds_changed_at s") (auto simp: anchor_check_def dated_by_def not_less)

lemma queue_ids_last:
  assumes "queue_ids s" "ds_pending s \<noteq> []"
  shows "dn_id (last (ds_pending s)) = ds_next_id s - 1"
proof -
  have "ds_next_id s - int (length (ds_pending s)) \<le> ds_next_id s - 1"
    using assms(2) by (cases "ds_pending s") auto
  then have "last (map dn_id (ds_pending s)) = ds_next_id s - 1"
    using assms(1) last_upto by (simp add: queue_ids_def)
  then show ?thesis using assms(2) by (simp add: last_map)
qed

lemma queue_ids_head:
  assumes "queue_ids s" "ds_pending s = n # ns"
  shows "dn_id n = ds_next_id s - int (length (ds_pending s))"
proof -
  have "hd (map dn_id (ds_pending s)) = ds_next_id s - int (length (ds_pending s))"
    using assms hd_upto by (simp add: queue_ids_def)
  then show ?thesis using assms(2) by simp
qed

lemma binding_check_eq_Inr:
  "queue_ids s \<Longrightarrow> binding_check s = Inr () \<longleftrightarrow>
    (if ds_state s = DmDown then bound_down s \<or>
       (\<exists>c. ds_changed_at s = None \<and> ds_current s = Some c \<and> cd_id c = ds_next_id s - 1 \<and>
          cd_acknowledged c \<and> ds_pending s = [])
     else ds_current s = None)"
  using queue_ids_last [of s]
  by (auto simp: binding_check_def bound_down_def Let_def split: option.splits)

lemma status_post_init_eq_Inr:
  "status_post_init s = Inr () \<longleftrightarrow>
    0 \<le> ds_failures s \<and> 0 \<le> ds_successes s \<and>
    (if ds_state s = DmDown then ds_failures s = 0 \<and> ds_successes s < 2
     else ds_successes s = 0 \<and> ds_failures s < 3) \<and>
    queue_ids s \<and> 1 \<le> ds_next_id s \<and> (\<forall>n \<in> set (tl (ds_pending s)). dn_kind n \<noteq> DmRecoveredKind) \<and>
    dated_by (ds_changed_at s) (ds_pending s) \<and> (ds_changed_at s = None \<longleftrightarrow> ds_state s = DmUnknown) \<and>
    (ds_state s = DmUnknown \<longrightarrow> ds_pending s = [] \<and> ds_next_id s = 1) \<and>
    (if ds_state s = DmDown then bound_down s else ds_current s = None)"
proof -
  have "status_post_init s = Inr () \<longleftrightarrow> streaks_check s = Inr () \<and> ledger_check s = Inr () \<and>
      anchor_check s = Inr () \<and> binding_check s = Inr ()"
    by (auto simp: status_post_init_def)
  then show ?thesis
    unfolding streaks_check_eq_Inr ledger_check_eq_Inr anchor_check_eq_Inr
    using binding_check_eq_Inr [of s] by auto
qed

text \<open>Every object a status holds passed its own constructor.\<close>

definition notification_ok :: "dm_notification \<Rightarrow> bool" where
  "notification_ok n \<longleftrightarrow>
     notification_post_init n = Inr () \<and> transition_post_init (dn_transition n) = Inr ()"

definition status_ok :: "dm_status \<Rightarrow> bool" where
  "status_ok s \<longleftrightarrow> status_post_init s = Inr () \<and> (\<forall>n \<in> set (ds_pending s). notification_ok n) \<and>
     (\<forall>c. ds_current s = Some c \<longrightarrow> current_down_post_init c = Inr ())"

lemma initial_status_ok: "status_ok initial_status"
  by (simp add: status_ok_def status_post_init_eq_Inr initial_status_def queue_ids_def dated_by_def)

section \<open>One probe\<close>

text \<open>The evaluation moment is aware and not before the state's anchor.\<close>

definition on_time :: "dm_status \<Rightarrow> datetime \<Rightarrow> bool" where
  "on_time s now \<longleftrightarrow> aware now \<and> (\<forall>a. ds_changed_at s = Some a \<longrightarrow> instant a \<le> instant now)"

text \<open>The intended effect of one probe, free of checks.\<close>

definition intent :: "dm_status \<Rightarrow> dm_kind \<Rightarrow> deadman_state \<Rightarrow> deadman_state \<Rightarrow> datetime \<Rightarrow> dm_notification" where
  "intent s k f t now =
     \<lparr>dn_id = ds_next_id s, dn_kind = k, dn_transition = \<lparr>dt_from = f, dt_to = t, dt_at = now\<rparr>\<rparr>"

definition acknowledged :: "dm_status \<Rightarrow> bool" where
  "acknowledged s = (case ds_current s of None \<Rightarrow> False | Some c \<Rightarrow> cd_acknowledged c)"

lemma acknowledged_iff: "acknowledged s \<longleftrightarrow> (\<exists>c. ds_current s = Some c \<and> cd_acknowledged c)"
  by (simp add: acknowledged_def split: option.splits)

definition recovered :: "dm_status \<Rightarrow> datetime \<Rightarrow> dm_status" where
  "recovered s now =
     \<lparr>ds_state = DmUp, ds_failures = 0, ds_successes = 0, ds_changed_at = Some now,
      ds_pending = ds_pending s @ (if acknowledged s then [intent s DmRecoveredKind DmDown DmUp now] else []),
      ds_next_id = ds_next_id s + (if acknowledged s then 1 else 0), ds_current = None\<rparr>"

definition failed_over :: "dm_status \<Rightarrow> datetime \<Rightarrow> dm_status" where
  "failed_over s now =
     \<lparr>ds_state = DmDown, ds_failures = 0, ds_successes = 0, ds_changed_at = Some now,
      ds_pending = ds_pending s @ [intent s DmDownKind (ds_state s) DmDown now],
      ds_next_id = ds_next_id s + 1, ds_current = Some \<lparr>cd_id = ds_next_id s, cd_acknowledged = False\<rparr>\<rparr>"

definition advanced :: "dm_status \<Rightarrow> probe_outcome \<Rightarrow> datetime \<Rightarrow> dm_status" where
  "advanced s outcome now =
     (if outcome = ProbeHealthy then
        (case ds_state s of
           DmUnknown \<Rightarrow> s\<lparr>ds_state := DmUp, ds_failures := 0, ds_successes := 0, ds_changed_at := Some now\<rparr>
         | DmUp \<Rightarrow> s\<lparr>ds_failures := 0, ds_successes := 0\<rparr>
         | DmDown \<Rightarrow>
             if ds_successes s = 0 then s\<lparr>ds_failures := 0, ds_successes := 1\<rparr> else recovered s now)
      else
        (if ds_state s = DmDown then s\<lparr>ds_failures := 0, ds_successes := 0\<rparr>
         else if ds_failures s < 2 then s\<lparr>ds_failures := ds_failures s + 1, ds_successes := 0\<rparr>
         else failed_over s now))"

lemma queue_ids_snoc:
  assumes "queue_ids s" "ds_pending s' = ds_pending s @ [n]" "dn_id n = ds_next_id s"
    "ds_next_id s' = ds_next_id s + 1"
  shows "queue_ids s'"
proof -
  let ?k = "int (length (ds_pending s))"
  have "[ds_next_id s - ?k..ds_next_id s] = [ds_next_id s - ?k..ds_next_id s - 1] @ [ds_next_id s]"
    by (rule upto_rec2) simp
  then show ?thesis using assms by (simp add: queue_ids_def)
qed

lemma queue_ids_cong:
  "queue_ids s \<Longrightarrow> ds_pending s' = ds_pending s \<Longrightarrow> ds_next_id s' = ds_next_id s \<Longrightarrow> queue_ids s'"
  by (simp add: queue_ids_def)

lemma dated_by_later:
  "dated_by (ds_changed_at s) (ds_pending s) \<Longrightarrow> on_time s now \<Longrightarrow>
    (ds_changed_at s = None \<longrightarrow> ds_pending s = []) \<Longrightarrow> dated_by (Some now) (ds_pending s)"
  by (cases "ds_changed_at s") (auto simp: dated_by_def on_time_def)

lemma new_notification_eq:
  assumes "aware now" "1 \<le> ds_next_id s"
    and "k = DmDownKind \<and> f \<noteq> DmDown \<and> t = DmDown \<or> k = DmRecoveredKind \<and> f = DmDown \<and> t = DmUp \<and> ds_next_id s \<noteq> 1"
  shows "new_notification (ds_next_id s) k f t now = Inr (intent s k f t now) \<and>
    notification_ok (intent s k f t now)"
  using assms
  by (cases f)
    (auto simp: new_notification_def intent_def notification_ok_def notification_post_init_def
      transition_post_init_def canonical_transitions_def dt_is_down_event_def dt_is_recovery_event_def)

lemma status_okD:
  assumes "status_ok s"
  shows "0 \<le> ds_failures s" "0 \<le> ds_successes s"
    "ds_state s = DmDown \<Longrightarrow> ds_failures s = 0 \<and> ds_successes s < 2 \<and> bound_down s \<and> 2 \<le> ds_next_id s"
    "ds_state s \<noteq> DmDown \<Longrightarrow> ds_successes s = 0 \<and> ds_failures s < 3 \<and> ds_current s = None"
    "queue_ids s" "1 \<le> ds_next_id s" "\<forall>n \<in> set (tl (ds_pending s)). dn_kind n \<noteq> DmRecoveredKind"
    "dated_by (ds_changed_at s) (ds_pending s)" "ds_changed_at s = None \<longleftrightarrow> ds_state s = DmUnknown"
    "ds_state s = DmUnknown \<Longrightarrow> ds_pending s = [] \<and> ds_next_id s = 1"
    "\<forall>n \<in> set (ds_pending s). notification_ok n"
  using assms
  by (auto simp: status_ok_def status_post_init_eq_Inr bound_down_def current_down_post_init_def split: if_splits)

lemma failed_over_ok:
  assumes s: "status_ok s" and now: "on_time s now" and st: "ds_state s \<noteq> DmDown"
  shows "status_ok (failed_over s now)"
proof -
  note d = status_okD [OF s]
  have n: "notification_ok (intent s DmDownKind (ds_state s) DmDown now)"
    using new_notification_eq [of now s DmDownKind "ds_state s" DmDown] d(6) now st by (simp add: on_time_def)
  have "queue_ids (failed_over s now)"
    using d(5) by (rule queue_ids_snoc [where n = "intent s DmDownKind (ds_state s) DmDown now"])
      (simp_all add: failed_over_def intent_def)
  moreover have "dated_by (Some now) (ds_pending s @ [intent s DmDownKind (ds_state s) DmDown now])"
    using dated_by_later [OF d(8) now] d(9,10) by (auto simp: dated_by_def intent_def)
  moreover have "\<forall>n \<in> set (tl (ds_pending s @ [intent s DmDownKind (ds_state s) DmDown now])).
      dn_kind n \<noteq> DmRecoveredKind"
    using d(7) by (cases "ds_pending s") (auto simp: intent_def)
  ultimately show ?thesis
    using d(6,11) n
    by (auto simp: status_ok_def status_post_init_eq_Inr failed_over_def bound_down_def
        current_down_post_init_def intent_def)
qed

lemma recovered_ok:
  assumes s: "status_ok s" and now: "on_time s now" and st: "ds_state s = DmDown"
  shows "status_ok (recovered s now)"
proof -
  note d = status_okD [OF s]
  have n: "notification_ok (intent s DmRecoveredKind DmDown DmUp now)"
    using new_notification_eq [of now s DmRecoveredKind DmDown DmUp] d(3) now st by (simp add: on_time_def)
  have e: "acknowledged s \<Longrightarrow> ds_pending s = []"
    using d(3) [OF st] by (auto simp: bound_down_def acknowledged_iff)
  have "queue_ids (recovered s now)"
  proof (cases "acknowledged s")
    case True
    show ?thesis using d(5) by (rule queue_ids_snoc [where n = "intent s DmRecoveredKind DmDown DmUp now"])
      (simp_all add: recovered_def True intent_def)
  next
    case False
    show ?thesis using d(5) by (rule queue_ids_cong) (simp_all add: recovered_def False)
  qed
  moreover have "dated_by (Some now) (ds_pending (recovered s now))"
    using dated_by_later [OF d(8) now] d(9,10) st now e by (auto simp: dated_by_def recovered_def intent_def on_time_def)
  moreover have "\<forall>n \<in> set (tl (ds_pending (recovered s now))). dn_kind n \<noteq> DmRecoveredKind"
    using d(7) e by (auto simp: recovered_def)
  moreover have "\<forall>n \<in> set (ds_pending (recovered s now)). notification_ok n"
    using d(11) n by (auto simp: recovered_def)
  ultimately show ?thesis
    using d(6) by (auto simp: status_ok_def status_post_init_eq_Inr) (simp_all add: recovered_def)
qed

lemma keep_ok:
  assumes s: "status_ok s" and "ds_state s' = ds_state s" "ds_changed_at s' = ds_changed_at s"
    "ds_pending s' = ds_pending s" "ds_next_id s' = ds_next_id s" "ds_current s' = ds_current s"
    and f: "0 \<le> ds_failures s'" "0 \<le> ds_successes s'"
    and c: "if ds_state s = DmDown then ds_failures s' = 0 \<and> ds_successes s' < 2
      else ds_successes s' = 0 \<and> ds_failures s' < 3"
  shows "status_ok s'"
proof -
  have "queue_ids s'" using status_okD(5) [OF s] assms by (auto intro: queue_ids_cong)
  then show ?thesis
    using s assms by (auto simp: status_ok_def status_post_init_eq_Inr bound_down_def split: if_splits)
qed

text \<open>No probe of a valid status at a valid moment raises, and it has the intended effect.\<close>

lemma advance_eq:
  assumes s: "status_ok s" and now: "on_time s now"
  shows "advance_deadman_status s outcome now = Inr (advanced s outcome now) \<and>
    status_ok (advanced s outcome now)"
proof -
  note d = status_okD [OF s]
  have guard: "dm_require_aware now = Inr ()"
    "\<not> (case ds_changed_at s of None \<Rightarrow> False | Some anchor \<Rightarrow> instant now < instant anchor)"
    using now by (auto simp: on_time_def split: option.splits)
  have ok: "status_ok (advanced s outcome now)"
  proof (cases "ds_state s")
    case DmUnknown
    then have "s = initial_status\<lparr>ds_failures := ds_failures s\<rparr>"
      using d by (cases s) (auto simp: initial_status_def)
    then have "status_ok (s\<lparr>ds_state := DmUp, ds_failures := 0, ds_successes := 0, ds_changed_at := Some now\<rparr>)"
      using now by (cases s) (simp add: status_ok_def status_post_init_eq_Inr initial_status_def
        queue_ids_def dated_by_def on_time_def)
    then show ?thesis
      using DmUnknown failed_over_ok [OF s now] d
      by (auto simp: advanced_def intro: keep_ok [OF s])
  next
    case DmUp
    then show ?thesis
      using failed_over_ok [OF s now] d by (auto simp: advanced_def intro: keep_ok [OF s])
  next
    case DmDown
    then show ?thesis
      using recovered_ok [OF s now] d by (auto simp: advanced_def intro: keep_ok [OF s])
  qed
  then have check: "status_post_init (advanced s outcome now) = Inr ()" by (simp add: status_ok_def)
  have "advance_deadman_status s outcome now = Inr (advanced s outcome now)"
  proof (cases outcome)
    case ProbeHealthy
    show ?thesis
    proof (cases "ds_state s")
      case DmDown
      obtain c where c: "ds_current s = Some c" using d(3) [OF DmDown] by (auto simp: bound_down_def)
      have "new_notification (ds_next_id s) DmRecoveredKind DmDown DmUp now =
          Inr (intent s DmRecoveredKind DmDown DmUp now)"
        using new_notification_eq [of now s DmRecoveredKind DmDown DmUp] d(3) [OF DmDown] now
        by (simp add: on_time_def)
      then show ?thesis
        using check guard ProbeHealthy DmDown c d(2,3)
        by (auto simp: advance_deadman_status_def advance_success_def advanced_def recovery_confirmations_def
            Let_def recovered_def acknowledged_iff split: if_splits)
    qed (use check guard ProbeHealthy in \<open>auto simp: advance_deadman_status_def advance_success_def advanced_def\<close>)
  next
    case ProbeFailed
    have "ds_state s \<noteq> DmDown \<Longrightarrow> new_notification (ds_next_id s) DmDownKind (ds_state s) DmDown now =
        Inr (intent s DmDownKind (ds_state s) DmDown now)"
      using new_notification_eq [of now s DmDownKind "ds_state s" DmDown] d(6) now by (simp add: on_time_def)
    then show ?thesis
      using check guard ProbeFailed d(6)
      by (auto simp: advance_deadman_status_def advance_failure_def advanced_def down_confirmations_def
          Let_def failed_over_def current_down_post_init_def split: if_splits)
  qed
  with ok show ?thesis by blast
qed

section \<open>Acknowledgement\<close>

definition acked :: "dm_status \<Rightarrow> dm_status" where
  "acked s =
     s\<lparr>ds_pending := tl (ds_pending s),
       ds_current := map_option
         (\<lambda>c. if cd_id c = dn_id (hd (ds_pending s)) then c\<lparr>cd_acknowledged := True\<rparr> else c) (ds_current s)\<rparr>"

lemma acknowledge_eq:
  assumes s: "status_ok s"
  shows "acknowledge_deadman_notification s i =
      (if ds_pending s \<noteq> [] \<and> i = dn_id (hd (ds_pending s)) then Inr (acked s) else Inl ValueError) \<and>
    (ds_pending s \<noteq> [] \<longrightarrow> status_ok (acked s))"
proof (cases "ds_pending s")
  case Nil
  then show ?thesis
    by (simp add: acknowledge_deadman_notification_def require_notification_id_def raise_if_def)
next
  case (Cons n ns)
  note d = status_okD [OF s]
  have n1: "1 \<le> dn_id n"
    using d(11) Cons by (auto simp: notification_ok_def notification_post_init_def)
  have head: "dn_id n = ds_next_id s - int (length (ds_pending s))" using queue_ids_head [OF d(5) Cons] .
  have up: "[dn_id n..ds_next_id s - 1] = dn_id n # [dn_id n + 1..ds_next_id s - 1]"
    using head Cons by (intro upto_rec1) simp
  have q: "queue_ids (acked s)"
    using d(5) Cons up head by (simp add: queue_ids_def acked_def)
  have unk: "ds_state s \<noteq> DmUnknown" using d(10) Cons by auto
  have dn: "ds_state s = DmDown \<Longrightarrow> bound_down (acked s)"
  proof -
    assume "ds_state s = DmDown"
    then obtain c a where c: "ds_current s = Some c" "cd_id c = ds_next_id s - 1" "ds_changed_at s = Some a"
      "\<not> cd_acknowledged c" "dn_kind (last (n # ns)) = DmDownKind"
      "instant (dt_at (dn_transition (last (n # ns)))) = instant a"
      using d(3) Cons by (auto simp: bound_down_def split: if_splits)
    show ?thesis
    proof (cases "ns = []")
      case True
      then show ?thesis using c head Cons by (auto simp: bound_down_def acked_def)
    next
      case False
      then have "cd_id c \<noteq> dn_id n" using c(2) head Cons by (cases ns) auto
      then show ?thesis using c False Cons by (auto simp: bound_down_def acked_def)
    qed
  qed
  have later: "\<forall>m \<in> set (tl ns). dn_kind m \<noteq> DmRecoveredKind"
    using d(7) Cons set_tl_subset by fastforce
  have "status_ok (acked s)"
    using s q unk dn Cons later
    by (auto simp: status_ok_def status_post_init_eq_Inr current_down_post_init_def dated_by_def split: if_splits)
      (auto simp: acked_def)
  moreover from this have "status_post_init (acked s) = Inr ()" by (simp add: status_ok_def)
  ultimately show ?thesis
    using n1 Cons
    by (cases "ds_current s")
      (auto simp: acknowledge_deadman_notification_def acked_def current_down_post_init_def require_notification_id_def raise_if_def)
qed

section \<open>The notification ledger\<close>

lemma advance_Inr_iff:
  assumes "status_ok s"
  shows "advance_deadman_status s outcome now = Inr s' \<longleftrightarrow> on_time s now \<and> s' = advanced s outcome now"
proof (cases "on_time s now")
  case True
  then show ?thesis using advance_eq [OF assms True, of outcome] by auto
next
  case False
  then show ?thesis
    by (auto simp: advance_deadman_status_def on_time_def split: option.splits)
qed

text \<open>
  The abstract view of the queue: the log of all intents ever created and the number of those
  acknowledged so far.  \<open>ledger s hist k\<close> says that \<open>s\<close> is reached from the initial status by
  accepted probes and accepted acknowledgements with that history.
\<close>

inductive ledger :: "dm_status \<Rightarrow> dm_notification list \<Rightarrow> nat \<Rightarrow> bool" where
  start: "ledger initial_status [] 0"
| probe: "ledger s hist k \<Longrightarrow> advance_deadman_status s outcome now = Inr s' \<Longrightarrow>
    ledger s' (hist @ drop (length (ds_pending s)) (ds_pending s')) k"
| ack: "ledger s hist k \<Longrightarrow> acknowledge_deadman_notification s i = Inr s' \<Longrightarrow> ledger s' hist (Suc k)"

inductive_cases ledgerE: "ledger s hist k"

text \<open>The intents one probe creates.\<close>

definition created :: "dm_status \<Rightarrow> probe_outcome \<Rightarrow> datetime \<Rightarrow> dm_notification list" where
  "created s outcome now =
     (if outcome = ProbeFailed \<and> ds_state s \<noteq> DmDown \<and> 2 \<le> ds_failures s
      then [intent s DmDownKind (ds_state s) DmDown now]
      else if outcome = ProbeHealthy \<and> ds_state s = DmDown \<and> ds_successes s \<noteq> 0 \<and> acknowledged s
      then [intent s DmRecoveredKind DmDown DmUp now] else [])"

lemma advanced_pending: "ds_pending (advanced s outcome now) = ds_pending s @ created s outcome now"
  by (cases outcome; cases "ds_state s")
    (auto simp: advanced_def created_def recovered_def failed_over_def)

lemma advanced_next_id:
  "ds_next_id (advanced s outcome now) = ds_next_id s + int (length (created s outcome now))"
  by (cases outcome; cases "ds_state s")
    (auto simp: advanced_def created_def recovered_def failed_over_def)

definition ledger_inv :: "dm_status \<Rightarrow> dm_notification list \<Rightarrow> nat \<Rightarrow> bool" where
  "ledger_inv s hist k \<longleftrightarrow>
     status_ok s \<and> ds_pending s = drop k hist \<and> k \<le> length hist \<and>
     map dn_id hist = [1..int (length hist)] \<and> ds_next_id s = int (length hist) + 1 \<and>
     (ds_state s = DmDown \<longrightarrow> hist \<noteq> [] \<and> dn_kind (last hist) = DmDownKind \<and>
        (acknowledged s \<longleftrightarrow> k = length hist))"

lemma ledger_inv_advance:
  assumes "ledger_inv s hist k" "on_time s now"
  shows "ledger_inv (advanced s outcome now) (hist @ created s outcome now) k"
proof -
  let ?n = "created s outcome now"
  have s: "status_ok s" "ds_pending s = drop k hist" "k \<le> length hist" "map dn_id hist = [1..int (length hist)]"
    "ds_next_id s = int (length hist) + 1"
    using assms(1) by (simp_all add: ledger_inv_def)
  have "?n = [] \<or> (\<exists>m. ?n = [m] \<and> dn_id m = int (length hist) + 1)"
    using s(5) by (auto simp: created_def intent_def)
  then have ids: "map dn_id (hist @ ?n) = [1..int (length (hist @ ?n))]"
    using s(4) upto_rec2 [of 1 "1 + int (length hist)"] by (auto simp: add.commute)
  have "status_ok (advanced s outcome now)" using advance_eq [OF s(1) assms(2)] by blast
  moreover have "ds_state (advanced s outcome now) = DmDown \<longrightarrow> hist @ ?n \<noteq> [] \<and>
      dn_kind (last (hist @ ?n)) = DmDownKind \<and>
      (acknowledged (advanced s outcome now) \<longleftrightarrow> k = length (hist @ ?n))"
    using assms(1) s(3)
    by (cases outcome; cases "ds_state s")
      (auto simp: ledger_inv_def advanced_def created_def recovered_def failed_over_def acknowledged_iff
        intent_def)
  ultimately show ?thesis
    using s ids unfolding ledger_inv_def by (simp add: advanced_pending advanced_next_id)
qed

lemma ledger_inv_acknowledge:
  assumes "ledger_inv s hist k" "acknowledge_deadman_notification s i = Inr s'"
  shows "ledger_inv s' hist (Suc k) \<and> k < length hist \<and> i = int k + 1"
proof -
  have s: "status_ok s" "ds_pending s = drop k hist" "map dn_id hist = [1..int (length hist)]"
    using assms(1) by (simp_all add: ledger_inv_def)
  from assms(2) acknowledge_eq [OF s(1), of i] have
    a: "ds_pending s \<noteq> []" "i = dn_id (hd (ds_pending s))" "s' = acked s" "status_ok (acked s)"
    by (auto split: if_splits)
  have k: "k < length hist" using a(1) s(2) by simp
  have nth: "dn_id (hist ! j) = int j + 1" if "j < length hist" for j
    using that arg_cong [OF s(3), of "\<lambda>xs. xs ! j"] by (simp add: nth_upto)
  have i: "i = int k + 1" using a(2) s(2) k nth [OF k] by (simp add: hd_drop_conv_nth)
  have "acknowledged s' \<longleftrightarrow> Suc k = length hist" if "ds_state s = DmDown"
  proof -
    from that obtain c where c: "ds_current s = Some c" "cd_id c = ds_next_id s - 1" "\<not> cd_acknowledged c"
      using status_okD(3) [OF s(1)] a(1) by (auto simp: bound_down_def split: if_splits)
    then have "cd_id c = int (length hist)" using assms(1) by (simp add: ledger_inv_def)
    then show ?thesis using c a(2,3) i k by (auto simp: acknowledged_iff acked_def)
  qed
  moreover have "ds_pending s' = drop (Suc k) hist" "ds_state s' = ds_state s" "ds_next_id s' = ds_next_id s"
    using a(3) s(2) by (simp_all add: acked_def drop_Suc tl_drop)
  ultimately show ?thesis using assms(1) a k i by (auto simp: ledger_inv_def)
qed

text \<open>Exactly the next id in order is accepted.\<close>

lemma acknowledge_ledger:
  assumes "ledger_inv s hist k"
  shows "acknowledge_deadman_notification s i =
    (if k < length hist \<and> i = int k + 1 then Inr (acked s) else Inl ValueError)"
proof -
  have s: "status_ok s" "ds_pending s = drop k hist" "map dn_id hist = [1..int (length hist)]"
    using assms by (simp_all add: ledger_inv_def)
  have "dn_id (hist ! k) = int k + 1" if "k < length hist"
    using that arg_cong [OF s(3), of "\<lambda>xs. xs ! k"] by (simp add: nth_upto)
  then show ?thesis using acknowledge_eq [OF s(1), of i] s(2) by (auto simp: hd_drop_conv_nth not_le)
qed

lemma ledger_inv: "ledger s hist k \<Longrightarrow> ledger_inv s hist k"
proof (induction rule: ledger.induct)
  case start
  then show ?case using initial_status_ok by (simp add: ledger_inv_def) (simp add: initial_status_def)
next
  case (probe s hist k outcome now s')
  have "status_ok s" using probe.IH by (simp add: ledger_inv_def)
  then have s': "on_time s now" "s' = advanced s outcome now"
    using probe.hyps(2) advance_Inr_iff by blast+
  then show ?case using ledger_inv_advance [OF probe.IH s'(1), of outcome] by (simp add: advanced_pending)
next
  case (ack s hist k i s')
  then show ?case using ledger_inv_acknowledge by blast
qed

section \<open>The debounce contract\<close>

text \<open>
  One run of the oneshot process on the core: a probe outcome at a moment, then the
  acknowledgements of delivered intents; a rejected call changes nothing.
\<close>

type_synonym dm_tick = "probe_outcome \<times> datetime \<times> int list"

definition ack_step :: "dm_status \<Rightarrow> int \<Rightarrow> dm_status" where
  "ack_step s i = (case acknowledge_deadman_notification s i of Inl _ \<Rightarrow> s | Inr s' \<Rightarrow> s')"

definition dm_tick :: "dm_status \<Rightarrow> dm_tick \<Rightarrow> dm_status" where
  "dm_tick s t =
     (case t of (outcome, now, acks) \<Rightarrow>
       foldl ack_step (case advance_deadman_status s outcome now of Inl _ \<Rightarrow> s | Inr s' \<Rightarrow> s') acks)"

definition dm_down :: "dm_status \<Rightarrow> bool" where
  "dm_down s \<longleftrightarrow> ds_state s = DmDown"

definition tick_failed :: "dm_tick \<Rightarrow> bool" where
  "tick_failed t \<longleftrightarrow> fst t = ProbeFailed"

definition tick_healthy :: "dm_tick \<Rightarrow> bool" where
  "tick_healthy t \<longleftrightarrow> fst t = ProbeHealthy"

definition tick_on_time :: "dm_status \<Rightarrow> dm_tick \<Rightarrow> bool" where
  "tick_on_time s t \<longleftrightarrow> on_time s (fst (snd t))"

definition failure_streak :: "dm_status \<Rightarrow> nat" where
  "failure_streak s = nat (ds_failures s)"

definition success_streak :: "dm_status \<Rightarrow> nat" where
  "success_streak s = nat (ds_successes s)"

lemma ack_steps:
  "status_ok s \<Longrightarrow> status_ok (foldl ack_step s acks) \<and>
    ds_state (foldl ack_step s acks) = ds_state s \<and> ds_failures (foldl ack_step s acks) = ds_failures s \<and>
    ds_successes (foldl ack_step s acks) = ds_successes s \<and>
    ds_changed_at (foldl ack_step s acks) = ds_changed_at s"
proof (induction acks arbitrary: s)
  case (Cons i acks)
  have "status_ok (ack_step s i) \<and> ds_state (ack_step s i) = ds_state s \<and>
      ds_failures (ack_step s i) = ds_failures s \<and> ds_successes (ack_step s i) = ds_successes s \<and>
      ds_changed_at (ack_step s i) = ds_changed_at s"
    using acknowledge_eq [OF Cons.prems, of i] Cons.prems by (auto simp: ack_step_def acked_def)
  with Cons.IH [of "ack_step s i"] show ?case by simp
qed simp

lemma dm_tick_facts:
  assumes "status_ok s" "tick_on_time s t"
  shows "status_ok (dm_tick s t)"
    "ds_state (dm_tick s t) = ds_state (advanced s (fst t) (fst (snd t)))"
    "ds_failures (dm_tick s t) = ds_failures (advanced s (fst t) (fst (snd t)))"
    "ds_successes (dm_tick s t) = ds_successes (advanced s (fst t) (fst (snd t)))"
    "ds_changed_at (dm_tick s t) = ds_changed_at (advanced s (fst t) (fst (snd t)))"
proof -
  obtain outcome now acks where t: "t = (outcome, now, acks)" by (metis prod_cases3)
  have a: "advance_deadman_status s outcome now = Inr (advanced s outcome now)"
    "status_ok (advanced s outcome now)"
    using advance_eq [OF assms(1), of now outcome] assms(2) t by (simp_all add: tick_on_time_def)
  show "status_ok (dm_tick s t)"
    "ds_state (dm_tick s t) = ds_state (advanced s (fst t) (fst (snd t)))"
    "ds_failures (dm_tick s t) = ds_failures (advanced s (fst t) (fst (snd t)))"
    "ds_successes (dm_tick s t) = ds_successes (advanced s (fst t) (fst (snd t)))"
    "ds_changed_at (dm_tick s t) = ds_changed_at (advanced s (fst t) (fst (snd t)))"
    using ack_steps [OF a(2), of acks] by (simp_all add: dm_tick_def t a(1))
qed

lemmas tick_views = dm_down_def tick_failed_def tick_healthy_def failure_streak_def success_streak_def

interpretation deadman: debounce dm_tick status_ok tick_on_time dm_down failure_streak success_streak
  tick_failed tick_healthy "nat down_confirmations" "nat recovery_confirmations"
proof
  show "0 < nat down_confirmations" "0 < nat recovery_confirmations"
    by (simp_all add: down_confirmations_def recovery_confirmations_def)
  fix s t
  show "\<not> (tick_failed t \<and> tick_healthy t)" by (simp add: tick_views)
  assume s: "status_ok s" and t: "tick_on_time s t"
  note f = dm_tick_facts [OF s t]
  note d = status_okD [OF s]
  show "status_ok (dm_tick s t)" by (rule f(1))
  show "\<not> dm_down s \<Longrightarrow> tick_failed t \<Longrightarrow> Suc (failure_streak s) < nat down_confirmations \<Longrightarrow>
      \<not> dm_down (dm_tick s t) \<and> failure_streak (dm_tick s t) = Suc (failure_streak s)"
    using d(1) by (simp add: tick_views f advanced_def down_confirmations_def nat_add_distrib)
  show "\<not> dm_down s \<Longrightarrow> tick_failed t \<Longrightarrow> nat down_confirmations \<le> Suc (failure_streak s) \<Longrightarrow>
      dm_down (dm_tick s t) \<and> success_streak (dm_tick s t) = 0"
    using d(1) by (simp add: tick_views f advanced_def down_confirmations_def failed_over_def)
  show "\<not> dm_down s \<Longrightarrow> \<not> tick_failed t \<Longrightarrow> \<not> dm_down (dm_tick s t) \<and> failure_streak (dm_tick s t) = 0"
    by (cases "fst t") (auto simp: tick_views f advanced_def split: deadman_state.split)
  show "dm_down s \<Longrightarrow> tick_healthy t \<Longrightarrow> Suc (success_streak s) < nat recovery_confirmations \<Longrightarrow>
      dm_down (dm_tick s t) \<and> success_streak (dm_tick s t) = Suc (success_streak s)"
    using d(2) by (auto simp: tick_views f advanced_def recovery_confirmations_def)
  show "dm_down s \<Longrightarrow> tick_healthy t \<Longrightarrow> nat recovery_confirmations \<le> Suc (success_streak s) \<Longrightarrow>
      \<not> dm_down (dm_tick s t) \<and> failure_streak (dm_tick s t) = 0"
    by (auto simp: tick_views f advanced_def recovery_confirmations_def recovered_def)
  show "dm_down s \<Longrightarrow> \<not> tick_healthy t \<Longrightarrow> dm_down (dm_tick s t) \<and> success_streak (dm_tick s t) = 0"
    by (cases "fst t") (auto simp: tick_views f advanced_def)
qed

text \<open>A clock that does not run backwards keeps every tick on time.\<close>

lemma advanced_changed_at:
  "ds_changed_at (advanced s outcome now) \<in> {ds_changed_at s, Some now}"
  by (auto simp: advanced_def recovered_def failed_over_def split: deadman_state.split)

lemma monotone_ticks_on_time:
  assumes "\<forall>t \<in> set ts. aware (fst (snd t))" "sorted (map (\<lambda>t. instant (fst (snd t))) ts)"
    and "status_ok s" "\<forall>a. ds_changed_at s = Some a \<longrightarrow> (\<forall>t \<in> set ts. instant a \<le> instant (fst (snd t)))"
  shows "ok_run dm_tick tick_on_time s ts"
  using assms
proof (induction ts arbitrary: s)
  case (Cons t ts)
  have now: "tick_on_time s t" using Cons.prems(1,4) by (auto simp: tick_on_time_def on_time_def)
  note f = dm_tick_facts [OF Cons.prems(3) now]
  have "\<forall>a. ds_changed_at (dm_tick s t) = Some a \<longrightarrow> (\<forall>u \<in> set ts. instant a \<le> instant (fst (snd u)))"
    using advanced_changed_at [of s "fst t" "fst (snd t)"] Cons.prems(2,4) by (auto simp: f(5))
  then show ?case using Cons now f(1) by simp
qed simp

section \<open>Properties\<close>

definition sample_ticks :: "dm_tick list" where
  "sample_ticks =
     [(ProbeHealthy, utc_datetime 0, []), (ProbeFailed, utc_datetime 60, []), (ProbeFailed, utc_datetime 120, []),
      (ProbeFailed, utc_datetime 180, [1]), (ProbeHealthy, utc_datetime 240, []),
      (ProbeHealthy, utc_datetime 300, [2])]"

text \<open>C8: with a clock that does not run backwards, the dead-man is DOWN after a sequence of ticks
  exactly when the probe history confirms it: a moment ended three consecutive failed probes and
  no later moment ended two consecutive healthy ones, whatever was acknowledged in between.\<close>

theorem deadman_down_iff_confirmed:
  assumes "\<forall>t \<in> set ts. aware (fst (snd t))" "sorted (map (\<lambda>t. instant (fst (snd t))) ts)"
  shows "ds_state (foldl dm_tick initial_status ts) = DmDown \<longleftrightarrow>
    confirmed_down 3 2 tick_failed tick_healthy ts"
proof -
  have "ok_run dm_tick tick_on_time initial_status ts"
    using monotone_ticks_on_time [OF assms initial_status_ok] by (simp add: initial_status_def)
  moreover have "\<not> dm_down initial_status" "failure_streak initial_status = 0"
    by (simp_all add: tick_views initial_status_def)
  ultimately show ?thesis
    using deadman.run_down_iff [OF initial_status_ok]
    by (simp add: dm_down_def down_confirmations_def recovery_confirmations_def)
qed

lemma deadman_down_iff_confirmed_witness:
  "ds_state (foldl dm_tick initial_status (take 4 sample_ticks)) = DmDown \<and>
    confirmed_down 3 2 tick_failed tick_healthy (take 4 sample_ticks)"
proof -
  have "ds_state (foldl dm_tick initial_status (take 4 sample_ticks)) = DmDown" by code_simp
  then show ?thesis
    using deadman_down_iff_confirmed [of "take 4 sample_ticks"] by (simp add: sample_ticks_def)
qed

text \<open>C15: a probe of a valid status is accepted exactly when the moment is aware and not before the
  state's anchor, and the result is again valid: every constructor check of the status, its
  intents and its binding holds.\<close>

theorem advance_total_and_preserving:
  assumes "status_ok s"
  shows "((\<exists>s'. advance_deadman_status s outcome now = Inr s') \<longleftrightarrow> on_time s now) \<and>
    (\<forall>s'. advance_deadman_status s outcome now = Inr s' \<longrightarrow> status_ok s')"
  unfolding advance_Inr_iff [OF assms] using advance_eq [OF assms, of now outcome] by simp

lemma advance_total_and_preserving_witness:
  "\<exists>s'. advance_deadman_status initial_status ProbeFailed (utc_datetime 5) = Inr s'"
  using advance_total_and_preserving [OF initial_status_ok, of ProbeFailed "utc_datetime 5"]
  by (simp add: on_time_def initial_status_def)

text \<open>C10: the persisted queue is a ledger: in every reachable status the intents created so far
  carry the ids 1, 2, 3, ... in creation order, exactly the unacknowledged ones are pending, in
  that order, and the next id is one above all of them, so no intent is lost, reordered or given a
  used id.\<close>

theorem queue_refines_ledger:
  assumes "ledger s hist k"
  shows "status_ok s \<and> k \<le> length hist \<and> ds_pending s = drop k hist \<and>
    map dn_id hist = [1..int (length hist)] \<and> ds_next_id s = int (length hist) + 1"
  using ledger_inv [OF assms] by (simp add: ledger_inv_def)

lemma ledger_sample:
  "\<exists>s k. ledger s [\<lparr>dn_id = 1, dn_kind = DmDownKind, dn_transition =
      \<lparr>dt_from = DmUnknown, dt_to = DmDown, dt_at = utc_datetime 3\<rparr>\<rparr>] k \<and> k = 0 \<and>
    ds_state s = DmDown \<and> length (ds_pending s) = 1"
proof -
  let ?a = "initial_status\<lparr>ds_failures := 1\<rparr>" and ?b = "initial_status\<lparr>ds_failures := 2\<rparr>"
    and ?c = "failed_over (initial_status\<lparr>ds_failures := 2\<rparr>) (utc_datetime 3)"
  have run: "advance_deadman_status initial_status ProbeFailed (utc_datetime 1) = Inr ?a"
    "advance_deadman_status ?a ProbeFailed (utc_datetime 2) = Inr ?b"
    "advance_deadman_status ?b ProbeFailed (utc_datetime 3) = Inr ?c"
    by code_simp+
  have "ledger ?a [] 0" using ledger.probe [OF ledger.start run(1)] by (simp add: initial_status_def)
  then have "ledger ?b [] 0" using ledger.probe [OF _ run(2)] by (fastforce simp: initial_status_def)
  from ledger.probe [OF this run(3)] show ?thesis
    by (intro exI [of _ ?c] exI [of _ 0]) (simp add: initial_status_def failed_over_def intent_def)
qed

lemma queue_refines_ledger_witness:
  "\<exists>s hist k. ledger s hist k \<and> hist \<noteq> [] \<and> ds_pending s = drop k hist"
  using ledger_sample queue_refines_ledger by blast

text \<open>C23: acknowledgement is oldest-first and happens once: in a reachable status with \<open>k\<close>
  acknowledged intents exactly the id \<open>k + 1\<close> is accepted, if it was allocated; it removes exactly
  the oldest pending intent, and the same id is rejected from then on.\<close>

theorem acknowledgement_is_ordered_and_once:
  assumes "ledger s hist k"
  shows "((\<exists>s'. acknowledge_deadman_notification s i = Inr s') \<longleftrightarrow> k < length hist \<and> i = int k + 1) \<and>
    (\<forall>s'. acknowledge_deadman_notification s i = Inr s' \<longrightarrow>
       ds_pending s' = tl (ds_pending s) \<and> acknowledge_deadman_notification s' i = Inl ValueError)"
proof -
  note inv = ledger_inv [OF assms]
  have "ds_pending s' = tl (ds_pending s) \<and> acknowledge_deadman_notification s' i = Inl ValueError"
    if a: "acknowledge_deadman_notification s i = Inr s'" for s'
    using a acknowledge_ledger [OF inv, of i] ledger_inv_acknowledge [OF inv a]
      acknowledge_ledger [of s' hist "Suc k" i]
    by (auto simp: acked_def split: if_splits)
  then show ?thesis using acknowledge_ledger [OF inv, of i] by auto
qed

lemma acknowledgement_is_ordered_and_once_witness:
  "\<exists>s s'. acknowledge_deadman_notification s 1 = Inr s' \<and>
    acknowledge_deadman_notification s' 1 = Inl ValueError"
proof -
  obtain s m where l: "ledger s [m] 0" using ledger_sample by blast
  from acknowledgement_is_ordered_and_once [OF l, of 1] show ?thesis by auto
qed

text \<open>Intents are created exactly on confirmed changes: a probe that enters DOWN appends one
  DOWN intent, one that leaves DOWN appends one RECOVERED intent exactly when the alert of this
  outage was acknowledged, any other probe appends nothing, and older intents stay as they are.\<close>

theorem intents_exactly_on_changes:
  assumes "status_ok s" "advance_deadman_status s outcome now = Inr s'"
  shows "ds_pending s' = ds_pending s @
    (if ds_state s \<noteq> DmDown \<and> ds_state s' = DmDown then [intent s DmDownKind (ds_state s) DmDown now]
     else if ds_state s = DmDown \<and> ds_state s' \<noteq> DmDown \<and> acknowledged s
     then [intent s DmRecoveredKind DmDown DmUp now] else [])"
proof -
  have "s' = advanced s outcome now" using assms advance_Inr_iff by blast
  then show ?thesis
    unfolding advanced_pending
    by (cases outcome; cases "ds_state s")
      (auto simp: advanced_pending created_def advanced_def recovered_def failed_over_def advanced_pending)
qed

lemma intents_exactly_on_changes_witness:
  "\<exists>s'. advance_deadman_status initial_status ProbeHealthy (utc_datetime 5) = Inr s' \<and> ds_pending s' = []"
  using intents_exactly_on_changes [OF initial_status_ok, of ProbeHealthy "utc_datetime 5"]
    advance_eq [OF initial_status_ok, of "utc_datetime 5" ProbeHealthy]
  by (auto simp: on_time_def initial_status_def advanced_def)

text \<open>C33: no misleading recovery: when a probe creates a RECOVERED intent, the newest intent ever
  created is the DOWN alert of the outage that ends, and every intent including that alert has been
  acknowledged.\<close>

theorem recovered_only_after_delivered_down:
  assumes "ledger s hist k" "advance_deadman_status s outcome now = Inr s'"
    and "n \<in> set (drop (length (ds_pending s)) (ds_pending s'))" "dn_kind n = DmRecoveredKind"
  shows "ds_state s = DmDown \<and> k = length hist \<and> hist \<noteq> [] \<and> dn_kind (last hist) = DmDownKind \<and>
    ds_pending s = [] \<and> dn_id n = int (length hist) + 1"
proof -
  note inv = ledger_inv [OF assms(1)]
  then have s: "status_ok s" by (simp add: ledger_inv_def)
  then have "s' = advanced s outcome now" using assms(2) advance_Inr_iff by blast
  then have "n \<in> set (created s outcome now)" using assms(3) by (simp add: advanced_pending)
  then have "ds_state s = DmDown" "acknowledged s" "n = intent s DmRecoveredKind DmDown DmUp now"
    using assms(4) by (auto simp: created_def intent_def split: if_splits)
  then show ?thesis using inv by (auto simp: ledger_inv_def intent_def)
qed

lemma recovered_only_after_delivered_down_witness:
  "\<exists>s hist k n. ledger s hist k \<and> dn_kind n = DmRecoveredKind \<and>
    (\<exists>s'. advance_deadman_status s ProbeHealthy (utc_datetime 5) = Inr s' \<and> n \<in> set (ds_pending s')) \<and>
    ds_pending s = [] \<and> dn_kind (last hist) = DmDownKind"
proof -
  let ?b = "initial_status\<lparr>ds_failures := 2\<rparr>"
  let ?c = "failed_over ?b (utc_datetime 3)"
  let ?d = "acked ?c" and ?e = "(acked ?c)\<lparr>ds_successes := 1\<rparr>"
  let ?f = "recovered ?e (utc_datetime 5)"
  have run: "advance_deadman_status initial_status ProbeFailed (utc_datetime 1) = Inr (initial_status\<lparr>ds_failures := 1\<rparr>)"
    "advance_deadman_status (initial_status\<lparr>ds_failures := 1\<rparr>) ProbeFailed (utc_datetime 2) = Inr ?b"
    "advance_deadman_status ?b ProbeFailed (utc_datetime 3) = Inr ?c"
    "acknowledge_deadman_notification ?c 1 = Inr ?d"
    "advance_deadman_status ?d ProbeHealthy (utc_datetime 4) = Inr ?e"
    "advance_deadman_status ?e ProbeHealthy (utc_datetime 5) = Inr ?f"
    by code_simp+
  obtain hist where l: "ledger ?e hist 1"
    using ledger.probe [OF ledger.ack [OF ledger.probe [OF ledger.probe [OF ledger.probe [OF ledger.start
      run(1)] run(2)] run(3)] run(4)] run(5)] by fastforce
  have ack: "acknowledged ?e" by code_simp
  have n: "intent ?e DmRecoveredKind DmDown DmUp (utc_datetime 5) \<in> set (drop (length (ds_pending ?e)) (ds_pending ?f))"
    using ack by (simp add: recovered_def)
  have k: "dn_kind (intent ?e DmRecoveredKind DmDown DmUp (utc_datetime 5)) = DmRecoveredKind"
    by (simp add: intent_def)
  from recovered_only_after_delivered_down [OF l run(6) n k] l run(6) k in_set_dropD [OF n]
  show ?thesis by blast
qed

end
