(* ===== verification/Py_Json.thy ===== *)
theory Py_Json
  imports Py_Iso Py_Text "HOL-Library.Product_Lexorder"
begin

text \<open>
  \<open>json.loads\<close> and \<open>json.dumps\<close> as the program calls them.  A document is a tree whose objects are
  lists of pairs in source order.  The reader follows the library's scanner character by
  character; the hooks the program passes decide what a repeated key and a non-finite constant do.
  Its nesting limit is an argument, because the interpreter fixes it.  Texts are Latin-1, as
  everywhere in the model: an escape naming a higher code point leaves the alphabet and is
  reported as \<open>outside_model\<close>.  The program never serialises a float, so \<open>dumps\<close> has no equation
  for one.
\<close>

section \<open>Documents\<close>

datatype json =
    JNull
  | JBool bool
  | JInt int
  | JFloat pyfloat
  | JStr string
  | JArr "json list"
  | JObj "(string \<times> json) list"

text \<open>
  The hooks: what to raise for a repeated key and for \<open>NaN\<close>, \<open>Infinity\<close>, \<open>-Infinity\<close>; \<open>None\<close> is
  the library's default (the last value wins, the constant is a float).
\<close>

record json_hooks =
  on_duplicate :: "exn option"
  on_constant :: "exn option"

definition strict_hooks :: json_hooks where
  "strict_hooks = \<lparr>on_duplicate = Some ValueError, on_constant = Some ValueError\<rparr>"

section \<open>Reading\<close>

definition json_space :: "char \<Rightarrow> bool" where
  "json_space c \<longleftrightarrow> c \<in> {CHR '' '', CHR 0x09, CHR 0x0A, CHR 0x0D}"

definition skip_space :: "string \<Rightarrow> string" where
  "skip_space s = dropWhile json_space s"

definition hex_val :: "char \<Rightarrow> nat option" where
  "hex_val c =
     (let v = of_char c :: nat
      in if 48 \<le> v \<and> v \<le> 57 then Some (v - 48)
         else if 65 \<le> v \<and> v \<le> 70 then Some (v - 55)
         else if 97 \<le> v \<and> v \<le> 102 then Some (v - 87) else None)"

fun hex_of :: "nat \<Rightarrow> string \<Rightarrow> nat option" where
  "hex_of acc [] = Some acc"
| "hex_of acc (c # cs) =
     (case hex_val c of None \<Rightarrow> None | Some v \<Rightarrow> hex_of (16 * acc + v) cs)"

definition simple_escape :: "char \<Rightarrow> char option" where
  "simple_escape c =
     map_of [(CHR 0x22, CHR 0x22), (CHR 0x5C, CHR 0x5C), (CHR ''/'', CHR ''/''), (CHR ''b'', CHR 0x08),
             (CHR ''f'', CHR 0x0C), (CHR ''n'', CHR 0x0A), (CHR ''r'', CHR 0x0D), (CHR ''t'', CHR 0x09)] c"

text \<open>The characters up to the closing quote, and the text after it.\<close>

fun json_string :: "string \<Rightarrow> (string \<times> string) res" where
  "json_string [] = Inl ValueError"
| "json_string (c # cs) =
     (if c = CHR 0x22 then Inr ([], cs)
      else if c = CHR 0x5C then
        (case cs of
           [] \<Rightarrow> Inl ValueError
         | e # r \<Rightarrow>
             if e = CHR ''u'' then
               (if length r < 4 then Inl ValueError
                else case hex_of 0 (take 4 r) of
                  None \<Rightarrow> Inl ValueError
                | Some v \<Rightarrow>
                    if 256 \<le> v then Inl outside_model
                    else (case json_string (drop 4 r) of
                            Inl x \<Rightarrow> Inl x | Inr (t, rest) \<Rightarrow> Inr (char_of v # t, rest)))
             else (case simple_escape e of
                     None \<Rightarrow> Inl ValueError
                   | Some d \<Rightarrow>
                       (case json_string r of
                          Inl x \<Rightarrow> Inl x | Inr (t, rest) \<Rightarrow> Inr (d # t, rest))))
      else if (of_char c :: nat) < 32 then Inl ValueError
      else (case json_string cs of
              Inl x \<Rightarrow> Inl x | Inr (t, rest) \<Rightarrow> Inr (c # t, rest)))"

definition digit_run :: "string \<Rightarrow> string \<times> string" where
  "digit_run s = (takeWhile is_digit s, dropWhile is_digit s)"

definition max_int_digits :: nat where "max_int_digits = 4300"

text \<open>The optional fraction and exponent behind an integer part.\<close>

definition number_fraction :: "string \<Rightarrow> string \<times> string" where
  "number_fraction s =
     (case s of
        [] \<Rightarrow> ([], s)
      | c # r \<Rightarrow> (if c = CHR ''.'' \<and> fst (digit_run r) \<noteq> [] then digit_run r else ([], s)))"

definition number_exponent :: "string \<Rightarrow> int option \<times> string" where
  "number_exponent s =
     (case s of
        [] \<Rightarrow> (None, s)
      | c # r \<Rightarrow>
          (if c = CHR ''e'' \<or> c = CHR ''E'' then
             (let (sign, r') = (case r of [] \<Rightarrow> (1, r)
                                | d # q \<Rightarrow> if d = CHR ''-'' then (-1, q) else if d = CHR ''+'' then (1, q) else (1, r));
                  (ds, rest) = digit_run r'
              in if ds = [] then (None, s)
                 else (map_option (\<lambda>n. sign * int n) (num_of 0 ds), rest))
           else (None, s)))"

definition number_value :: "bool \<Rightarrow> string \<Rightarrow> string \<Rightarrow> int \<Rightarrow> rat" where
  "number_value neg ip fr e =
     (let m = rat_of_nat (the (num_of 0 (ip @ fr))) * 10 powi (e - int (length fr))
      in if neg then - m else m)"

definition json_number :: "bool \<Rightarrow> string \<Rightarrow> (json \<times> string) res" where
  "json_number neg s =
     (let (run, after_run) = digit_run s;
          (ip, s1) = (case run of [] \<Rightarrow> ([], s)
                      | c # r \<Rightarrow> if c = CHR ''0'' then ([c], r @ after_run) else (run, after_run))
      in if ip = [] then Inl ValueError
         else let (fr, s2) = number_fraction s1; (e, s3) = number_exponent s2
              in if fr = [] \<and> e = None then
                   (if max_int_digits < length ip then Inl ValueError
                    else Inr (JInt (let n = int (the (num_of 0 ip)) in if neg then - n else n), s1))
                 else Inr (JFloat (round64 (number_value neg ip fr (case e of None \<Rightarrow> 0 | Some k \<Rightarrow> k))), s3))"

definition starts_with :: "string \<Rightarrow> string \<Rightarrow> bool" where
  "starts_with p s \<longleftrightarrow> take (length p) s = p"

definition json_constant :: "json_hooks \<Rightarrow> pyfloat \<Rightarrow> string \<Rightarrow> (json \<times> string) res" where
  "json_constant h v rest = (case on_constant h of None \<Rightarrow> Inr (JFloat v, rest) | Some e \<Rightarrow> Inl e)"

text \<open>Scalars: everything that does not open an array or an object.\<close>

definition json_scalar :: "json_hooks \<Rightarrow> string \<Rightarrow> (json \<times> string) res" where
  "json_scalar h s =
     (case s of
        [] \<Rightarrow> Inl ValueError
      | c # r \<Rightarrow>
          if c = CHR 0x22 then
            (case json_string r of Inl x \<Rightarrow> Inl x | Inr (t, rest) \<Rightarrow> Inr (JStr t, rest))
          else if starts_with ''null'' s then Inr (JNull, drop 4 s)
          else if starts_with ''true'' s then Inr (JBool True, drop 4 s)
          else if starts_with ''false'' s then Inr (JBool False, drop 5 s)
          else if starts_with ''NaN'' s then json_constant h NaN (drop 3 s)
          else if starts_with ''Infinity'' s then json_constant h PInf (drop 8 s)
          else if starts_with ''-Infinity'' s then json_constant h NInf (drop 9 s)
          else if c = CHR ''-'' then json_number True r
          else json_number False s)"

text \<open>\<open>object_pairs_hook\<close> or the default dictionary, in which the last value of a key wins.\<close>

fun last_wins :: "(string \<times> json) list \<Rightarrow> (string \<times> json) list" where
  "last_wins [] = []"
| "last_wins ((k, v) # ps) =
     (if k \<in> set (map fst ps)
      then (k, the (map_of (rev ps) k)) # last_wins (filter (\<lambda>p. fst p \<noteq> k) ps)
      else (k, v) # last_wins ps)"

definition json_object :: "json_hooks \<Rightarrow> (string \<times> json) list \<Rightarrow> json res" where
  "json_object h pairs =
     (if distinct (map fst pairs) then Inr (JObj pairs)
      else case on_duplicate h of None \<Rightarrow> Inr (JObj (last_wins pairs)) | Some e \<Rightarrow> Inl e)"

text \<open>
  Values, array elements and object members.  The first number is fuel that every call consumes,
  the second the nesting still allowed.  Fuel one above four times the length of the text is never
  used up (\<open>json_fuel\<close>), so \<open>AssertionError\<close> is not a result of \<open>json_loads\<close>.
\<close>

fun json_value :: "json_hooks \<Rightarrow> nat \<Rightarrow> nat \<Rightarrow> string \<Rightarrow> (json \<times> string) res"
  and json_elements :: "json_hooks \<Rightarrow> nat \<Rightarrow> nat \<Rightarrow> string \<Rightarrow> (json list \<times> string) res"
  and json_members :: "json_hooks \<Rightarrow> nat \<Rightarrow> nat \<Rightarrow> string \<Rightarrow> ((string \<times> json) list \<times> string) res"
where
  "json_value h 0 d s = Inl AssertionError"
| "json_value h (Suc n) d s =
     (case s of
        [] \<Rightarrow> Inl ValueError
      | c # r \<Rightarrow>
          if c = CHR ''['' then
            (if d = 0 then Inl RecursionError
             else let t = skip_space r in
               if t \<noteq> [] \<and> hd t = CHR '']'' then Inr (JArr [], tl t)
               else (case json_elements h n (d - 1) t of
                       Inl e \<Rightarrow> Inl e | Inr (xs, rest) \<Rightarrow> Inr (JArr xs, rest)))
          else if c = CHR ''{'' then
            (if d = 0 then Inl RecursionError
             else let t = skip_space r in
               if t \<noteq> [] \<and> hd t = CHR ''}'' then Inr (JObj [], tl t)
               else (case json_members h n (d - 1) t of
                       Inl e \<Rightarrow> Inl e
                     | Inr (ps, rest) \<Rightarrow>
                         (case json_object h ps of Inl e \<Rightarrow> Inl e | Inr v \<Rightarrow> Inr (v, rest))))
          else json_scalar h s)"
| "json_elements h 0 d s = Inl AssertionError"
| "json_elements h (Suc n) d s =
     (case json_value h n d s of
        Inl e \<Rightarrow> Inl e
      | Inr (v, r) \<Rightarrow>
          (case skip_space r of
             [] \<Rightarrow> Inl ValueError
           | c # t \<Rightarrow>
               if c = CHR '']'' then Inr ([v], t)
               else if c = CHR '','' then
                 (case json_elements h n d (skip_space t) of
                    Inl e \<Rightarrow> Inl e | Inr (vs, rest) \<Rightarrow> Inr (v # vs, rest))
               else Inl ValueError))"
| "json_members h 0 d s = Inl AssertionError"
| "json_members h (Suc n) d s =
     (case s of
        [] \<Rightarrow> Inl ValueError
      | q # r0 \<Rightarrow>
          if q \<noteq> CHR 0x22 then Inl ValueError
          else (case json_string r0 of
             Inl e \<Rightarrow> Inl e
           | Inr (k, r1) \<Rightarrow>
               (case skip_space r1 of
                  [] \<Rightarrow> Inl ValueError
                | c # r2 \<Rightarrow>
                    if c \<noteq> CHR '':'' then Inl ValueError
                    else (case json_value h n d (skip_space r2) of
                       Inl e \<Rightarrow> Inl e
                     | Inr (v, r3) \<Rightarrow>
                         (case skip_space r3 of
                            [] \<Rightarrow> Inl ValueError
                          | b # t \<Rightarrow>
                              if b = CHR ''}'' then Inr ([(k, v)], t)
                              else if b = CHR '','' then
                                (case json_members h n d (skip_space t) of
                                   Inl e \<Rightarrow> Inl e | Inr (ps, rest) \<Rightarrow> Inr ((k, v) # ps, rest))
                              else Inl ValueError)))))"

definition json_fuel :: "string \<Rightarrow> nat" where
  "json_fuel s = 4 * length s + 1"

definition json_loads :: "json_hooks \<Rightarrow> nat \<Rightarrow> string \<Rightarrow> json res" where
  "json_loads h limit s =
     (case json_value h (json_fuel s) limit (skip_space s) of
        Inl e \<Rightarrow> Inl e
      | Inr (v, rest) \<Rightarrow> if skip_space rest = [] then Inr v else Inl ValueError)"

section \<open>Writing\<close>

definition hex_digit :: "nat \<Rightarrow> char" where
  "hex_digit n = (if n < 10 then char_of (48 + n) else char_of (87 + n))"

definition escape_char :: "bool \<Rightarrow> char \<Rightarrow> string" where
  "escape_char ensure_ascii c =
     (if c = CHR 0x22 then [CHR 0x5C, CHR 0x22] else if c = CHR 0x5C then [CHR 0x5C, CHR 0x5C]
      else if c = CHR 0x08 then [CHR 0x5C, CHR ''b''] else if c = CHR 0x0C then [CHR 0x5C, CHR ''f'']
      else if c = CHR 0x0A then [CHR 0x5C, CHR ''n''] else if c = CHR 0x0D then [CHR 0x5C, CHR ''r'']
      else if c = CHR 0x09 then [CHR 0x5C, CHR ''t'']
      else let v = of_char c :: nat in
        if v < 32 \<or> (ensure_ascii \<and> 126 < v)
        then [CHR 0x5C, CHR ''u'', CHR ''0'', CHR ''0'', hex_digit (v div 16), hex_digit (v mod 16)]
        else [c])"

definition dumps_string :: "bool \<Rightarrow> string \<Rightarrow> string" where
  "dumps_string ensure_ascii s = CHR 0x22 # concat (map (escape_char ensure_ascii) s) @ [CHR 0x22]"

text \<open>\<open>str\<close> of an int\<close>

fun digit_count :: "nat \<Rightarrow> nat" where
  "digit_count n = (if n < 10 then 1 else Suc (digit_count (n div 10)))"

declare digit_count.simps [simp del]

definition nat_text :: "nat \<Rightarrow> string" where
  "nat_text n = digits (digit_count n) n"

definition int_text :: "int \<Rightarrow> string" where
  "int_text i = (if i < 0 then CHR ''-'' # nat_text (nat (- i)) else nat_text (nat i))"

text \<open>Compact separators; \<open>sort_keys\<close> orders the members of every object by key.\<close>

definition member_order :: "bool \<Rightarrow> (string \<times> 'a) list \<Rightarrow> (string \<times> 'a) list" where
  "member_order sort_keys ps = (if sort_keys then sort_key fst ps else ps)"

fun json_dumps :: "bool \<Rightarrow> bool \<Rightarrow> json \<Rightarrow> string" where
  "json_dumps sk ea JNull = ''null''"
| "json_dumps sk ea (JBool b) = (if b then ''true'' else ''false'')"
| "json_dumps sk ea (JInt i) = int_text i"
| "json_dumps sk ea (JStr s) = dumps_string ea s"
| "json_dumps sk ea (JArr xs) = ''['' @ join_with '','' (map (json_dumps sk ea) xs) @ '']''"
| "json_dumps sk ea (JObj ps) =
     ''{'' @ join_with '','' (map (\<lambda>(k, t). dumps_string ea k @ '':'' @ t)
        (member_order sk (map (\<lambda>(k, v). (k, json_dumps sk ea v)) ps))) @ ''}''"

text \<open>Integers beyond the interpreter's digit limit cannot be printed: \<open>dumps\<close> raises there.\<close>

fun printable :: "json \<Rightarrow> bool" where
  "printable (JInt i) = (digit_count (nat \<bar>i\<bar>) \<le> max_int_digits)"
| "printable (JArr xs) = list_all printable xs"
| "printable (JObj ps) = list_all (\<lambda>(k, v). printable v) ps"
| "printable v = True"

definition json_dumps_checked :: "bool \<Rightarrow> bool \<Rightarrow> json \<Rightarrow> string res" where
  "json_dumps_checked sk ea v = (if printable v then Inr (json_dumps sk ea v) else Inl ValueError)"

section \<open>The reader terminates within its fuel\<close>

lemma skip_space_length: "length (skip_space s) \<le> length s"
  unfolding skip_space_def by (rule length_dropWhile_le)

lemma continue_string_Inr:
  "(case m of Inl x \<Rightarrow> Inl x | Inr (t, rest) \<Rightarrow> Inr (g t, rest)) = Inr (t', r) \<longleftrightarrow>
    (\<exists>t. m = Inr (t, r) \<and> t' = g t)"
  by (auto split: sum.splits prod.splits)

lemma json_string_length: "json_string s = Inr (t, r) \<Longrightarrow> length r < length s"
proof (induction s arbitrary: t r rule: json_string.induct)
  case (2 c cs)
  show ?case
  proof (cases "c = CHR 0x5C")
    case False
    then show ?thesis
      using 2 by (auto simp: continue_string_Inr split: if_splits) fastforce?
  next
    case True
    then have nq: "c \<noteq> CHR 0x22" by simp
    from True obtain e q where cs: "cs = e # q" using 2 by (auto split: list.splits)
    show ?thesis
    proof (cases "e = CHR ''u''")
      case True
      then obtain v t' where "hex_of 0 (take 4 q) = Some v" "\<not> 256 \<le> v" "\<not> length q < 4"
        "json_string (drop 4 q) = Inr (t', r)"
        using 2 \<open>c = CHR 0x5C\<close> cs by (auto simp: continue_string_Inr split: if_splits option.splits)
      then show ?thesis using 2(1) [OF nq \<open>c = CHR 0x5C\<close> cs True] cs by fastforce
    next
      case False
      then obtain d t' where "simple_escape e = Some d" "json_string q = Inr (t', r)"
        using 2 \<open>c = CHR 0x5C\<close> cs by (auto simp: continue_string_Inr split: if_splits option.splits)
      then show ?thesis using 2(2) [OF nq \<open>c = CHR 0x5C\<close> cs False] cs \<open>c = CHR 0x5C\<close> by fastforce
    qed
  qed
qed simp

lemma continue_string_Inl:
  "(case m of Inl x \<Rightarrow> Inl x | Inr (t, rest) \<Rightarrow> Inr (g t, rest)) = Inl e \<longleftrightarrow> m = Inl e"
  by (auto split: sum.splits prod.splits)

lemma json_string_errors: "json_string s = Inl e \<Longrightarrow> e = ValueError \<or> e = outside_model"
proof (induction s rule: json_string.induct)
  case (2 c cs)
  show ?case
  proof (cases "c = CHR 0x5C")
    case False
    then show ?thesis using 2 by (auto simp: continue_string_Inl split: if_splits)
  next
    case True
    then have nq: "c \<noteq> CHR 0x22" by simp
    show ?thesis
    proof (cases cs)
      case (Cons x q)
      show ?thesis
      proof (cases "x = CHR ''u''")
        case True
        then show ?thesis
          using 2(1) [OF nq \<open>c = CHR 0x5C\<close> Cons True] 2(4) \<open>c = CHR 0x5C\<close> Cons
          by (auto simp: continue_string_Inl split: if_splits option.splits)
      next
        case False
        then show ?thesis
          using 2(2) [OF nq \<open>c = CHR 0x5C\<close> Cons False] 2(4) \<open>c = CHR 0x5C\<close> Cons
          by (auto simp: continue_string_Inl split: if_splits option.splits)
      qed
    qed (use 2(4) True in simp)
  qed
qed simp

lemma json_string_no_assertion: "json_string s \<noteq> Inl AssertionError"
  using json_string_errors by (fastforce simp: outside_model_def)

lemma digit_run_length: "digit_run s = (a, b) \<Longrightarrow> length b \<le> length s"
  by (auto simp: digit_run_def length_dropWhile_le)

lemma number_fraction_length: "number_fraction s = (a, b) \<Longrightarrow> length b \<le> length s"
  by (auto simp: number_fraction_def split: list.splits if_splits dest!: digit_run_length)

lemma number_exponent_length: "number_exponent s = (a, b) \<Longrightarrow> length b \<le> length s"
  by (auto simp: number_exponent_def Let_def split: list.splits if_splits prod.splits dest!: digit_run_length)

lemma json_number_facts:
  "json_number neg s \<noteq> Inl AssertionError"
  "json_number neg s = Inr (v, r) \<Longrightarrow> length r < length s"
proof -
  obtain run aft where d: "digit_run s = (run, aft)" by (cases "digit_run s")
  then have len: "length s = length run + length aft"
    by (auto simp: digit_run_def takeWhile_dropWhile_id simp flip: length_append)
  define q where "q = (case run of [] \<Rightarrow> ([], s) | c # r \<Rightarrow> if c = CHR ''0'' then ([c], r @ aft) else (run, aft))"
  obtain ip s1 where q: "q = (ip, s1)" by (cases q)
  have l1: "ip \<noteq> [] \<Longrightarrow> length s1 < length s"
    using q len by (cases run) (auto simp: q_def split: if_splits)
  obtain fr s2 where f: "number_fraction s1 = (fr, s2)" by (cases "number_fraction s1")
  obtain e s3 where x: "number_exponent s2 = (e, s3)" by (cases "number_exponent s2")
  have n: "json_number neg s =
    (if ip = [] then Inl ValueError
     else if fr = [] \<and> e = None then
       (if max_int_digits < length ip then Inl ValueError
        else Inr (JInt (let n = int (the (num_of 0 ip)) in if neg then - n else n), s1))
     else Inr (JFloat (round64 (number_value neg ip fr (case e of None \<Rightarrow> 0 | Some k \<Rightarrow> k))), s3))"
    unfolding json_number_def d Let_def prod.case q_def [symmetric] q f x by simp
  show "json_number neg s \<noteq> Inl AssertionError" unfolding n by simp
  show "json_number neg s = Inr (v, r) \<Longrightarrow> length r < length s"
    unfolding n using l1 number_fraction_length [OF f] number_exponent_length [OF x]
    by (auto split: if_splits)
qed

lemma starts_with_length: "starts_with p s \<Longrightarrow> length p \<le> length s"
  unfolding starts_with_def by (metis length_take min.absorb_iff1 min.commute nle_le)

lemma json_scalar_facts:
  assumes "s = c # r'"
  shows "on_constant h \<noteq> Some AssertionError \<Longrightarrow> json_scalar h s \<noteq> Inl AssertionError"
    and "json_scalar h s = Inr (v, r) \<Longrightarrow> length r < length s"
proof -
  show "on_constant h \<noteq> Some AssertionError \<Longrightarrow> json_scalar h s \<noteq> Inl AssertionError"
    using json_string_no_assertion [of r'] json_number_facts(1)
    by (auto simp: json_scalar_def assms json_constant_def split: sum.splits prod.splits option.splits)
  show "json_scalar h s = Inr (v, r) \<Longrightarrow> length r < length s"
    by (auto simp: json_scalar_def assms json_constant_def split: sum.splits prod.splits option.splits if_splits
        dest!: json_string_length json_number_facts(2) starts_with_length)
qed

lemma skip_space_Cons: "skip_space r = c # t \<Longrightarrow> length t < length r"
  using skip_space_length [of r] by simp

lemma less_skip_space: "a < length (skip_space r) \<Longrightarrow> a < length r"
  using skip_space_length [of r] by simp

lemma json_rest_shorter:
  "json_value h n d s = Inr (v, r) \<Longrightarrow> length r < length s"
  "json_elements h n d s = Inr (vs, r) \<Longrightarrow> length r < length s"
  "json_members h n d s = Inr (ps, r) \<Longrightarrow> length r < length s"
proof (induction h n d s and h n d s and h n d s arbitrary: v r and vs r and ps r
    rule: json_value_json_elements_json_members.induct)
  case (2 h n d s)
  show ?case
  proof (cases s)
    case (Cons c r')
    define t where "t = skip_space r'"
    have l: "length t \<le> length r'" unfolding t_def by (rule skip_space_length)
    consider "c = CHR ''[''" | "c = CHR ''{''" | "c \<noteq> CHR ''[''" "c \<noteq> CHR ''{''" by blast
    then show ?thesis
    proof cases
      case 1
      show ?thesis
      proof (cases "t \<noteq> [] \<and> hd t = CHR '']''")
        case True
        then show ?thesis using 2(3) Cons 1 l by (auto simp: t_def [symmetric] split: if_splits)
      next
        case False
        then obtain xs where xs: "json_elements h n (d - 1) t = Inr (xs, r)" "d \<noteq> 0"
          using 2(3) Cons 1 by (auto simp: t_def [symmetric] continue_string_Inr split: if_splits)
        then have "length r < length t"
          using 2(1) [OF Cons 1 xs(2) t_def False xs(1)] by blast
        then show ?thesis using l Cons by simp
      qed
    next
      case 2
      show ?thesis
      proof (cases "t \<noteq> [] \<and> hd t = CHR ''}''")
        case True
        then show ?thesis using "2.prems" Cons 2 l by (auto simp: t_def [symmetric] split: if_splits)
      next
        case False
        then obtain xs where xs: "json_members h n (d - 1) t = Inr (xs, r)" "d \<noteq> 0"
          using "2.prems" Cons 2 by (auto simp: t_def [symmetric] split: if_splits sum.splits prod.splits)
        have "c \<noteq> CHR ''[''" using 2 by simp
        then have "length r < length t"
          using "2.IH"(2) [OF Cons _ 2 xs(2) t_def False xs(1)] by blast
        then show ?thesis using l Cons by simp
      qed
    next
      case 3
      then show ?thesis using "2.prems" json_scalar_facts(2) [OF Cons] Cons by simp
    qed
  qed (use "2.prems" in simp)
next
  case (4 h n d s)
  then obtain v r1 where v: "json_value h n d s = Inr (v, r1)" by (auto split: sum.splits)
  then obtain c t where t: "skip_space r1 = c # t" using 4 by (auto split: list.splits)
  have l: "length r1 < length s" "length t < length r1" using 4(1) [OF v] skip_space_Cons [OF t] by auto
  show ?case
  proof (cases "c = CHR '']''")
    case True
    then show ?thesis using 4(3) v t l by simp
  next
    case False
    then obtain vs' where "json_elements h n d (skip_space t) = Inr (vs', r)" "c = CHR '',''"
      using 4(3) v t by (auto simp: continue_string_Inr split: if_splits)
    then have "length r < length (skip_space t)" using 4(2) [OF v refl t False] by blast
    then show ?thesis using l less_skip_space by fastforce
  qed
next
  case (6 h n d s)
  then obtain r0 where s: "s = CHR 0x22 # r0" by (auto split: list.splits if_splits)
  then obtain k r1 where k: "json_string r0 = Inr (k, r1)" using 6(3) by (auto split: sum.splits)
  then obtain r2 where r2: "skip_space r1 = CHR '':'' # r2"
    using 6(3) s by (auto split: list.splits if_splits)
  obtain v r3 where v: "json_value h n d (skip_space r2) = Inr (v, r3)"
    using 6(3) s k r2 by (auto split: sum.splits)
  obtain b t where b: "skip_space r3 = b # t" using 6(3) s k r2 v by (auto split: list.splits)
  have "length r3 < length (skip_space r2)" using "6.IH"(1) s k r2 v by simp
  then have l: "length t < length s"
    using skip_space_Cons [OF b] less_skip_space skip_space_Cons [OF r2] json_string_length [OF k] s
    by fastforce
  show ?case
  proof (cases "b = CHR ''}''")
    case True
    then show ?thesis using 6(3) s k r2 v b l by simp
  next
    case False
    then obtain ps' where ps: "json_members h n d (skip_space t) = Inr (ps', r)" "b = CHR '',''"
      using 6(3) s k r2 v b by (auto simp: continue_string_Inr split: if_splits)
    then have "length r < length (skip_space t)" using "6.IH"(2) s k r2 v b False by simp
    then show ?thesis using l less_skip_space by fastforce
  qed
qed simp_all

text \<open>What the reader can raise: syntax errors, the nesting limit, and what the hooks raise.\<close>

definition json_error :: "json_hooks \<Rightarrow> exn \<Rightarrow> bool" where
  "json_error h e \<longleftrightarrow> e \<in> {ValueError, RecursionError, outside_model} \<or>
     on_duplicate h = Some e \<or> on_constant h = Some e"

lemma json_number_errors: "json_number neg s = Inl e \<Longrightarrow> e = ValueError"
  by (auto simp: json_number_def Let_def split: prod.splits if_splits)

lemma json_scalar_errors: "json_scalar h s = Inl e \<Longrightarrow> json_error h e"
  by (auto simp: json_scalar_def json_error_def json_constant_def
      split: list.splits if_splits sum.splits prod.splits option.splits
      dest!: json_string_errors json_number_errors)

lemma json_object_errors: "json_object h ps = Inl e \<Longrightarrow> json_error h e"
  by (auto simp: json_object_def json_error_def split: if_splits option.splits)

lemma json_errors:
  "2 * length s < n \<Longrightarrow> json_value h n d s = Inl e \<Longrightarrow> json_error h e"
  "2 * length s + 1 < n \<Longrightarrow> json_elements h n d s = Inl e \<Longrightarrow> json_error h e"
  "2 * length s + 1 < n \<Longrightarrow> json_members h n d s = Inl e \<Longrightarrow> json_error h e"
proof (induction h n d s and h n d s and h n d s arbitrary: e and e and e
    rule: json_value_json_elements_json_members.induct)
  case (2 h n d s)
  show ?case
  proof (cases s)
    case Nil
    then show ?thesis using "2.prems" by (simp add: json_error_def)
  next
    case (Cons c r')
    define t where "t = skip_space r'"
    have l: "length t \<le> length r'" unfolding t_def by (rule skip_space_length)
    then have f: "2 * length t + 1 < n" using "2.prems"(1) Cons by simp
    consider "d = 0" "c = CHR ''['' \<or> c = CHR ''{''" | "d \<noteq> 0" "c = CHR ''[''" | "d \<noteq> 0" "c = CHR ''{''"
      | "c \<noteq> CHR ''[''" "c \<noteq> CHR ''{''" by blast
    then show ?thesis
    proof cases
      case 1
      then show ?thesis using "2.prems" Cons by (auto simp: json_error_def)
    next
      case 2
      then have n: "\<not> (t \<noteq> [] \<and> hd t = CHR '']'')" "json_elements h n (d - 1) t = Inl e"
        using "2.prems"(2) Cons by (auto simp: t_def [symmetric] continue_string_Inl split: if_splits)
      show ?thesis using "2.IH"(1) [OF Cons 2(2) 2(1) t_def n(1) f n(2)] .
    next
      case 3
      have nb: "c \<noteq> CHR ''[''" using 3 by simp
      have n: "\<not> (t \<noteq> [] \<and> hd t = CHR ''}'')"
        using "2.prems"(2) Cons 3 by (auto simp: t_def [symmetric] split: if_splits)
      show ?thesis
      proof (cases "json_members h n (d - 1) t")
        case (Inl x)
        then have "e = x" using "2.prems"(2) Cons 3 n by (simp add: t_def [symmetric])
        then show ?thesis using "2.IH"(2) [OF Cons nb 3(2) 3(1) t_def n f Inl] by simp
      next
        case (Inr p)
        then have "json_object h (fst p) = Inl e"
          using "2.prems"(2) Cons 3 n by (auto simp: t_def [symmetric] split: prod.splits sum.splits)
        then show ?thesis by (rule json_object_errors)
      qed
    next
      case 4
      then show ?thesis using "2.prems"(2) json_scalar_errors Cons by simp
    qed
  qed
next
  case (4 h n d s)
  show ?case
  proof (cases "json_value h n d s")
    case (Inl x)
    then show ?thesis using "4.IH"(1) "4.prems" by simp
  next
    case (Inr p)
    then obtain v r1 where v: "json_value h n d s = Inr (v, r1)" by (cases p) simp
    have l: "length r1 < length s" using json_rest_shorter(1) [OF v] .
    show ?thesis
    proof (cases "skip_space r1")
      case Nil
      then show ?thesis using "4.prems"(2) v by (simp add: json_error_def)
    next
      case (Cons c t)
      have "length (skip_space t) \<le> length t" "length t < length r1"
        using skip_space_length skip_space_Cons [OF Cons] by auto
      then have f: "2 * length (skip_space t) + 1 < n" using l "4.prems"(1) by simp
      show ?thesis
      proof (cases "c = CHR '',''")
        case True
        then have "json_elements h n d (skip_space t) = Inl e"
          using "4.prems"(2) v Cons by (auto simp: continue_string_Inl)
        then show ?thesis using "4.IH"(2) v Cons True f by simp
      next
        case False
        then show ?thesis using "4.prems"(2) v Cons by (auto simp: json_error_def split: if_splits)
      qed
    qed
  qed
next
  case (6 h n d s)
  show ?case
  proof (cases "\<exists>r0 k r1 r2. s = CHR 0x22 # r0 \<and> json_string r0 = Inr (k, r1) \<and> skip_space r1 = CHR '':'' # r2")
    case False
    then show ?thesis
      using "6.prems"(2) by (auto simp: json_error_def split: list.splits if_splits sum.splits prod.splits
        dest!: json_string_errors)
  next
    case True
    then obtain r0 k r1 r2 where s: "s = CHR 0x22 # r0" "json_string r0 = Inr (k, r1)"
      "skip_space r1 = CHR '':'' # r2" by blast
    have l2: "length (skip_space r2) + 3 \<le> length s"
      using skip_space_length [of r2] skip_space_Cons [OF s(3)] json_string_length [OF s(2)] s(1) by simp
    show ?thesis
    proof (cases "json_value h n d (skip_space r2)")
      case (Inl x)
      then show ?thesis using "6.IH"(1) "6.prems" s l2 by simp
    next
      case (Inr p)
      then obtain v r3 where v: "json_value h n d (skip_space r2) = Inr (v, r3)" by (cases p) simp
      have l3: "length r3 < length (skip_space r2)" using json_rest_shorter(1) [OF v] .
      show ?thesis
      proof (cases "skip_space r3")
        case Nil
        then show ?thesis using "6.prems"(2) s v by (simp add: json_error_def)
      next
        case (Cons b t)
        have "length (skip_space t) \<le> length t" "length t < length r3"
          using skip_space_length skip_space_Cons [OF Cons] by auto
        then have f: "2 * length (skip_space t) + 1 < n" using l2 l3 "6.prems"(1) by simp
        show ?thesis
        proof (cases "b = CHR '',''")
          case True
          then have "json_members h n d (skip_space t) = Inl e"
            using "6.prems"(2) s v Cons by (auto simp: continue_string_Inl)
          then show ?thesis using "6.IH"(2) s v Cons True f by simp
        next
          case False
          then show ?thesis using "6.prems"(2) s v Cons by (auto simp: json_error_def split: if_splits)
        qed
      qed
    qed
  qed
qed simp_all

lemma json_loads_errors: "json_loads h limit s = Inl e \<Longrightarrow> json_error h e"
proof -
  assume e: "json_loads h limit s = Inl e"
  have "2 * length (skip_space s) < json_fuel s"
    using skip_space_length [of s] by (simp add: json_fuel_def)
  with e show ?thesis
    using json_errors(1) by (fastforce simp: json_loads_def json_error_def split: sum.splits if_splits)
qed

section \<open>Reading back what was written\<close>

text \<open>The writable documents of bounded nesting, and the order in which their members come back.\<close>

fun writable :: "nat \<Rightarrow> json \<Rightarrow> bool" where
  "writable d (JFloat x) = False"
| "writable d (JInt i) = (digit_count (nat \<bar>i\<bar>) \<le> max_int_digits)"
| "writable d (JArr xs) = (d \<noteq> 0 \<and> list_all (writable (d - 1)) xs)"
| "writable d (JObj ps) =
     (d \<noteq> 0 \<and> distinct (map fst ps) \<and> list_all (\<lambda>(k, v). writable (d - 1) v) ps)"
| "writable d v = True"

fun ordered :: "bool \<Rightarrow> json \<Rightarrow> json" where
  "ordered sk (JArr xs) = JArr (map (ordered sk) xs)"
| "ordered sk (JObj ps) = JObj (member_order sk (map (\<lambda>(k, v). (k, ordered sk v)) ps))"
| "ordered sk v = v"

text \<open>What may follow a value inside a document.\<close>

definition stops :: "string \<Rightarrow> bool" where
  "stops r \<longleftrightarrow> (r = [] \<or> hd r \<in> {CHR '','', CHR '']'', CHR ''}''})"

lemma of_char_bound: "of_char c < (256 :: nat)"
  by (metis of_char_mod_256 mod_less_divisor zero_less_numeral)

lemma hex_val_digit: "k < 16 \<Longrightarrow> hex_val (hex_digit k) = Some k"
  by (auto simp: hex_val_def hex_digit_def Let_def)

lemma json_string_escape:
  "json_string (escape_char ea c @ r) =
    (case json_string r of Inl x \<Rightarrow> Inl x | Inr (t, rest) \<Rightarrow> Inr (c # t, rest))"
proof -
  let ?v = "of_char c :: nat"
  consider "c \<in> {CHR 0x22, CHR 0x5C, CHR 0x08, CHR 0x0C, CHR 0x0A, CHR 0x0D, CHR 0x09}"
    | "c \<notin> {CHR 0x22, CHR 0x5C, CHR 0x08, CHR 0x0C, CHR 0x0A, CHR 0x0D, CHR 0x09}"
      "?v < 32 \<or> (ea \<and> 126 < ?v)"
    | "c \<notin> {CHR 0x22, CHR 0x5C, CHR 0x08, CHR 0x0C, CHR 0x0A, CHR 0x0D, CHR 0x09}"
      "\<not> (?v < 32 \<or> (ea \<and> 126 < ?v))" by blast
  then show ?thesis
  proof cases
    case 1
    then show ?thesis by (auto simp: escape_char_def simple_escape_def)
  next
    case 2
    have v: "?v < 256" by (rule of_char_bound)
    then have d: "?v div 16 < 16" "?v mod 16 < 16" by (simp_all add: less_mult_imp_div_less)
    have z: "hex_val (CHR ''0'') = Some 0" by code_simp
    have "\<not> 256 \<le> ?v" using v unfolding not_le .
    then show ?thesis
      using 2 by (simp add: escape_char_def Let_def z hex_val_digit d split: sum.split prod.split)
  next
    case 3
    then have "escape_char ea c = [c]" by (auto simp: escape_char_def Let_def)
    then show ?thesis using 3 by simp
  qed
qed

lemma json_string_dumps: "json_string (concat (map (escape_char ea) s) @ CHR 0x22 # r) = Inr (s, r)"
  by (induction s) (simp_all add: json_string_escape del: json_string.simps(2), simp)

lemma is_digit_dig [simp]: "is_digit (dig n)"
  by (simp add: is_digit_def)

lemma digits_all: "\<forall>c \<in> set (digits k n). is_digit c"
  using set_digits is_digit_dig by metis

lemma stops_not_digit: "stops r \<Longrightarrow> r = [] \<or> \<not> is_digit (hd r)"
  by (auto simp: stops_def is_digit_def digit_val_def Let_def)

lemma digit_run_text:
  assumes "stops r"
  shows "digit_run (nat_text n @ r) = (nat_text n, r)"
proof -
  have a: "\<forall>c \<in> set (nat_text n). is_digit c" unfolding nat_text_def by (rule digits_all)
  have "takeWhile is_digit r = []" "dropWhile is_digit r = r"
    using stops_not_digit [OF assms] by (cases r; auto)+
  then show ?thesis using a by (simp add: digit_run_def takeWhile_append2 dropWhile_append2)
qed

lemma digit_count_bound: "n < 10 ^ digit_count n"
proof (induction n rule: digit_count.induct)
  case (1 n)
  show ?case
  proof (cases "n < 10")
    case True
    then show ?thesis by (simp add: digit_count.simps)
  next
    case False
    then have "n div 10 < 10 ^ digit_count (n div 10)" using 1 by simp
    then have "n < 10 * 10 ^ digit_count (n div 10)" by linarith
    then show ?thesis using False by (subst digit_count.simps) simp
  qed
qed

lemma num_of_text [simp]: "num_of 0 (nat_text n) = Some n"
  using digit_count_bound [of n] by (simp add: nat_text_def num_of_digits)

lemma length_text [simp]: "length (nat_text n) = digit_count n"
  by (simp add: nat_text_def)

lemma digit_count_pos: "0 < digit_count n"
  by (subst digit_count.simps) simp

lemma nat_text_Cons: "\<exists>m r. nat_text n = dig m # r \<and> (m mod 10 = 0 \<longrightarrow> n = 0 \<and> r = [])"
proof (induction n rule: digit_count.induct)
  case (1 n)
  show ?case
  proof (cases "n < 10")
    case True
    then have "nat_text n = dig n # [] \<and> (n mod 10 = 0 \<longrightarrow> n = 0)"
      by (simp add: nat_text_def digit_count.simps)
    then show ?thesis by (intro exI [of _ n] exI [of _ "[]"]) simp
  next
    case False
    then obtain m r where m: "nat_text (n div 10) = dig m # r" "m mod 10 = 0 \<longrightarrow> n div 10 = 0 \<and> r = []"
      using 1 by auto
    have "nat_text n = nat_text (n div 10) @ [dig n]"
      using False unfolding nat_text_def by (subst digit_count.simps) simp
    then show ?thesis using m False by (intro exI [of _ m] exI [of _ "r @ [dig n]"]) auto
  qed
qed

lemma dig_zero_iff: "dig m = CHR ''0'' \<longleftrightarrow> m mod 10 = 0"
proof
  assume "dig m = CHR ''0''"
  then have "of_char (dig m) = (of_char (CHR ''0'') :: nat)" by simp
  then show "m mod 10 = 0" by simp
next
  have "(char_of (48 :: nat) :: char) = CHR ''0''" by code_simp
  then show "m mod 10 = 0 \<Longrightarrow> dig m = CHR ''0''" by (simp add: dig_def)
qed

lemma json_number_text:
  assumes "stops r" "digit_count n \<le> max_int_digits"
  shows "json_number neg (nat_text n @ r) = Inr (JInt (if neg then - int n else int n), r)"
proof -
  obtain m t where m: "nat_text n = dig m # t" "m mod 10 = 0 \<longrightarrow> n = 0 \<and> t = []"
    using nat_text_Cons [of n] by auto
  have split: "(case nat_text n of [] \<Rightarrow> ([], nat_text n @ r)
      | c # u \<Rightarrow> if c = CHR ''0'' then ([c], u @ r) else (nat_text n, r)) = (nat_text n, r)"
    using m by (auto simp: dig_zero_iff)
  have f: "number_fraction r = ([], r)" "number_exponent r = (None, r)"
    using assms(1) by (cases r; auto simp: number_fraction_def number_exponent_def stops_def)+
  have "nat_text n \<noteq> []" using m by simp
  then show ?thesis
    using assms(2) by (simp add: json_number_def digit_run_text [OF assms(1)] split f Let_def not_less)
qed

lemma dig_nonpunct: "digit_val c = None \<Longrightarrow> dig m \<noteq> c"
  by (rule dig_neq)

lemma json_scalar_int:
  assumes "stops r" "digit_count (nat \<bar>i\<bar>) \<le> max_int_digits"
  shows "json_scalar h (int_text i @ r) = Inr (JInt i, r) \<and>
    (\<exists>c t. int_text i = c # t \<and> c \<notin> {CHR ''['', CHR ''{'', CHR '']'', CHR ''}''} \<and> \<not> json_space c)"
proof -
  have punct: "dig m \<notin> {CHR ''['', CHR ''{'', CHR '']'', CHR ''}'', CHR 0x22, CHR ''n'', CHR ''t'', CHR ''f'',
      CHR ''N'', CHR ''I'', CHR ''-'', CHR '' '', CHR 0x09, CHR 0x0A, CHR 0x0D}" for m
    by (simp add: dig_nonpunct digit_val_def)
  obtain m t where m: "nat_text (nat \<bar>i\<bar>) = dig m # t"
    using nat_text_Cons [of "nat \<bar>i\<bar>"] by auto
  note num = json_number_text [OF assms, of True] json_number_text [OF assms, of False]
  show ?thesis
  proof (cases "i < 0")
    case True
    then have "int_text i = CHR ''-'' # dig m # t" "int_text i = CHR ''-'' # nat_text (nat \<bar>i\<bar>)"
      using m by (simp_all add: int_text_def)
    then show ?thesis
      using num(1) True punct [of m] m
      by (auto simp: json_scalar_def starts_with_def json_space_def)
  next
    case False
    then have "int_text i = dig m # t" "int_text i = nat_text (nat \<bar>i\<bar>)"
      using m by (simp_all add: int_text_def)
    then show ?thesis
      using num(2) False punct [of m] m
      by (auto simp: json_scalar_def starts_with_def json_space_def)
  qed
qed

lemma json_scalar_string:
  "json_scalar h (dumps_string ea s @ r) = Inr (JStr s, r)"
  by (simp add: json_scalar_def dumps_string_def json_string_dumps)

text \<open>The first character of a value is not white space and closes nothing.\<close>

lemma dumps_head:
  "writable d v \<Longrightarrow> \<exists>c t. json_dumps sk ea v = c # t \<and> \<not> json_space c \<and> c \<noteq> CHR '']'' \<and> c \<noteq> CHR ''}''"
proof (cases v)
  case (JInt i)
  assume "writable d v"
  then have "\<exists>c t. int_text i = c # t \<and> c \<notin> {CHR ''['', CHR ''{'', CHR '']'', CHR ''}''} \<and> \<not> json_space c"
    using JInt json_scalar_int [of "[]" i] by (simp add: stops_def)
  then show ?thesis using JInt by auto
qed (auto simp: json_space_def dumps_string_def)

lemma skip_space_head [simp]: "\<not> json_space c \<Longrightarrow> skip_space (c # t) = c # t"
  by (simp add: skip_space_def)

lemma skip_space_value:
  assumes "writable d v"
  shows "skip_space (json_dumps sk ea v @ r) = json_dumps sk ea v @ r"
  using dumps_head [OF assms, of sk ea] by auto

lemma not_json_space [simp]:
  "\<not> json_space (CHR '','')" "\<not> json_space (CHR '']'')" "\<not> json_space (CHR ''}'')" "\<not> json_space (CHR '':'')"
  "\<not> json_space (CHR 0x22)"
  by (simp_all add: json_space_def)

lemma stops_simps [simp]: "stops []" "stops (CHR '','' # r)" "stops (CHR '']'' # r)" "stops (CHR ''}'' # r)"
  by (simp_all add: stops_def)

text \<open>Reading one value back, given that it works for its parts.\<close>

definition reads_back :: "json_hooks \<Rightarrow> bool \<Rightarrow> bool \<Rightarrow> nat \<Rightarrow> json \<Rightarrow> bool" where
  "reads_back h sk ea d v \<longleftrightarrow>
     (\<forall>n r. stops r \<longrightarrow> 2 * length (json_dumps sk ea v @ r) < n \<longrightarrow>
        json_value h n d (json_dumps sk ea v @ r) = Inr (ordered sk v, r))"

lemma elements_read_back:
  assumes "xs \<noteq> []" "\<And>x. x \<in> set xs \<Longrightarrow> writable d x \<and> reads_back h sk ea d x"
    and "2 * length (join_with '','' (map (json_dumps sk ea) xs) @ CHR '']'' # r) + 1 < n"
  shows "json_elements h n d (join_with '','' (map (json_dumps sk ea) xs) @ CHR '']'' # r) =
    Inr (map (ordered sk) xs, r)"
  using assms
proof (induction xs arbitrary: n rule: list_nonempty_induct)
  case (single x)
  then obtain m where n: "n = Suc m" by (cases n) auto
  have "json_value h m d (json_dumps sk ea x @ CHR '']'' # r) = Inr (ordered sk x, CHR '']'' # r)"
    using single n by (auto simp: reads_back_def)
  then show ?case using n by simp
next
  case (cons x xs)
  then obtain m where n: "n = Suc m" by (cases n) auto
  let ?rest = "join_with '','' (map (json_dumps sk ea) xs) @ CHR '']'' # r"
  obtain y ys where xs: "xs = y # ys" using cons.hyps by (cases xs) auto
  have j: "join_with '','' (map (json_dumps sk ea) (x # xs)) @ CHR '']'' # r =
      json_dumps sk ea x @ CHR '','' # ?rest"
    by (simp add: xs)
  have v: "json_value h m d (json_dumps sk ea x @ CHR '','' # ?rest) = Inr (ordered sk x, CHR '','' # ?rest)"
    using cons.prems n unfolding j by (auto simp: reads_back_def)
  have "json_elements h m d ?rest = Inr (map (ordered sk) xs, r)"
    using cons.prems n unfolding j by (intro cons.IH) auto
  moreover have "skip_space ?rest = ?rest"
    using skip_space_value [of d y sk ea] cons.prems(1) xs by (cases ys) auto
  ultimately show ?case unfolding j n by (simp add: v)
qed

definition member_text :: "bool \<Rightarrow> string \<times> string \<Rightarrow> string" where
  "member_text ea p = (case p of (k, t) \<Rightarrow> dumps_string ea k @ '':'' @ t)"

lemma members_read_back:
  assumes "ps \<noteq> []" "\<And>k v. (k, v) \<in> set ps \<Longrightarrow> writable d v \<and> reads_back h sk ea d v"
    and "2 * length (join_with '','' (map (\<lambda>(k, v). member_text ea (k, json_dumps sk ea v)) ps) @ CHR ''}'' # r) + 1 < n"
  shows "json_members h n d (join_with '','' (map (\<lambda>(k, v). member_text ea (k, json_dumps sk ea v)) ps) @ CHR ''}'' # r) =
    Inr (map (\<lambda>(k, v). (k, ordered sk v)) ps, r)"
  using assms
proof (induction ps arbitrary: n rule: list_nonempty_induct)
  case (single p)
  obtain k v where p: "p = (k, v)" by (cases p)
  obtain m where n: "n = Suc m" using single by (cases n) auto
  have "json_value h m d (json_dumps sk ea v @ CHR ''}'' # r) = Inr (ordered sk v, CHR ''}'' # r)"
    using single n p by (auto simp: reads_back_def member_text_def dumps_string_def)
  moreover have "skip_space (json_dumps sk ea v @ CHR ''}'' # r) = json_dumps sk ea v @ CHR ''}'' # r"
    using single p by (intro skip_space_value [of d]) auto
  ultimately show ?case using n p by (simp add: member_text_def dumps_string_def json_string_dumps)
next
  case (cons p ps)
  obtain k v where p: "p = (k, v)" by (cases p)
  note prems = cons.prems [unfolded p]
  obtain m where n: "n = Suc m" using prems by (cases n) auto
  let ?rest = "join_with '','' (map (\<lambda>(k, v). member_text ea (k, json_dumps sk ea v)) ps) @ CHR ''}'' # r"
  obtain y ys where ps: "ps = y # ys" using cons.hyps by (cases ps) auto
  have j: "join_with '','' (map (\<lambda>(k, v). member_text ea (k, json_dumps sk ea v)) ((k, v) # ps)) @ CHR ''}'' # r =
      member_text ea (k, json_dumps sk ea v) @ CHR '','' # ?rest"
    by (simp add: ps)
  have len: "2 * length (member_text ea (k, json_dumps sk ea v) @ CHR '','' # ?rest) + 1 < n"
    using prems(2) unfolding j .
  then have l1: "2 * length (json_dumps sk ea v @ CHR '','' # ?rest) < m" and l2: "2 * length ?rest + 1 < m"
    using n by (simp_all add: member_text_def dumps_string_def)
  have v: "json_value h m d (json_dumps sk ea v @ CHR '','' # ?rest) = Inr (ordered sk v, CHR '','' # ?rest)"
    using prems(1) [of k v] l1 by (simp add: reads_back_def)
  have m: "json_members h m d ?rest = Inr (map (\<lambda>(k, v). (k, ordered sk v)) ps, r)"
    using prems(1) l2 by (intro cons.IH) auto
  have sk: "skip_space (json_dumps sk ea v @ CHR '','' # ?rest) = json_dumps sk ea v @ CHR '','' # ?rest"
    using prems(1) by (intro skip_space_value [of d]) auto
  have "skip_space ?rest = ?rest"
    using ps by (cases y; cases ys) (auto simp: member_text_def dumps_string_def)
  then show ?case unfolding p j n
    using v m sk by (simp add: member_text_def dumps_string_def json_string_dumps)
qed

lemma insort_key_map_fst:
  "insort_key fst (k, f v) (map (\<lambda>(k, v). (k, f v)) ps) = map (\<lambda>(k, v). (k, f v)) (insort_key fst (k, v) ps)"
  by (induction ps) auto

lemma sort_key_map_fst:
  "sort_key fst (map (\<lambda>(k, v). (k, f v)) ps) = map (\<lambda>(k, v). (k, f v)) (sort_key fst ps)"
  by (induction ps) (auto simp: insort_key_map_fst)

lemma member_order_map:
  "member_order sk (map (\<lambda>(k, v). (k, f v)) ps) = map (\<lambda>(k, v). (k, f v)) (member_order sk ps)"
  by (simp add: member_order_def sort_key_map_fst)

lemma set_member_order [simp]: "set (member_order sk ps) = set ps"
  by (simp add: member_order_def)

lemma member_order_Nil [simp]: "member_order sk ps = [] \<longleftrightarrow> ps = []"
  by (metis set_empty set_member_order)

lemma distinct_member_order:
  "distinct (map fst ps) \<Longrightarrow> distinct (map fst (member_order sk ps))"
  by (metis member_order_def distinct_map distinct_sort set_sort)

lemma dumps_object:
  "json_dumps sk ea (JObj ps) =
    CHR ''{'' # join_with '','' (map (\<lambda>(k, v). member_text ea (k, json_dumps sk ea v)) (member_order sk ps)) @ ''}''"
proof -
  have "map (\<lambda>(k, t). dumps_string ea k @ '':'' @ t) (map (\<lambda>(k, v). (k, json_dumps sk ea v)) qs) =
      map (\<lambda>(k, v). member_text ea (k, json_dumps sk ea v)) qs" for qs
    by (induction qs) (auto simp: member_text_def)
  then show ?thesis by (simp only: json_dumps.simps member_order_map append_Cons append_Nil)
qed

lemma scalar_reads_back:
  assumes "\<And>r. stops r \<Longrightarrow> json_scalar h (json_dumps sk ea v @ r) = Inr (v, r)" "ordered sk v = v"
    and "\<exists>c t. json_dumps sk ea v = c # t \<and> c \<noteq> CHR ''['' \<and> c \<noteq> CHR ''{''"
  shows "reads_back h sk ea d v"
  unfolding reads_back_def
proof (intro allI impI)
  fix n r assume r: "stops r" and "2 * length (json_dumps sk ea v @ r) < n"
  then obtain m where n: "n = Suc m" by (cases n) auto
  obtain c t where c: "json_dumps sk ea v = c # t" "c \<noteq> CHR ''[''" "c \<noteq> CHR ''{''" using assms(3) by blast
  show "json_value h n d (json_dumps sk ea v @ r) = Inr (ordered sk v, r)"
    using assms(1) [OF r] assms(2) c n by simp
qed

lemma json_reads_back: "writable d v \<Longrightarrow> reads_back h sk ea d v"
proof (induction v arbitrary: d)
  case JNull
  show ?case by (rule scalar_reads_back) (simp_all add: json_scalar_def starts_with_def)
next
  case (JBool b)
  show ?case by (rule scalar_reads_back) (simp_all add: json_scalar_def starts_with_def)
next
  case (JInt i)
  have "\<exists>c t. int_text i = c # t \<and> c \<notin> {CHR ''['', CHR ''{'', CHR '']'', CHR ''}''} \<and> \<not> json_space c"
    using JInt json_scalar_int [of "[]" i] by simp
  then show ?case
    using json_scalar_int JInt by (intro scalar_reads_back) auto
next
  case (JFloat x)
  then show ?case by simp
next
  case (JStr s)
  show ?case
    by (rule scalar_reads_back) (simp_all add: json_scalar_string, simp add: dumps_string_def)
next
  case (JArr xs)
  show ?case
    unfolding reads_back_def
  proof (intro allI impI)
    fix n r assume f: "2 * length (json_dumps sk ea (JArr xs) @ r) < n"
    then obtain m where n: "n = Suc m" by (cases n) auto
    have d: "d \<noteq> 0" "\<And>x. x \<in> set xs \<Longrightarrow> writable (d - 1) x"
      using JArr.prems by (simp_all add: list_all_iff)
    show "json_value h n d (json_dumps sk ea (JArr xs) @ r) = Inr (ordered sk (JArr xs), r)"
    proof (cases "xs = []")
      case True
      then show ?thesis using n d by simp
    next
      case False
      let ?t = "join_with '','' (map (json_dumps sk ea) xs) @ CHR '']'' # r"
      have "json_elements h m (d - 1) ?t = Inr (map (ordered sk) xs, r)"
        using False JArr.IH d f n by (intro elements_read_back) auto
      moreover obtain c q where "?t = c # q" "\<not> json_space c" "c \<noteq> CHR '']''"
        using dumps_head [OF d(2), of "hd xs" sk ea] False by (cases xs; cases "tl xs") auto
      ultimately show ?thesis using n d by (simp add: Let_def)
    qed
  qed
next
  case (JObj ps)
  show ?case
    unfolding reads_back_def
  proof (intro allI impI)
    fix n r assume f: "2 * length (json_dumps sk ea (JObj ps) @ r) < n"
    then obtain m where n: "n = Suc m" by (cases n) auto
    have d: "d \<noteq> 0" "distinct (map fst ps)" "\<And>k v. (k, v) \<in> set ps \<Longrightarrow> writable (d - 1) v"
      using JObj.prems by (auto simp: list_all_iff)
    have ih: "(k, v) \<in> set ps \<Longrightarrow> reads_back h sk ea (d - 1) v" for k v
      using JObj.IH [of "(k, v)" v "d - 1"] d(3) by auto
    show "json_value h n d (json_dumps sk ea (JObj ps) @ r) = Inr (ordered sk (JObj ps), r)"
    proof (cases "ps = []")
      case True
      then show ?thesis using n d by (simp add: member_order_def)
    next
      case False
      let ?qs = "member_order sk ps"
      let ?t = "join_with '','' (map (\<lambda>(k, v). member_text ea (k, json_dumps sk ea v)) ?qs) @ CHR ''}'' # r"
      have t: "json_dumps sk ea (JObj ps) @ r = CHR ''{'' # ?t" unfolding dumps_object by simp
      have "json_members h m (d - 1) ?t = Inr (map (\<lambda>(k, v). (k, ordered sk v)) ?qs, r)"
        using False ih d f n unfolding t by (intro members_read_back) auto
      moreover obtain k v rest where "?qs = (k, v) # rest" using False by (cases ?qs) auto
      then have "\<exists>q. ?t = CHR 0x22 # q"
        by (cases rest) (auto simp: member_text_def dumps_string_def)
      moreover have "distinct (map fst (map (\<lambda>(k, v). (k, ordered sk v)) ?qs))"
        using distinct_member_order [OF d(2), of sk] by (simp add: comp_def case_prod_beta)
      ultimately show ?thesis
        using n d unfolding t by (auto simp: Let_def json_object_def member_order_map)
    qed
  qed
qed

lemma json_loads_dumps:
  assumes "writable limit v"
  shows "json_loads h limit (json_dumps sk ea v) = Inr (ordered sk v)"
proof -
  have "json_value h (json_fuel (json_dumps sk ea v)) limit (json_dumps sk ea v @ []) = Inr (ordered sk v, [])"
    using json_reads_back [OF assms, of h sk ea, unfolded reads_back_def, rule_format, of "[]"]
    by (simp add: json_fuel_def del: json_value.simps)
  then show ?thesis
    using skip_space_value [OF assms, of sk ea "[]"] by (simp add: json_loads_def skip_space_def del: json_value.simps)
qed

lemma writable_printable: "writable d v \<Longrightarrow> printable v"
  by (induction d v rule: writable.induct) (auto simp: list_all_iff)

text \<open>With a hook for repeated keys, the members of a document have distinct keys.\<close>

lemma constant_no_object: "json_constant h x r \<noteq> Inr (JObj ps, rest)"
  by (simp add: json_constant_def split: option.splits)

lemma number_no_object: "json_number neg s \<noteq> Inr (JObj ps, rest)"
  by (simp add: json_number_def Let_def split: list.splits prod.splits option.splits)

lemma scalar_no_object: "json_scalar h s \<noteq> Inr (JObj ps, rest)"
  using constant_no_object number_no_object by (auto simp: json_scalar_def split: list.splits sum.splits)

lemma object_keys_distinct:
  assumes "json_loads h limit s = Inr (JObj ps)" "on_duplicate h = Some e"
  shows "distinct (map fst ps)"
proof -
  obtain rest where v: "json_value h (json_fuel s) limit (skip_space s) = Inr (JObj ps, rest)"
    using assms(1) by (auto simp: json_loads_def split: sum.splits if_splits)
  obtain n where n: "json_fuel s = Suc n" by (simp add: json_fuel_def)
  show ?thesis
    using v assms(2) scalar_no_object unfolding n
    by (auto simp: json_object_def Let_def split: list.splits sum.splits if_splits)
qed

text \<open>With \<open>ensure_ascii\<close> the text is ASCII.\<close>

definition ascii :: "string \<Rightarrow> bool" where
  "ascii s \<longleftrightarrow> list_all (\<lambda>c. of_char c < (128 :: nat)) s"

lemma ascii_append [simp]: "ascii (s @ t) \<longleftrightarrow> ascii s \<and> ascii t"
  by (simp add: ascii_def)

lemma ascii_Cons [simp]: "ascii (c # t) \<longleftrightarrow> of_char c < (128 :: nat) \<and> ascii t"
  by (simp add: ascii_def)

lemma ascii_Nil [simp]: "ascii []"
  by (simp add: ascii_def)

lemma ascii_escape: "ascii (escape_char True c)"
proof -
  have "of_char (hex_digit (v div 16)) < (128 :: nat)" "of_char (hex_digit (v mod 16)) < (128 :: nat)"
    if "v < 256" for v :: nat
    using that by (auto simp: hex_digit_def of_char_of)
  then show ?thesis
    using of_char_bound [of c] by (auto simp: escape_char_def Let_def)
qed

lemma ascii_concat: "(\<And>x. x \<in> set xs \<Longrightarrow> ascii x) \<Longrightarrow> ascii (concat xs)"
  by (induction xs) auto

lemma ascii_dumps_string: "ascii (dumps_string True s)"
  by (auto simp: dumps_string_def ascii_escape intro!: ascii_concat)

lemma ascii_join: "ascii sep \<Longrightarrow> (\<And>x. x \<in> set xs \<Longrightarrow> ascii x) \<Longrightarrow> ascii (join_with sep xs)"
  by (induction sep xs rule: join_with.induct) auto

lemma is_digit_ascii: "is_digit c \<Longrightarrow> of_char c < (128 :: nat)"
  by (auto simp: is_digit_def digit_val_def Let_def split: if_splits)

lemma ascii_nat_text: "ascii (nat_text n)"
  using digits_all [of "digit_count n" n] is_digit_ascii by (simp add: nat_text_def ascii_def list_all_iff)

lemma ascii_dumps: "writable d v \<Longrightarrow> ascii (json_dumps sk True v)"
proof (induction d v rule: writable.induct)
  case (3 d xs)
  then show ?case by (auto simp: list_all_iff intro!: ascii_join)
next
  case (4 d ps)
  then have "ascii (json_dumps sk True v)" if "(k, v) \<in> set ps" for k v
    using that by (fastforce simp: list_all_iff)
  then show ?case by (auto simp: ascii_dumps_string intro!: ascii_join)
qed (auto simp: ascii_dumps_string int_text_def ascii_nat_text)

end
