(* ===== verification/Deadman_Codec.thy ===== *)
theory Deadman_Codec
  imports Deadman Py_Json
begin

text \<open>
  The codec of \<open>deadman.py\<close>: the persisted JSON document of a status, and its strict decoding.
  The interpreter's nesting limit is an argument of decoding.
\<close>

section \<open>Encoding\<close>

definition schema_version_4 :: int where "schema_version_4 = 4"

fun state_value :: "deadman_state \<Rightarrow> string" where
  "state_value DmUnknown = ''unknown''"
| "state_value DmUp = ''up''"
| "state_value DmDown = ''down''"

fun kind_value :: "dm_kind \<Rightarrow> string" where
  "kind_value DmDownKind = ''down''"
| "kind_value DmRecoveredKind = ''recovered''"

text \<open>\<open>DeadManProbeResponse.__repr__\<close>: counts and lengths, no content\<close>

definition probe_response_repr :: "probe_response \<Rightarrow> string" where
  "probe_response_repr r =
     ''DeadManProbeResponse(status='' @ int_text (pr_status r) @ '', allow_headers='' @
     nat_text (length (pr_allow_headers r)) @ '' values, body_length='' @ nat_text (length (pr_body r)) @ '')''"

definition encode_datetime :: "datetime \<Rightarrow> string res" where
  "encode_datetime d = bind_res (astimezone_utc d) (\<lambda>u. Inr (isoformat u))"

definition encode_transition :: "dm_transition \<Rightarrow> json res" where
  "encode_transition t =
     bind_res (encode_datetime (dt_at t)) (\<lambda>text.
       Inr (JObj [(''from_state'', JStr (state_value (dt_from t))),
                  (''to_state'', JStr (state_value (dt_to t))),
                  (''at'', JStr text)]))"

definition encode_notification :: "dm_notification \<Rightarrow> json res" where
  "encode_notification n =
     bind_res (encode_transition (dn_transition n)) (\<lambda>t.
       Inr (JObj [(''notification_id'', JInt (dn_id n)), (''kind'', JStr (kind_value (dn_kind n))),
                  (''transition'', t)]))"

definition encode_current :: "dm_current_down option \<Rightarrow> json" where
  "encode_current c =
     (case c of
        None \<Rightarrow> JNull
      | Some b \<Rightarrow> JObj [(''notification_id'', JInt (cd_id b)), (''acknowledged'', JBool (cd_acknowledged b))])"

definition encode_document :: "dm_status \<Rightarrow> json res" where
  "encode_document s =
     bind_res (case ds_changed_at s of None \<Rightarrow> Inr JNull
               | Some a \<Rightarrow> bind_res (encode_datetime a) (\<lambda>t. Inr (JStr t))) (\<lambda>changed.
     bind_res (map_res encode_notification (ds_pending s)) (\<lambda>pending.
       Inr (JObj [(''schema_version'', JInt schema_version_4),
                  (''state'', JStr (state_value (ds_state s))),
                  (''consecutive_failures'', JInt (ds_failures s)),
                  (''consecutive_successes'', JInt (ds_successes s)),
                  (''state_changed_at'', changed),
                  (''pending_notifications'', JArr pending),
                  (''next_notification_id'', JInt (ds_next_id s)),
                  (''current_down'', encode_current (ds_current s))])))"

definition encode_deadman_status :: "dm_status \<Rightarrow> string res" where
  "encode_deadman_status s = bind_res (encode_document s) (json_dumps_checked True True)"

section \<open>Decoding\<close>

definition state_fields :: "string list" where
  "state_fields =
     [''schema_version'', ''state'', ''consecutive_failures'', ''consecutive_successes'',
      ''state_changed_at'', ''pending_notifications'', ''next_notification_id'', ''current_down'']"

definition transition_fields :: "string list" where
  "transition_fields = [''from_state'', ''to_state'', ''at'']"

definition notification_fields :: "string list" where
  "notification_fields = [''notification_id'', ''kind'', ''transition'']"

definition current_down_fields :: "string list" where
  "current_down_fields = [''notification_id'', ''acknowledged'']"

abbreviation decode_error :: "'a res" where
  "decode_error \<equiv> Inl DeadManStateDecodeError"

definition require_exact_keys :: "(string \<times> json) list \<Rightarrow> string list \<Rightarrow> unit res" where
  "require_exact_keys mapping expected =
     raise_if (set (map fst mapping) \<noteq> set expected) DeadManStateDecodeError"

text \<open>\<open>mapping[key]\<close>, after the key set was checked\<close>

definition field :: "(string \<times> json) list \<Rightarrow> string \<Rightarrow> json" where
  "field mapping key = (case map_of mapping key of None \<Rightarrow> JNull | Some v \<Rightarrow> v)"

definition decode_state_value :: "json \<Rightarrow> deadman_state res" where
  "decode_state_value v =
     (case v of
        JStr s \<Rightarrow> (case map_of [(''unknown'', DmUnknown), (''up'', DmUp), (''down'', DmDown)] s of
                     None \<Rightarrow> decode_error | Some st \<Rightarrow> Inr st)
      | _ \<Rightarrow> decode_error)"

definition decode_notification_kind :: "json \<Rightarrow> dm_kind res" where
  "decode_notification_kind v =
     (case v of
        JStr s \<Rightarrow> (case map_of [(''down'', DmDownKind), (''recovered'', DmRecoveredKind)] s of
                     None \<Rightarrow> decode_error | Some k \<Rightarrow> Inr k)
      | _ \<Rightarrow> decode_error)"

definition decode_counter :: "json \<Rightarrow> int res" where
  "decode_counter v = (case v of JInt i \<Rightarrow> (if i < 0 then decode_error else Inr i) | _ \<Rightarrow> decode_error)"

definition decode_notification_id :: "json \<Rightarrow> int res" where
  "decode_notification_id v = (case v of JInt i \<Rightarrow> (if i < 1 then decode_error else Inr i) | _ \<Rightarrow> decode_error)"

definition decode_bool :: "json \<Rightarrow> bool res" where
  "decode_bool v = (case v of JBool b \<Rightarrow> Inr b | _ \<Rightarrow> decode_error)"

definition decode_datetime :: "json \<Rightarrow> datetime res" where
  "decode_datetime v =
     (case v of
        JStr s \<Rightarrow>
          (case fromisoformat s of
             None \<Rightarrow> decode_error
           | Some d \<Rightarrow> if tz d = NoTzinfo \<or> utcoffset (tz d) = None then decode_error else Inr d)
      | _ \<Rightarrow> decode_error)"

definition decode_optional_datetime :: "json \<Rightarrow> datetime option res" where
  "decode_optional_datetime v = (if v = JNull then Inr None else map_sum id Some (decode_datetime v))"

text \<open>\<open>except ValueError as error: raise DeadManStateDecodeError\<close>\<close>

definition as_decode_error :: "'a res \<Rightarrow> 'a res" where
  "as_decode_error m = catch_res m is_value_error (\<lambda>_. decode_error)"

definition decode_transition :: "json \<Rightarrow> dm_transition res" where
  "decode_transition v =
     (case v of
        JObj ps \<Rightarrow>
          bind_res (require_exact_keys ps transition_fields) (\<lambda>_.
            as_decode_error
              (bind_res (decode_state_value (field ps ''from_state'')) (\<lambda>f.
               bind_res (decode_state_value (field ps ''to_state'')) (\<lambda>t.
               bind_res (decode_datetime (field ps ''at'')) (\<lambda>d.
                 validated transition_post_init \<lparr>dt_from = f, dt_to = t, dt_at = d\<rparr>)))))
      | _ \<Rightarrow> decode_error)"

definition decode_notification :: "json \<Rightarrow> dm_notification res" where
  "decode_notification v =
     (case v of
        JObj ps \<Rightarrow>
          bind_res (require_exact_keys ps notification_fields) (\<lambda>_.
          bind_res (decode_notification_kind (field ps ''kind'')) (\<lambda>k.
          bind_res (decode_transition (field ps ''transition'')) (\<lambda>t.
            as_decode_error
              (bind_res (decode_notification_id (field ps ''notification_id'')) (\<lambda>i.
                 validated notification_post_init \<lparr>dn_id = i, dn_kind = k, dn_transition = t\<rparr>)))))
      | _ \<Rightarrow> decode_error)"

definition decode_notifications :: "json \<Rightarrow> dm_notification list res" where
  "decode_notifications v = (case v of JArr xs \<Rightarrow> map_res decode_notification xs | _ \<Rightarrow> decode_error)"

definition decode_current_down :: "json \<Rightarrow> dm_current_down option res" where
  "decode_current_down v =
     (if v = JNull then Inr None
      else case v of
        JObj ps \<Rightarrow>
          bind_res (require_exact_keys ps current_down_fields) (\<lambda>_.
            as_decode_error
              (bind_res (decode_notification_id (field ps ''notification_id'')) (\<lambda>i.
               bind_res (decode_bool (field ps ''acknowledged'')) (\<lambda>b.
                 map_sum id Some (validated current_down_post_init \<lparr>cd_id = i, cd_acknowledged = b\<rparr>)))))
      | _ \<Rightarrow> decode_error)"

definition decode_document :: "json \<Rightarrow> dm_status res" where
  "decode_document document =
     (case document of
        JObj ps \<Rightarrow>
          bind_res (require_exact_keys ps state_fields) (\<lambda>_.
          if field ps ''schema_version'' \<noteq> JInt schema_version_4 then decode_error
          else as_decode_error
            (bind_res (decode_state_value (field ps ''state'')) (\<lambda>st.
             bind_res (decode_counter (field ps ''consecutive_failures'')) (\<lambda>f.
             bind_res (decode_counter (field ps ''consecutive_successes'')) (\<lambda>su.
             bind_res (decode_optional_datetime (field ps ''state_changed_at'')) (\<lambda>changed.
             bind_res (decode_notifications (field ps ''pending_notifications'')) (\<lambda>pending.
             bind_res (decode_notification_id (field ps ''next_notification_id'')) (\<lambda>next_id.
             bind_res (decode_current_down (field ps ''current_down'')) (\<lambda>current.
               validated status_post_init
                 \<lparr>ds_state = st, ds_failures = f, ds_successes = su, ds_changed_at = changed,
                  ds_pending = pending, ds_next_id = next_id, ds_current = current\<rparr>)))))))))
      | _ \<Rightarrow> decode_error)"

definition decode_deadman_status :: "nat \<Rightarrow> string \<Rightarrow> dm_status res" where
  "decode_deadman_status limit payload =
     bind_res
       (catch_res (json_loads strict_hooks limit payload) (\<lambda>e. is_value_error e \<or> e = RecursionError)
          (\<lambda>_. decode_error))
       decode_document"

section \<open>Decoding fails in one way only\<close>

definition raises_only :: "exn \<Rightarrow> 'a res \<Rightarrow> bool" where
  "raises_only e m \<longleftrightarrow> (\<forall>x. m = Inl x \<longrightarrow> x = e)"

lemma raises_only_simps [simp]:
  "raises_only e (raise_if c e)" "raises_only e (Inr y)" "raises_only e (Inl x) \<longleftrightarrow> x = e"
  by (auto simp: raises_only_def)

lemma raises_only_in_order: "(\<And>c. c \<in> set cs \<Longrightarrow> raises_only e c) \<Longrightarrow> raises_only e (in_order cs)"
  unfolding raises_only_def using in_order_eq_Inl by fastforce

lemma raises_only_checks [simp]:
  "raises_only ValueError (dm_require_aware d)" "raises_only ValueError (require_counter v)"
  "raises_only ValueError (require_notification_id v)"
  by (simp_all add: dm_require_aware_def require_counter_def require_notification_id_def)

lemma raises_only_post_init [simp]:
  "raises_only ValueError (transition_post_init t)" "raises_only ValueError (notification_post_init n)"
  unfolding transition_post_init_def notification_post_init_def
  by (rule raises_only_in_order, auto)+

lemma raises_only_status [simp]: "raises_only ValueError (status_post_init s)"
proof -
  have "raises_only ValueError (streaks_check s)"
    unfolding streaks_check_def by (rule raises_only_in_order) (auto split: if_splits)
  moreover have "raises_only ValueError (ledger_check s)"
    unfolding ledger_check_def Let_def
    by (rule raises_only_in_order) (auto intro!: raises_only_in_order split: if_splits)
  moreover have "raises_only ValueError (anchor_check s)"
    unfolding anchor_check_def
    by (rule raises_only_in_order) (auto intro!: raises_only_in_order split: option.splits if_splits)
  moreover have "raises_only ValueError (binding_check s)"
    by (auto simp: binding_check_def Let_def intro!: raises_only_in_order split: option.splits)
  ultimately show ?thesis
    unfolding status_post_init_def by (intro raises_only_in_order) auto
qed

lemma transition_errors: "transition_post_init t = Inl e \<Longrightarrow> e = ValueError"
  using raises_only_post_init(1) [of t] by (simp add: raises_only_def)

lemma notification_errors: "notification_post_init n = Inl e \<Longrightarrow> e = ValueError"
  using raises_only_post_init(2) [of n] by (simp add: raises_only_def)

lemma status_errors: "status_post_init s = Inl e \<Longrightarrow> e = ValueError"
  using raises_only_status [of s] by (simp add: raises_only_def)

lemma map_sum_eq_Inl [simp]: "map_sum id g m = Inl e \<longleftrightarrow> m = Inl e"
  by (cases m) auto

lemma as_decode_error_Inl:
  "as_decode_error m = Inl e \<longleftrightarrow>
    (\<exists>x. m = Inl x \<and> e = (if is_value_error x then DeadManStateDecodeError else x))"
  by (auto simp: as_decode_error_def catch_res_def split: sum.splits)

lemma as_decode_error_Inr [simp]: "as_decode_error m = Inr y \<longleftrightarrow> m = Inr y"
  by (auto simp: as_decode_error_def catch_res_def split: sum.splits)

lemma scalar_decode_errors:
  "decode_state_value v = Inl e \<Longrightarrow> e = DeadManStateDecodeError"
  "decode_notification_kind v = Inl e \<Longrightarrow> e = DeadManStateDecodeError"
  "decode_counter v = Inl e \<Longrightarrow> e = DeadManStateDecodeError"
  "decode_notification_id v = Inl e \<Longrightarrow> e = DeadManStateDecodeError"
  "decode_bool v = Inl e \<Longrightarrow> e = DeadManStateDecodeError"
  "decode_datetime v = Inl e \<Longrightarrow> e = DeadManStateDecodeError"
  "decode_optional_datetime v = Inl e \<Longrightarrow> e = DeadManStateDecodeError"
  "require_exact_keys ps ks = Inl e \<Longrightarrow> e = DeadManStateDecodeError"
  by (auto simp: decode_state_value_def decode_notification_kind_def decode_counter_def
      decode_notification_id_def decode_bool_def decode_datetime_def decode_optional_datetime_def
      require_exact_keys_def split: json.splits option.splits if_splits sum.splits)

lemma is_value_error_simps [simp]: "is_value_error ValueError" "\<not> is_value_error DeadManStateDecodeError"
  by (simp_all add: is_value_error_def)

lemma decode_transition_errors: "decode_transition v = Inl e \<Longrightarrow> e = DeadManStateDecodeError"
  by (auto simp: decode_transition_def bind_res_eq_Inl as_decode_error_Inl validated_eq_Inl
      split: json.splits dest!: scalar_decode_errors transition_errors)

lemma decode_notification_errors: "decode_notification v = Inl e \<Longrightarrow> e = DeadManStateDecodeError"
  by (auto simp: decode_notification_def bind_res_eq_Inl as_decode_error_Inl validated_eq_Inl
      split: json.splits dest!: scalar_decode_errors decode_transition_errors notification_errors)

lemma map_res_eq_Inl: "map_res f xs = Inl e \<Longrightarrow> \<exists>x \<in> set xs. f x = Inl e"
  by (induction xs) (auto split: sum.splits)

lemma decode_notifications_errors: "decode_notifications v = Inl e \<Longrightarrow> e = DeadManStateDecodeError"
  by (auto simp: decode_notifications_def split: json.splits dest!: map_res_eq_Inl decode_notification_errors)

lemma decode_current_down_errors: "decode_current_down v = Inl e \<Longrightarrow> e = DeadManStateDecodeError"
  by (auto simp: decode_current_down_def bind_res_eq_Inl as_decode_error_Inl validated_eq_Inl
      current_down_post_init_def require_notification_id_def
      split: json.splits if_splits sum.splits dest!: scalar_decode_errors)

lemma decode_document_errors: "decode_document v = Inl e \<Longrightarrow> e = DeadManStateDecodeError"
  by (auto simp: decode_document_def bind_res_eq_Inl as_decode_error_Inl validated_eq_Inl
      split: json.splits if_splits
      dest!: scalar_decode_errors decode_notifications_errors decode_current_down_errors status_errors)

lemma decode_errors:
  assumes "decode_deadman_status limit payload = Inl e"
  shows "e = DeadManStateDecodeError \<or> e = outside_model"
proof -
  have "json_error strict_hooks x \<Longrightarrow> is_value_error x \<or> x = RecursionError \<or> x = outside_model" for x
    by (auto simp: json_error_def strict_hooks_def)
  then show ?thesis
    using assms json_loads_errors [of strict_hooks limit payload]
    by (auto simp: decode_deadman_status_def bind_res_eq_Inl catch_res_def
        split: sum.splits if_splits dest!: decode_document_errors)
qed

section \<open>Decoding accepts valid statuses only\<close>

lemma decode_transition_ok: "decode_transition v = Inr t \<Longrightarrow> transition_post_init t = Inr ()"
  by (auto simp: decode_transition_def split: json.splits)

lemma decode_notification_ok: "decode_notification v = Inr n \<Longrightarrow> notification_ok n"
  by (auto simp: decode_notification_def notification_ok_def dest!: decode_transition_ok split: json.splits)

lemma decode_notifications_ok:
  "decode_notifications v = Inr ns \<Longrightarrow> n \<in> set ns \<Longrightarrow> notification_ok n"
  by (auto simp: decode_notifications_def map_res_eq_Inr list_all2_conv_all_nth in_set_conv_nth
      split: json.splits intro: decode_notification_ok)

lemma decode_current_down_ok: "decode_current_down v = Inr (Some c) \<Longrightarrow> current_down_post_init c = Inr ()"
  by (auto simp: decode_current_down_def split: json.splits if_splits)

lemma decode_document_ok: "decode_document v = Inr s \<Longrightarrow> status_ok s"
  by (auto simp: decode_document_def status_ok_def
      split: json.splits if_splits intro: decode_notifications_ok decode_current_down_ok)

lemma decode_ok: "decode_deadman_status limit payload = Inr s \<Longrightarrow> status_ok s"
  by (auto simp: decode_deadman_status_def decode_document_ok)

section \<open>Round trip\<close>

definition utc_of :: "datetime \<Rightarrow> datetime" where
  "utc_of d = utc_datetime (instant d)"

definition in_utc_range :: "datetime \<Rightarrow> bool" where
  "in_utc_range d \<longleftrightarrow> 0 \<le> instant d \<and> instant d < max_wall"

definition canonical_notification :: "dm_notification \<Rightarrow> dm_notification" where
  "canonical_notification n =
     n\<lparr>dn_transition := (dn_transition n)\<lparr>dt_at := utc_of (dt_at (dn_transition n))\<rparr>\<rparr>"

text \<open>The same status with every moment expressed in UTC.\<close>

definition canonical_status :: "dm_status \<Rightarrow> dm_status" where
  "canonical_status s =
     s\<lparr>ds_changed_at := map_option utc_of (ds_changed_at s),
       ds_pending := map canonical_notification (ds_pending s)\<rparr>"

text \<open>What the file format can hold: UTC years 1 to 9999 and ids the JSON reader accepts.\<close>

definition encodable :: "dm_status \<Rightarrow> bool" where
  "encodable s \<longleftrightarrow>
     (\<forall>a. ds_changed_at s = Some a \<longrightarrow> in_utc_range a) \<and>
     (\<forall>n \<in> set (ds_pending s). in_utc_range (dt_at (dn_transition n))) \<and>
     ds_next_id s < 10 ^ max_int_digits"

lemma encode_datetime_eq: "in_utc_range d \<Longrightarrow> encode_datetime d = Inr (utc_text (instant d))"
  by (simp add: encode_datetime_def in_utc_range_def astimezone_utc_def utc_text_def)

lemma decode_encoded_datetime:
  "in_utc_range d \<Longrightarrow> decode_datetime (JStr (utc_text (instant d))) = Inr (utc_of d)"
  by (simp add: decode_datetime_def in_utc_range_def fromisoformat_utc_text utc_of_def utc_datetime_def)

lemma utc_of_facts [simp]: "aware (utc_of d)" "instant (utc_of d) = instant d"
  by (simp_all add: utc_of_def)

text \<open>Member order does not matter to a decoder.\<close>

lemma map_of_member_order:
  "distinct (map fst ps) \<Longrightarrow> map_of (member_order sk ps) = map_of ps"
  by (rule map_of_inject_set [THEN iffD2]) (simp_all add: distinct_member_order)

lemma map_fst_ordered: "map fst (map (\<lambda>(k, v). (k, ordered sk v)) ps) = map fst ps"
  by (induction ps) auto

lemma field_ordered:
  assumes "distinct (map fst ps)" "map_of ps k = Some v"
  shows "field (member_order sk (map (\<lambda>(k, v). (k, ordered sk v)) ps)) k = ordered sk v"
proof -
  let ?qs = "map (\<lambda>(k, v). (k, ordered sk v)) ps"
  have "map_of (member_order sk ?qs) = map_of ?qs"
    by (rule map_of_member_order) (simp only: map_fst_ordered assms(1))
  then show ?thesis using assms(2) by (simp add: field_def map_of_map)
qed

lemma exact_keys_ordered:
  "set (map fst ps) = set ks \<Longrightarrow>
    require_exact_keys (member_order sk (map (\<lambda>(k, v). (k, ordered sk v)) ps)) ks = Inr ()"
proof -
  let ?qs = "map (\<lambda>(k, v). (k, ordered sk v)) ps"
  assume "set (map fst ps) = set ks"
  then have "set (map fst ?qs) = set ks" by (simp only: map_fst_ordered)
  then show ?thesis by (simp add: require_exact_keys_def raise_if_def image_image)
qed

lemma decode_state_value_state [simp]: "decode_state_value (JStr (state_value st)) = Inr st"
  by (cases st) (simp_all add: decode_state_value_def)

lemma decode_kind_value [simp]: "decode_notification_kind (JStr (kind_value k)) = Inr k"
  by (cases k) (simp_all add: decode_notification_kind_def)

lemma decode_ints [simp]:
  "0 \<le> i \<Longrightarrow> decode_counter (JInt i) = Inr i" "1 \<le> i \<Longrightarrow> decode_notification_id (JInt i) = Inr i"
  by (simp_all add: decode_counter_def decode_notification_id_def)

lemma transition_round_trip:
  assumes "transition_post_init t = Inr ()" "in_utc_range (dt_at t)"
  shows "\<exists>v. encode_transition t = Inr v \<and> writable (Suc d) v \<and>
    decode_transition (ordered sk v) = Inr (t\<lparr>dt_at := utc_of (dt_at t)\<rparr>)"
proof -
  let ?ps = "[(''from_state'', JStr (state_value (dt_from t))), (''to_state'', JStr (state_value (dt_to t))),
    (''at'', JStr (utc_text (instant (dt_at t))))]"
  have e: "encode_transition t = Inr (JObj ?ps)" by (simp add: encode_transition_def encode_datetime_eq assms(2))
  let ?f = "field (member_order sk (map (\<lambda>(k, v). (k, ordered sk v)) ?ps))"
  have f: "?f ''from_state'' = JStr (state_value (dt_from t))"
    "?f ''to_state'' = JStr (state_value (dt_to t))" "?f ''at'' = JStr (utc_text (instant (dt_at t)))"
    using field_ordered [of ?ps "''from_state''" "JStr (state_value (dt_from t))" sk]
      field_ordered [of ?ps "''to_state''" "JStr (state_value (dt_to t))" sk]
      field_ordered [of ?ps "''at''" "JStr (utc_text (instant (dt_at t)))" sk] by simp_all
  have k: "require_exact_keys (member_order sk (map (\<lambda>(k, v). (k, ordered sk v)) ?ps)) transition_fields = Inr ()"
    by (rule exact_keys_ordered) (auto simp: transition_fields_def)
  have "transition_post_init (t\<lparr>dt_at := utc_of (dt_at t)\<rparr>) = Inr ()"
    using assms(1) by (simp add: transition_post_init_def)
  moreover have "t\<lparr>dt_at := x\<rparr> = \<lparr>dt_from = dt_from t, dt_to = dt_to t, dt_at = x\<rparr>" for x by simp
  ultimately have "decode_transition (ordered sk (JObj ?ps)) = Inr (t\<lparr>dt_at := utc_of (dt_at t)\<rparr>)"
    unfolding decode_transition_def ordered.simps json.case k f
    using decode_encoded_datetime [OF assms(2)] by simp
  then show ?thesis using e by (intro exI [of _ "JObj ?ps"]) simp
qed

lemma digit_count_le: "n < 10 ^ Suc k \<Longrightarrow> digit_count n \<le> Suc k"
proof (induction k arbitrary: n)
  case (Suc k)
  have "n div 10 < 10 ^ Suc k" using Suc.prems by (simp add: less_mult_imp_div_less)
  then have "digit_count (n div 10) \<le> Suc k" by (rule Suc.IH)
  then show ?case by (subst digit_count.simps) simp
qed (simp add: digit_count.simps)

lemma id_writable: "0 \<le> i \<Longrightarrow> i < 10 ^ max_int_digits \<Longrightarrow> writable d (JInt i)"
proof -
  assume i: "0 \<le> i" "i < 10 ^ max_int_digits"
  obtain k where k: "max_int_digits = Suc k" by (simp add: max_int_digits_def)
  have "nat \<bar>i\<bar> < 10 ^ Suc k" using i unfolding k by (simp add: nat_less_iff)
  then have "digit_count (nat \<bar>i\<bar>) \<le> Suc k" by (rule digit_count_le)
  then show ?thesis unfolding writable.simps k .
qed

lemma small_writable: "0 \<le> i \<Longrightarrow> i < 10 \<Longrightarrow> writable d (JInt i)"
proof -
  assume i: "0 \<le> i" "i < 10"
  then have "nat \<bar>i\<bar> < 10" by simp
  then have "digit_count (nat \<bar>i\<bar>) = 1" by (subst digit_count.simps) simp
  then show "writable d (JInt i)" by (simp add: max_int_digits_def)
qed

lemma notification_round_trip:
  assumes "notification_ok n" "in_utc_range (dt_at (dn_transition n))" "dn_id n < 10 ^ max_int_digits"
  shows "\<exists>v. encode_notification n = Inr v \<and> writable (Suc (Suc d)) v \<and>
    decode_notification (ordered sk v) = Inr (canonical_notification n)"
proof -
  have ok: "transition_post_init (dn_transition n) = Inr ()" "notification_post_init n = Inr ()" "1 \<le> dn_id n"
    using assms(1) by (simp_all add: notification_ok_def notification_post_init_def)
  obtain t where t: "encode_transition (dn_transition n) = Inr t" "writable (Suc d) t"
    "decode_transition (ordered sk t) = Inr ((dn_transition n)\<lparr>dt_at := utc_of (dt_at (dn_transition n))\<rparr>)"
    using transition_round_trip [OF ok(1) assms(2)] by blast
  let ?ps = "[(''notification_id'', JInt (dn_id n)), (''kind'', JStr (kind_value (dn_kind n))), (''transition'', t)]"
  have e: "encode_notification n = Inr (JObj ?ps)" by (simp add: encode_notification_def t(1))
  let ?f = "field (member_order sk (map (\<lambda>(k, v). (k, ordered sk v)) ?ps))"
  have f: "?f ''notification_id'' = JInt (dn_id n)" "?f ''kind'' = JStr (kind_value (dn_kind n))"
    "?f ''transition'' = ordered sk t"
    using field_ordered [of ?ps "''notification_id''" "JInt (dn_id n)" sk]
      field_ordered [of ?ps "''kind''" "JStr (kind_value (dn_kind n))" sk]
      field_ordered [of ?ps "''transition''" t sk] by simp_all
  have k: "require_exact_keys (member_order sk (map (\<lambda>(k, v). (k, ordered sk v)) ?ps)) notification_fields = Inr ()"
    by (rule exact_keys_ordered) (auto simp: notification_fields_def)
  have "notification_post_init (canonical_notification n) = Inr ()"
    using ok(2)
    by (auto simp: notification_post_init_def canonical_notification_def dt_is_down_event_def
        dt_is_recovery_event_def split: if_splits)
  moreover have "canonical_notification n = \<lparr>dn_id = dn_id n, dn_kind = dn_kind n,
      dn_transition = (dn_transition n)\<lparr>dt_at := utc_of (dt_at (dn_transition n))\<rparr>\<rparr>"
    by (simp add: canonical_notification_def)
  ultimately have "decode_notification (ordered sk (JObj ?ps)) = Inr (canonical_notification n)"
    unfolding decode_notification_def ordered.simps json.case k f using t(3) ok(3) by simp
  then show ?thesis
    using e t(2) id_writable [of "dn_id n"] ok(3) assms(3) by (intro exI [of _ "JObj ?ps"]) simp
qed

lemma map_res_round_trip:
  assumes "\<And>x. x \<in> set xs \<Longrightarrow> \<exists>v. f x = Inr v \<and> w v \<and> g (o' v) = Inr (c x)"
  shows "\<exists>vs. map_res f xs = Inr vs \<and> list_all w vs \<and> map_res g (map o' vs) = Inr (map c xs)"
  using assms
proof (induction xs)
  case (Cons x xs)
  then obtain v vs where "f x = Inr v" "w v" "g (o' v) = Inr (c x)"
    "map_res f xs = Inr vs" "list_all w vs" "map_res g (map o' vs) = Inr (map c xs)"
    by (metis list.set_intros)
  then show ?case by (intro exI [of _ "v # vs"]) simp
qed simp

lemma pending_id_bound:
  assumes "queue_ids s" "n \<in> set (ds_pending s)"
  shows "dn_id n < ds_next_id s"
proof -
  have "dn_id n \<in> set (map dn_id (ds_pending s))" using assms(2) by simp
  then show ?thesis using assms(1) unfolding queue_ids_def by (simp only: set_upto) simp
qed

lemma canonical_status_ok:
  assumes "status_ok s"
  shows "status_post_init (canonical_status s) = Inr ()"
proof -
  note d = status_okD [OF assms]
  have q: "queue_ids (canonical_status s)"
    using d(5) by (simp add: queue_ids_def canonical_status_def comp_def canonical_notification_def)
  have "dated_by (map_option utc_of (ds_changed_at s)) (map canonical_notification (ds_pending s))"
    using d(8) by (auto simp: dated_by_def canonical_notification_def)
  moreover have "\<forall>n \<in> set (tl (map canonical_notification (ds_pending s))). dn_kind n \<noteq> DmRecoveredKind"
    using d(7) by (auto simp: map_tl [symmetric] canonical_notification_def)
  moreover have "ds_state s = DmDown \<Longrightarrow> bound_down (canonical_status s)"
    using d(3) by (auto simp: bound_down_def canonical_status_def canonical_notification_def last_map split: if_splits)
  moreover have f: "ds_state (canonical_status s) = ds_state s" "ds_failures (canonical_status s) = ds_failures s"
    "ds_successes (canonical_status s) = ds_successes s" "ds_next_id (canonical_status s) = ds_next_id s"
    "ds_current (canonical_status s) = ds_current s"
    "ds_changed_at (canonical_status s) = map_option utc_of (ds_changed_at s)"
    "ds_pending (canonical_status s) = map canonical_notification (ds_pending s)"
    by (simp_all add: canonical_status_def)
  ultimately show ?thesis
    unfolding status_post_init_eq_Inr f using q d(1-4,6,9,10)
    by (cases "ds_state s") simp_all
qed

lemma document_round_trip:
  assumes "status_ok s" "encodable s"
  shows "\<exists>v. encode_document s = Inr v \<and> writable (Suc (Suc (Suc (Suc d)))) v \<and>
    decode_document (ordered sk v) = Inr (canonical_status s)"
proof -
  note sd = status_okD [OF assms(1)]
  have bound: "ds_next_id s < 10 ^ max_int_digits" using assms(2) by (simp add: encodable_def)
  have "\<exists>v. encode_notification n = Inr v \<and> writable (Suc (Suc d)) v \<and>
      decode_notification (ordered sk v) = Inr (canonical_notification n)" if "n \<in> set (ds_pending s)" for n
    using that sd(11) assms(2) pending_id_bound [OF sd(5) that] bound
    by (intro notification_round_trip) (auto simp: encodable_def)
  then obtain pend where pend: "map_res encode_notification (ds_pending s) = Inr pend"
    "list_all (writable (Suc (Suc d))) pend"
    "map_res decode_notification (map (ordered sk) pend) = Inr (map canonical_notification (ds_pending s))"
    using map_res_round_trip [of "ds_pending s" encode_notification "writable (Suc (Suc d))"
        decode_notification "ordered sk" canonical_notification] by blast
  obtain changed where changed: "(case ds_changed_at s of None \<Rightarrow> Inr JNull
      | Some a \<Rightarrow> bind_res (encode_datetime a) (\<lambda>t. Inr (JStr t))) = Inr changed"
    "ordered sk changed = changed" "writable (Suc (Suc (Suc d))) changed"
    "decode_optional_datetime changed = Inr (map_option utc_of (ds_changed_at s))"
  proof (cases "ds_changed_at s")
    case None
    then show ?thesis using that [of JNull] by (simp add: decode_optional_datetime_def)
  next
    case (Some a)
    then have "in_utc_range a" using assms(2) by (simp add: encodable_def)
    then show ?thesis
      using that [of "JStr (utc_text (instant a))"] Some decode_encoded_datetime
      by (simp add: encode_datetime_eq decode_optional_datetime_def)
  qed
  have cd: "cd_id c = ds_next_id s - 1 \<and> 2 \<le> ds_next_id s" if "ds_current s = Some c" for c
    using that sd(3,4) by (cases "ds_state s = DmDown") (auto simp: bound_down_def)
  have current: "writable (Suc (Suc (Suc d))) (encode_current (ds_current s)) \<and>
      decode_current_down (ordered sk (encode_current (ds_current s))) = Inr (ds_current s)"
  proof (cases "ds_current s")
    case None
    then show ?thesis by (simp add: encode_current_def decode_current_down_def)
  next
    case (Some c)
    let ?qs = "[(''notification_id'', JInt (cd_id c)), (''acknowledged'', JBool (cd_acknowledged c))]"
    let ?f = "field (member_order sk (map (\<lambda>(k, v). (k, ordered sk v)) ?qs))"
    have f: "?f ''notification_id'' = JInt (cd_id c)" "?f ''acknowledged'' = JBool (cd_acknowledged c)"
      using field_ordered [of ?qs "''notification_id''" "JInt (cd_id c)" sk]
        field_ordered [of ?qs "''acknowledged''" "JBool (cd_acknowledged c)" sk] by simp_all
    have k: "require_exact_keys (member_order sk (map (\<lambda>(k, v). (k, ordered sk v)) ?qs)) current_down_fields = Inr ()"
      by (rule exact_keys_ordered) (auto simp: current_down_fields_def)
    have e: "encode_current (ds_current s) = JObj ?qs" using Some by (simp add: encode_current_def)
    have "decode_current_down (ordered sk (JObj ?qs)) = Inr (Some c)"
      unfolding decode_current_down_def ordered.simps json.case k f
      using cd [OF Some] by (simp add: decode_bool_def current_down_post_init_def)
    moreover have "writable (Suc (Suc d)) (JInt (cd_id c))"
      using cd [OF Some] bound by (intro id_writable) simp_all
    ultimately show ?thesis using e Some by simp
  qed
  let ?ps = "[(''schema_version'', JInt schema_version_4), (''state'', JStr (state_value (ds_state s))),
    (''consecutive_failures'', JInt (ds_failures s)), (''consecutive_successes'', JInt (ds_successes s)),
    (''state_changed_at'', changed), (''pending_notifications'', JArr pend),
    (''next_notification_id'', JInt (ds_next_id s)), (''current_down'', encode_current (ds_current s))]"
  let ?f = "field (member_order sk (map (\<lambda>(k, v). (k, ordered sk v)) ?ps))"
  have e: "encode_document s = Inr (JObj ?ps)" by (simp add: encode_document_def changed(1) pend(1))
  have dist: "distinct (map fst ?ps)" by simp
  note lookup = field_ordered [OF dist, where sk = sk]
  have f: "?f ''schema_version'' = JInt schema_version_4"
    using lookup [of "''schema_version''" "JInt schema_version_4"] by (simp)
  have f1: "?f ''state'' = JStr (state_value (ds_state s))"
    using lookup [of "''state''" "JStr (state_value (ds_state s))"] by (simp)
  have f2: "?f ''consecutive_failures'' = JInt (ds_failures s)"
    using lookup [of "''consecutive_failures''" "JInt (ds_failures s)"] by (simp)
  have f3: "?f ''consecutive_successes'' = JInt (ds_successes s)"
    using lookup [of "''consecutive_successes''" "JInt (ds_successes s)"] by (simp)
  have f4: "?f ''state_changed_at'' = changed"
    using lookup [of "''state_changed_at''" "changed"] by (simp add: changed(2))
  have f5: "?f ''pending_notifications'' = JArr (map (ordered sk) pend)"
    using lookup [of "''pending_notifications''" "JArr pend"] by (simp)
  have f6: "?f ''next_notification_id'' = JInt (ds_next_id s)"
    using lookup [of "''next_notification_id''" "JInt (ds_next_id s)"] by (simp)
  have f7: "?f ''current_down'' = ordered sk (encode_current (ds_current s))"
    using lookup [of "''current_down''" "encode_current (ds_current s)"] by (simp)
  have k: "require_exact_keys (member_order sk (map (\<lambda>(k, v). (k, ordered sk v)) ?ps)) state_fields = Inr ()"
    by (rule exact_keys_ordered) (auto simp: state_fields_def)
  have "canonical_status s = \<lparr>ds_state = ds_state s, ds_failures = ds_failures s, ds_successes = ds_successes s,
      ds_changed_at = map_option utc_of (ds_changed_at s), ds_pending = map canonical_notification (ds_pending s),
      ds_next_id = ds_next_id s, ds_current = ds_current s\<rparr>"
    by (simp add: canonical_status_def)
  then have "decode_document (ordered sk (JObj ?ps)) = Inr (canonical_status s)"
    unfolding decode_document_def ordered.simps json.case k f f1 f2 f3 f4 f5 f6 f7
    using canonical_status_ok [OF assms(1)] changed(4) pend(3) current sd(1,2,6)
    by (simp add: decode_notifications_def)
  moreover have "writable (Suc (Suc (Suc d))) (JInt (ds_next_id s))" using sd(6) bound by (intro id_writable) simp_all
  moreover have "ds_failures s < 10" "ds_successes s < 10" using sd(3,4) by (cases "ds_state s = DmDown"; simp)+
  then have "writable (Suc (Suc (Suc d))) (JInt (ds_failures s))" "writable (Suc (Suc (Suc d))) (JInt (ds_successes s))"
    using sd(1,2) by (simp_all only: small_writable)
  moreover have "writable (Suc (Suc (Suc d))) (JInt schema_version_4)"
    by (rule small_writable) (simp_all add: schema_version_4_def)
  ultimately show ?thesis using e changed(3) pend(2) current by (intro exI [of _ "JObj ?ps"]) simp
qed

text \<open>Encoding succeeds exactly on what the format can hold.\<close>

lemma encode_datetime_Inr: "encode_datetime d = Inr t \<Longrightarrow> in_utc_range d"
  by (auto simp: encode_datetime_def astimezone_utc_def in_utc_range_def split: if_splits)

lemma encode_notification_Inr:
  "encode_notification n = Inr v \<Longrightarrow> in_utc_range (dt_at (dn_transition n))"
  by (auto simp: encode_notification_def encode_transition_def dest: encode_datetime_Inr)

lemma printable_id: "0 \<le> i \<Longrightarrow> printable (JInt i) \<Longrightarrow> i < 10 ^ max_int_digits"
proof -
  assume i: "0 \<le> i" "printable (JInt i)"
  then have "digit_count (nat i) \<le> max_int_digits" by simp
  then have "nat i < 10 ^ max_int_digits"
    using digit_count_bound [of "nat i"] by (meson one_le_numeral order_less_le_trans power_increasing)
  then show "i < 10 ^ max_int_digits" using i(1) by (simp add: nat_less_iff)
qed

lemma encode_encodable:
  assumes "status_ok s" "encode_deadman_status s = Inr text"
  shows "encodable s"
proof -
  obtain v where v: "encode_document s = Inr v" "printable v"
    using assms(2) by (auto simp: encode_deadman_status_def json_dumps_checked_def split: if_splits)
  have "in_utc_range a" if "ds_changed_at s = Some a" for a
    using v(1) that by (auto simp: encode_document_def dest: encode_datetime_Inr)
  moreover have "in_utc_range (dt_at (dn_transition n))" if "n \<in> set (ds_pending s)" for n
    using v(1) that
    by (auto simp: encode_document_def map_res_eq_Inr list_all2_conv_all_nth in_set_conv_nth
        dest: encode_notification_Inr)
  moreover have "printable (JInt (ds_next_id s))" using v by (auto simp: encode_document_def)
  ultimately show ?thesis
    using printable_id [of "ds_next_id s"] status_okD(6) [OF assms(1)] by (simp add: encodable_def)
qed

lemma encode_round_trip:
  assumes "status_ok s" "encode_deadman_status s = Inr text" "4 \<le> limit"
  shows "ascii text \<and> decode_deadman_status limit text = Inr (canonical_status s)"
proof -
  obtain d where "limit = 4 + d" using assms(3) le_Suc_ex by blast
  then have d: "limit = Suc (Suc (Suc (Suc d)))" by simp
  obtain v where v: "encode_document s = Inr v" "writable limit v"
    "decode_document (ordered True v) = Inr (canonical_status s)"
    using document_round_trip [OF assms(1) encode_encodable [OF assms(1,2)]] d by blast
  then have "text = json_dumps True True v"
    using assms(2) by (simp add: encode_deadman_status_def json_dumps_checked_def split: if_splits)
  then show ?thesis
    using v(2,3) ascii_dumps [OF v(2)] json_loads_dumps [OF v(2), of strict_hooks True True]
    by (simp add: decode_deadman_status_def catch_res_def)
qed

section \<open>Properties\<close>

text \<open>C12: a valid status survives the state file: when its moments lie in the UTC years 1 to 9999
  and its ids are within the reader's digit limit, encoding succeeds and decoding the text, under
  any nesting limit of at least four, yields the same status with its moments in UTC.\<close>

theorem codec_round_trip:
  assumes "status_ok s" "encodable s" "4 \<le> limit"
  shows "\<exists>text. encode_deadman_status s = Inr text \<and>
    decode_deadman_status limit text = Inr (canonical_status s)"
proof -
  obtain d where "limit = 4 + d" using assms(3) le_Suc_ex by blast
  then have d: "limit = Suc (Suc (Suc (Suc d)))" by simp
  obtain v where v: "encode_document s = Inr v" "writable limit v"
    "decode_document (ordered True v) = Inr (canonical_status s)"
    using document_round_trip [OF assms(1,2)] d by blast
  then show ?thesis
    using json_loads_dumps [OF v(2), of strict_hooks True True]
    by (simp add: encode_deadman_status_def decode_deadman_status_def catch_res_def json_dumps_checked_def
        writable_printable [OF v(2)])
qed

lemma codec_round_trip_witness:
  "\<exists>text. encode_deadman_status initial_status = Inr text \<and> decode_deadman_status 900 text = Inr initial_status"
proof -
  have "encodable initial_status"
    using one_less_power [of "10::int" max_int_digits] by (simp add: encodable_def initial_status_def max_int_digits_def del: power_numeral)
  from codec_round_trip [OF initial_status_ok this, of 900] show ?thesis
    by (simp add: canonical_status_def) (simp add: initial_status_def)
qed

text \<open>C34: decoding is fail-closed: any text either decodes to a valid status or raises the one
  decode error; a syntax error, a repeated key, a non-finite constant, excessive nesting, a wrong
  key set, version, type, value or combination never becomes a status and never escapes as
  another exception.  (Texts with escapes above U+00FF are outside the modelled alphabet.)\<close>

theorem decode_fails_closed:
  "case decode_deadman_status limit payload of
     Inl e \<Rightarrow> e \<in> {DeadManStateDecodeError, outside_model}
   | Inr s \<Rightarrow> status_ok s"
  using decode_errors [of limit payload] decode_ok [of limit payload] by (auto split: sum.split)

definition early_members :: "(string \<times> json) list" where
  "early_members =
     [(''schema_version'', JInt 4), (''state'', JStr ''up''), (''consecutive_failures'', JInt 0),
      (''consecutive_successes'', JInt 0), (''state_changed_at'', JStr ''0001-01-01T00:00:00+05:00''),
      (''pending_notifications'', JArr []), (''next_notification_id'', JInt 1), (''current_down'', JNull)]"

definition early_document :: json where "early_document = JObj early_members"

lemma ordered_early: "ordered False early_document = early_document"
  by (simp add: early_document_def early_members_def member_order_def)

lemma early_keys: "require_exact_keys early_members state_fields = Inr ()"
  by (simp only: require_exact_keys_def early_members_def state_fields_def list.map fst_conv raise_if_def
      simp_thms if_False)

lemma early_fields:
  "field early_members ''schema_version'' = JInt 4"
  "field early_members ''state'' = JStr ''up''"
  "field early_members ''consecutive_failures'' = JInt 0"
  "field early_members ''consecutive_successes'' = JInt 0"
  "field early_members ''state_changed_at'' = JStr ''0001-01-01T00:00:00+05:00''"
  "field early_members ''pending_notifications'' = JArr []"
  "field early_members ''next_notification_id'' = JInt 1"
  "field early_members ''current_down'' = JNull"
  by (simp_all add: field_def early_members_def)

lemma early_anchor:
  "fromisoformat ''0001-01-01T00:00:00+05:00'' = Some \<lparr>wall = 0, tz = TzFixed 18000000000\<rparr>"
proof -
  have h: "parse_hms ''00:00:00'' = Some (0, 0, 0, 0)" "parse_hms ''05:00'' = Some (5, 0, 0, 0)"
    by (simp_all add: parse_hms_def hms_loop.simps int_exact_def digit_val_def parse_fraction_def)
  have d: "parse_date ''0001-01-01'' = Some 0"
    by (simp add: parse_date_def Let_def int_exact_def digit_val_def day_of_ymd_def days_before_def month_lengths_def)
  show ?thesis
    by (simp add: fromisoformat_def find_separator_def d parse_time_def tz_position_def find1_def Let_def h
        parse_offset_def us_per_day_def)
qed

text \<open>Decoding accepts a status the program cannot write again: a state file whose anchor is
  aware but lies before year 1 in UTC decodes, and encoding the decoded status raises
  \<open>OverflowError\<close>.\<close>

theorem decoded_status_may_not_encode:
  "\<exists>payload s. decode_deadman_status 4 payload = Inr s \<and> encode_deadman_status s = Inl OverflowError"
proof -
  let ?s = "initial_status\<lparr>ds_state := DmUp, ds_changed_at := Some \<lparr>wall = 0, tz = TzFixed 18000000000\<rparr>\<rparr>"
  have "writable 4 early_document"
    by (simp add: early_document_def early_members_def max_int_digits_def digit_count.simps)
  moreover have "status_post_init ?s = Inr ()"
    by (simp add: status_post_init_eq_Inr queue_ids_def dated_by_def aware_def initial_status_def)
  then have "decode_document early_document = Inr ?s"
    unfolding early_document_def decode_document_def json.case early_keys early_fields
    by (simp add: schema_version_4_def decode_state_value_def decode_counter_def decode_optional_datetime_def
        decode_datetime_def early_anchor decode_notifications_def decode_notification_id_def
        decode_current_down_def initial_status_def)
  ultimately have "decode_deadman_status 4 (json_dumps False True early_document) = Inr ?s"
    using json_loads_dumps [of 4 early_document strict_hooks False True]
    by (simp add: decode_deadman_status_def catch_res_def ordered_early)
  moreover have "encode_deadman_status ?s = Inl OverflowError"
    by (simp add: encode_deadman_status_def encode_document_def encode_datetime_def astimezone_utc_def instant_def)
  ultimately show ?thesis by blast
qed

end
