(* ===== verification/Py_Bytes.thy ===== *)
theory Py_Bytes
  imports Py_Text
begin

text \<open>
  Byte strings and UTF-8.  A Python \<open>bytes\<close> value is a \<open>string\<close> too, one character per byte.
  Decoding is the strict codec of the library; a valid text with a code point above U+00FF is
  reported as \<open>outside_model\<close>.
\<close>

definition code :: "char \<Rightarrow> nat" where "code c = of_char c"

definition utf8_encode :: "string \<Rightarrow> string" where
  "utf8_encode s =
     concat (map (\<lambda>c. if code c < 128 then [c] else [char_of (192 + code c div 64), char_of (128 + code c mod 64)]) s)"

definition continuation :: "nat \<Rightarrow> bool" where
  "continuation b \<longleftrightarrow> 128 \<le> b \<and> b < 192"

text \<open>
  The code points of a byte sequence: shortest forms only, no surrogates, nothing above U+10FFFF.
\<close>

fun utf8_points :: "nat list \<Rightarrow> nat list option" where
  "utf8_points [] = Some []"
| "utf8_points (a # bs) =
     (if a < 128 then map_option (Cons a) (utf8_points bs)
      else if 194 \<le> a \<and> a < 224 then
        (case bs of b # r \<Rightarrow>
           (if continuation b then map_option (Cons ((a - 192) * 64 + (b - 128))) (utf8_points r) else None)
         | _ \<Rightarrow> None)
      else if 224 \<le> a \<and> a < 240 then
        (case bs of b # c # r \<Rightarrow>
           (if continuation b \<and> continuation c \<and> (a = 224 \<longrightarrow> 160 \<le> b) \<and> (a = 237 \<longrightarrow> b < 160)
            then map_option (Cons ((a - 224) * 4096 + (b - 128) * 64 + (c - 128))) (utf8_points r) else None)
         | _ \<Rightarrow> None)
      else if 240 \<le> a \<and> a < 245 then
        (case bs of b # c # d # r \<Rightarrow>
           (if continuation b \<and> continuation c \<and> continuation d \<and> (a = 240 \<longrightarrow> 144 \<le> b) \<and> (a = 244 \<longrightarrow> b < 144)
            then map_option (Cons ((a - 240) * 262144 + (b - 128) * 4096 + (c - 128) * 64 + (d - 128))) (utf8_points r)
            else None)
         | _ \<Rightarrow> None)
      else None)"

definition utf8_decode :: "string \<Rightarrow> string res" where
  "utf8_decode s =
     (case utf8_points (map code s) of
        None \<Rightarrow> Inl UnicodeDecodeError
      | Some ps \<Rightarrow> if list_all (\<lambda>p. p < 256) ps then Inr (map char_of ps) else Inl outside_model)"

lemma code_bound [simp]: "code c < 256"
  by (simp add: code_def)

lemma char_of_code [simp]: "char_of (code c) = c"
  by (simp add: code_def)

lemma code_char_of [simp]: "n < 256 \<Longrightarrow> code (char_of n) = n"
  by (simp add: code_def)

lemma utf8_points_encode: "utf8_points (map code (utf8_encode s)) = Some (map code s)"
proof (induction s)
  case (Cons c s)
  let ?k = "code c div 64" and ?m = "code c mod 64"
  have b: "?k < 4" "?m < 64" "?k * 64 + ?m = code c"
    using code_bound [of c] less_mult_imp_div_less [of "code c" 4 64] by simp_all
  show ?case
  proof (cases "code c < 128")
    case False
    then have "2 \<le> ?k" by auto
    then show ?thesis
      using Cons b False by (simp add: utf8_encode_def continuation_def)
  qed (use Cons in \<open>simp add: utf8_encode_def\<close>)
qed (simp add: utf8_encode_def)

text \<open>Decoding inverts encoding on every text.\<close>

lemma utf8_decode_encode [simp]: "utf8_decode (utf8_encode s) = Inr s"
  by (simp add: utf8_decode_def utf8_points_encode list_all_iff comp_def)

lemma utf8_encode_ascii: "list_all (\<lambda>c. of_char c < (128 :: nat)) s \<Longrightarrow> utf8_encode s = s"
  by (induction s) (simp_all add: utf8_encode_def code_def)

lemma utf8_decode_errors: "utf8_decode s = Inl e \<Longrightarrow> e = UnicodeDecodeError \<or> e = outside_model"
  by (auto simp: utf8_decode_def split: option.splits if_splits)

end
