(* ===== verification/Io_Hoare.thy ===== *)
theory Io_Hoare
  imports Prelude
begin

text \<open>
  Partial-correctness triples for stateful operations, with one postcondition for a returned value
  and one for a raised exception.
\<close>

definition triple ::
  "('s \<Rightarrow> bool) \<Rightarrow> ('s, 'a) io \<Rightarrow> ('a \<Rightarrow> 's \<Rightarrow> bool) \<Rightarrow> (exn \<Rightarrow> 's \<Rightarrow> bool) \<Rightarrow> bool" where
  "triple P m Q E \<longleftrightarrow>
     (\<forall>s. P s \<longrightarrow> (case m s of (Inr x, s') \<Rightarrow> Q x s' | (Inl e, s') \<Rightarrow> E e s'))"

lemma tripleI:
  "(\<And>s x s'. P s \<Longrightarrow> m s = (Inr x, s') \<Longrightarrow> Q x s') \<Longrightarrow> (\<And>s e s'. P s \<Longrightarrow> m s = (Inl e, s') \<Longrightarrow> E e s') \<Longrightarrow>
    triple P m Q E"
  unfolding triple_def by (simp split: prod.splits sum.splits)

lemma triple_Inr: "triple P m Q E \<Longrightarrow> P s \<Longrightarrow> m s = (Inr x, s') \<Longrightarrow> Q x s'"
  by (auto simp: triple_def)

lemma triple_Inl: "triple P m Q E \<Longrightarrow> P s \<Longrightarrow> m s = (Inl e, s') \<Longrightarrow> E e s'"
  by (auto simp: triple_def)

lemma triple_pre: "triple P' m Q E \<Longrightarrow> (\<And>s. P s \<Longrightarrow> P' s) \<Longrightarrow> triple P m Q E"
  by (auto simp: triple_def)

lemma triple_conseq:
  "triple P' m Q' E' \<Longrightarrow> (\<And>s. P s \<Longrightarrow> P' s) \<Longrightarrow> (\<And>x s. Q' x s \<Longrightarrow> Q x s) \<Longrightarrow> (\<And>e s. E' e s \<Longrightarrow> E e s) \<Longrightarrow>
    triple P m Q E"
  by (fastforce simp: triple_def split: prod.splits sum.splits)

lemma triple_return: "(\<And>s. P s \<Longrightarrow> Q x s) \<Longrightarrow> triple P (return_io x) Q E"
  by (auto simp: triple_def)

lemma triple_lift:
  "(\<And>s x. P s \<Longrightarrow> r = Inr x \<Longrightarrow> Q x s) \<Longrightarrow> (\<And>s e. P s \<Longrightarrow> r = Inl e \<Longrightarrow> E e s) \<Longrightarrow>
    triple P (lift_io r) Q E"
  by (auto simp: triple_def split: sum.splits)

lemma bind_lift [simp]:
  "bind_io (lift_io (Inr x)) f = f x" "bind_io (lift_io (Inl e)) f = lift_io (Inl e)"
  "bind_io (return_io x) f = f x"
  by (rule ext, simp add: bind_io_def)+

lemma triple_bind:
  "triple P m R E \<Longrightarrow> (\<And>x. triple (R x) (f x) Q E) \<Longrightarrow> triple P (bind_io m f) Q E"
  by (fastforce simp: triple_def bind_io_def split: prod.splits sum.splits)

lemma triple_catch:
  "triple P m Q R \<Longrightarrow> (\<And>e. p e \<Longrightarrow> triple (R e) (h e) Q E) \<Longrightarrow> (\<And>e s. \<not> p e \<Longrightarrow> R e s \<Longrightarrow> E e s) \<Longrightarrow>
    triple P (catch_io m p h) Q E"
  by (fastforce simp: triple_def catch_io_def split: prod.splits sum.splits)

lemma triple_if:
  "(c \<Longrightarrow> triple P m Q E) \<Longrightarrow> (\<not> c \<Longrightarrow> triple P m' Q E) \<Longrightarrow> triple P (if c then m else m') Q E"
  by simp

lemma triple_bind_pre:
  "triple P' m R E' \<Longrightarrow> (\<And>s. P s \<Longrightarrow> P' s) \<Longrightarrow> (\<And>e s. E' e s \<Longrightarrow> E e s) \<Longrightarrow> (\<And>x. triple (R x) (f x) Q E) \<Longrightarrow>
    triple P (bind_io m f) Q E"
  by (rule triple_bind, rule triple_conseq) blast+

lemma triple_case_list:
  "(xs = [] \<Longrightarrow> triple P m Q E) \<Longrightarrow> (\<And>y ys. xs = y # ys \<Longrightarrow> triple P (m' y ys) Q E) \<Longrightarrow>
    triple P (case xs of [] \<Rightarrow> m | y # ys \<Rightarrow> m' y ys) Q E"
  by (cases xs) auto

lemma triple_pointwise: "(\<And>s. P s \<Longrightarrow> triple (\<lambda>t. t = s) m Q E) \<Longrightarrow> triple P m Q E"
  by (auto simp: triple_def)

text \<open>\<open>try: m finally: m'\<close>, where the exception of the second statement wins\<close>

lemma finally_triple:
  assumes "triple P m (\<lambda>_. P) E" "triple P m' (\<lambda>_. P) E" "\<And>e s. E e s \<Longrightarrow> P s"
    and "\<And>e e' s s'. E e s \<Longrightarrow> P s' \<Longrightarrow> E e s'"
  shows "triple P (\<lambda>s. let (r, s1) = m s; (r', s2) = m' s1 in
    (case r' of Inl e \<Rightarrow> Inl e | Inr _ \<Rightarrow> r, s2)) (\<lambda>_. P) E"
  unfolding triple_def Let_def
proof (intro allI impI)
  fix s
  assume "P s"
  obtain r s1 r' s2 where m: "m s = (r, s1)" "m' s1 = (r', s2)" by fastforce
  have 1: "case r of Inl e \<Rightarrow> E e s1 | Inr _ \<Rightarrow> P s1" using assms(1) \<open>P s\<close> m(1) by (force simp: triple_def)
  then have "P s1" using assms(3) by (auto split: sum.splits)
  then have 2: "case r' of Inl e \<Rightarrow> E e s2 | Inr _ \<Rightarrow> P s2" using assms(2) m(2) by (force simp: triple_def)
  then have "P s2" using assms(3) by (auto split: sum.splits)
  then show "case case m s of (r, s1) \<Rightarrow> case m' s1 of (r', s2) \<Rightarrow>
      (case r' of Inl e \<Rightarrow> Inl e | Inr _ \<Rightarrow> r, s2) of
    (Inl e, s') \<Rightarrow> E e s' | (Inr x, s') \<Rightarrow> P s'"
    using 1 2 assms(4) m by (auto split: sum.splits)
qed

end
