(* ===== verification/Deadman_Store.thy ===== *)
theory Deadman_Store
  imports Deadman_Codec Py_Bytes Io_Hoare
begin

text \<open>
  \<open>deadman_store.py\<close>: the state file.  The directory that holds it is a map from names to
  contents; the operating system is an adversary that is shown the directory at every call and
  decides whether the call fails (a failed write may leave any prefix in the temporary file) or
  the process is interrupted there.  A missing file is not a failure it chooses: the directory
  decides.  Failing to close a file that was only read is not modelled.
\<close>

section \<open>The file system\<close>

type_synonym directory = "string \<Rightarrow> string option"

datatype os_call = OpenRead | ReadBytes | MakeTemporary | WriteTemporary | Replace | Unlink
  | OpenDirectory | SyncDirectory | CloseDirectory

datatype os_failure = OsFails | Interrupted nat

fun failure_exn :: "os_failure \<Rightarrow> exn" where
  "failure_exn OsFails = OSError"
| "failure_exn (Interrupted n) = ForeignBaseException n"

text \<open>
  The failure, if any, with the number of bytes written before it; the candidate names
  \<open>mkstemp\<close> draws; and whether the platform can open directories.
\<close>

record 'w os =
  os_fault :: "os_call \<Rightarrow> directory \<Rightarrow> 'w \<Rightarrow> (os_failure \<times> nat) option \<times> 'w"
  os_candidates :: "'w \<Rightarrow> string list \<times> 'w"
  os_has_o_directory :: bool

definition os_check :: "'w os \<Rightarrow> os_call \<Rightarrow> (directory \<times> 'w, unit) io" where
  "os_check os c dw =
     (case dw of (d, w) \<Rightarrow> case os_fault os c d w of
        (None, w') \<Rightarrow> (Inr (), d, w')
      | (Some (f, _), w') \<Rightarrow> (Inl (failure_exn f), d, w'))"

definition open_read :: "'w os \<Rightarrow> string \<Rightarrow> (directory \<times> 'w, string) io" where
  "open_read os name =
     bind_io (os_check os OpenRead) (\<lambda>_ (d, w).
       (case d name of None \<Rightarrow> Inl FileNotFoundError | Some content \<Rightarrow> Inr content, d, w))"

definition read_bytes :: "'w os \<Rightarrow> nat \<Rightarrow> string \<Rightarrow> (directory \<times> 'w, string) io" where
  "read_bytes os limit content = bind_io (os_check os ReadBytes) (\<lambda>_. return_io (take limit content))"

text \<open>\<open>mkstemp\<close> creates the first candidate that does not exist, empty.\<close>

definition mkstemp :: "'w os \<Rightarrow> string \<Rightarrow> string \<Rightarrow> (directory \<times> 'w, string) io" where
  "mkstemp os prefix suffix =
     bind_io (os_check os MakeTemporary) (\<lambda>_ (d, w).
       case os_candidates os w of (cs, w') \<Rightarrow>
         case find (\<lambda>c. d (prefix @ c @ suffix) = None) cs of
           None \<Rightarrow> (Inl OSError, d, w')
         | Some c \<Rightarrow> (Inr (prefix @ c @ suffix), d(prefix @ c @ suffix \<mapsto> []), w'))"

definition write_temporary :: "'w os \<Rightarrow> string \<Rightarrow> string \<Rightarrow> (directory \<times> 'w, unit) io" where
  "write_temporary os tmp data dw =
     (case dw of (d, w) \<Rightarrow> case os_fault os WriteTemporary d w of
        (None, w') \<Rightarrow> (Inr (), d(tmp \<mapsto> data), w')
      | (Some (f, n), w') \<Rightarrow> (Inl (failure_exn f), d(tmp \<mapsto> take n data), w'))"

definition os_replace :: "'w os \<Rightarrow> string \<Rightarrow> string \<Rightarrow> (directory \<times> 'w, unit) io" where
  "os_replace os src dst =
     bind_io (os_check os Replace) (\<lambda>_ (d, w).
       case d src of None \<Rightarrow> (Inl FileNotFoundError, d, w)
       | Some content \<Rightarrow> (Inr (), (d(src := None))(dst \<mapsto> content), w))"

definition unlink :: "'w os \<Rightarrow> string \<Rightarrow> (directory \<times> 'w, unit) io" where
  "unlink os name =
     bind_io (os_check os Unlink) (\<lambda>_ (d, w).
       if d name = None then (Inl FileNotFoundError, d, w) else (Inr (), d(name := None), w))"

section \<open>The store\<close>

definition max_deadman_state_bytes :: nat where "max_deadman_state_bytes = 1048576"

abbreviation store_error :: "('s, 'a) io" where
  "store_error \<equiv> lift_io (Inl DeadManStateStoreError)"

definition remove_quietly :: "'w os \<Rightarrow> string \<Rightarrow> (directory \<times> 'w, unit) io" where
  "remove_quietly os name = catch_io (unlink os name) is_os_error (\<lambda>_. return_io ())"

text \<open>The descriptor is closed on every way out of the synchronisation.\<close>

definition sync_directory_best_effort :: "'w os \<Rightarrow> (directory \<times> 'w, unit) io" where
  "sync_directory_best_effort os =
     (if \<not> os_has_o_directory os then return_io ()
      else bind_io
        (catch_io (bind_io (os_check os OpenDirectory) (\<lambda>_. return_io True)) is_os_error (\<lambda>_. return_io False)) (\<lambda>opened.
        if \<not> opened then return_io ()
        else (\<lambda>dw.
          let (synced, dw1) = catch_io (os_check os SyncDirectory) is_os_error (\<lambda>_. return_io ()) dw;
              (closed, dw2) = catch_io (os_check os CloseDirectory) is_os_error (\<lambda>_. return_io ()) dw1
          in (case closed of Inl e \<Rightarrow> Inl e | Inr _ \<Rightarrow> synced, dw2))))"

text \<open>What a loaded file means, once its bounded content was read.\<close>

definition read_document :: "nat \<Rightarrow> string \<Rightarrow> dm_status res" where
  "read_document limit raw =
     (if max_deadman_state_bytes < length raw then Inl DeadManStateStoreError
      else
        bind_res (catch_res (utf8_decode raw) (\<lambda>e. e = UnicodeDecodeError) (\<lambda>_. Inl DeadManStateStoreError)) (\<lambda>text.
        catch_res (decode_deadman_status limit text) (\<lambda>e. e = DeadManStateDecodeError)
          (\<lambda>_. Inl DeadManStateStoreError)))"

definition store_load :: "nat \<Rightarrow> 'w os \<Rightarrow> string \<Rightarrow> (directory \<times> 'w, dm_status) io" where
  "store_load limit os name =
     bind_io
       (catch_io
         (bind_io (open_read os name) (\<lambda>content.
          bind_io (read_bytes os (max_deadman_state_bytes + 1) content) (\<lambda>raw. return_io (Some raw))))
         is_os_error
         (\<lambda>e. if e = FileNotFoundError then return_io None else store_error)) (\<lambda>read.
     case read of
       None \<Rightarrow> return_io initial_status
     | Some raw \<Rightarrow> lift_io (read_document limit raw))"

definition store_save :: "'w os \<Rightarrow> string \<Rightarrow> dm_status \<Rightarrow> (directory \<times> 'w, unit) io" where
  "store_save os name s =
     bind_io (lift_io (encode_deadman_status s)) (\<lambda>text.
     let data = utf8_encode text in
     if max_deadman_state_bytes < length data then store_error
     else
       bind_io (catch_io (mkstemp os (''.'' @ name @ ''.'') ''.tmp'') is_os_error (\<lambda>_. store_error)) (\<lambda>tmp.
       bind_io (catch_io (write_temporary os tmp data) is_os_error
         (\<lambda>_. bind_io (remove_quietly os tmp) (\<lambda>_. store_error))) (\<lambda>_.
       bind_io (catch_io (os_replace os tmp name) is_os_error
         (\<lambda>_. bind_io (remove_quietly os tmp) (\<lambda>_. store_error))) (\<lambda>_.
       sync_directory_best_effort os))))"

section \<open>The durable view\<close>

text \<open>The status the directory holds under the state file's name.\<close>

definition stored :: "nat \<Rightarrow> string \<Rightarrow> directory \<Rightarrow> dm_status res" where
  "stored limit name d = (case d name of None \<Rightarrow> Inr initial_status | Some raw \<Rightarrow> read_document limit raw)"

text \<open>The adversary keeps its own invariant \<open>J\<close> as long as it is only shown directories in \<open>D\<close>.\<close>

definition tolerates :: "'w os \<Rightarrow> (directory \<Rightarrow> bool) \<Rightarrow> ('w \<Rightarrow> bool) \<Rightarrow> bool" where
  "tolerates os D J \<longleftrightarrow>
     (\<forall>c d w. D d \<longrightarrow> J w \<longrightarrow> J (snd (os_fault os c d w))) \<and> (\<forall>w. J w \<longrightarrow> J (snd (os_candidates os w)))"

lemma read_document_bounded [simp]:
  "read_document limit (take (Suc max_deadman_state_bytes) raw) = read_document limit raw"
  by (simp add: read_document_def)

lemma failure_exn_simps [simp]:
  "is_os_error (failure_exn f) \<longleftrightarrow> f = OsFails" "is_exception (failure_exn f) \<longleftrightarrow> f = OsFails"
  "failure_exn f \<noteq> FileNotFoundError"
  by (cases f; simp add: is_os_error_def)+

lemma tolerates_fault: "tolerates os D J \<Longrightarrow> D d \<Longrightarrow> J w \<Longrightarrow> os_fault os c d w = (f, w') \<Longrightarrow> J w'"
  by (metis tolerates_def snd_conv)

lemma tolerates_candidates: "tolerates os D J \<Longrightarrow> J w \<Longrightarrow> os_candidates os w = (cs, w') \<Longrightarrow> J w'"
  by (metis tolerates_def snd_conv)

lemma os_check_triple:
  assumes "tolerates os D J" "\<And>d. Q d \<Longrightarrow> D d"
  shows "triple (\<lambda>(d, w). Q d \<and> J w) (os_check os c) (\<lambda>_ (d, w). Q d \<and> J w)
    (\<lambda>e (d, w). Q d \<and> J w \<and> (\<exists>f. e = failure_exn f))"
  by (rule tripleI; clarsimp simp: os_check_def split: prod.splits option.splits)
    (auto dest: tolerates_fault [OF assms(1)] assms(2))

text \<open>The temporary name is new, so the file it names was neither the target nor any other file.\<close>

lemma temporary_differs: "''.'' @ name @ ''.'' @ c @ ''.tmp'' \<noteq> name"
proof
  assume "''.'' @ name @ ''.'' @ c @ ''.tmp'' = name"
  then have "length (''.'' @ name @ ''.'' @ c @ ''.tmp'') = length name" by (rule arg_cong)
  then show False by simp
qed

text \<open>Directories that show the old or the new target and every other file of \<open>d0\<close> as it was.\<close>

definition untorn :: "directory \<Rightarrow> string \<Rightarrow> string \<Rightarrow> directory \<Rightarrow> bool" where
  "untorn d0 name data d \<longleftrightarrow>
     (d name = d0 name \<or> d name = Some data) \<and> (\<forall>n. n \<noteq> name \<longrightarrow> d0 n \<noteq> None \<longrightarrow> d n = d0 n)"

definition prepared :: "directory \<Rightarrow> string \<Rightarrow> string \<Rightarrow> directory \<Rightarrow> bool" where
  "prepared d0 name tmp d \<longleftrightarrow>
     tmp \<noteq> name \<and> d0 tmp = None \<and> d name = d0 name \<and> (\<forall>n. n \<noteq> name \<longrightarrow> d0 n \<noteq> None \<longrightarrow> d n = d0 n)"

lemma prepared_untorn: "prepared d0 name tmp d \<Longrightarrow> untorn d0 name data d"
  by (simp add: prepared_def untorn_def)

lemma prepared_update: "prepared d0 name tmp d \<Longrightarrow> prepared d0 name tmp (d(tmp := x))"
  by (auto simp: prepared_def)

lemma triple_check_bind:
  assumes "tolerates os D J" "\<And>d. Q d \<Longrightarrow> D d"
    and "triple (\<lambda>(d, w). Q d \<and> J w) (f ()) R E"
    and "\<And>k d w. Q d \<Longrightarrow> J w \<Longrightarrow> E (failure_exn k) (d, w)"
  shows "triple (\<lambda>(d, w). Q d \<and> J w) (bind_io (os_check os c) f) R E"
proof (rule triple_bind)
  show "triple (\<lambda>(d, w). Q d \<and> J w) (os_check os c) (\<lambda>_ (d, w). Q d \<and> J w) E"
    by (rule triple_conseq [OF os_check_triple [OF assms(1,2)]]) (auto intro: assms(4))
qed (use assms(3) in simp)

lemma mkstemp_triple:
  assumes "tolerates os (untorn d0 name data) J"
  shows "triple (\<lambda>(d, w). d = d0 \<and> J w) (mkstemp os (''.'' @ name @ ''.'') ''.tmp'')
    (\<lambda>tmp (d, w). prepared d0 name tmp d \<and> J w)
    (\<lambda>e (d, w). d = d0 \<and> J w \<and> (is_os_error e \<or> \<not> is_exception e))"
  unfolding mkstemp_def
proof (rule triple_check_bind [OF assms], goal_cases)
  case 2
  then show ?case
    using temporary_differs [of name]
    by (intro tripleI)
      (auto simp: prepared_def is_os_error_def split: prod.splits option.splits
        dest: tolerates_candidates [OF assms] find_SomeD)
qed (auto simp: untorn_def)

lemma write_triple:
  assumes "tolerates os (untorn d0 name data) J"
  shows "triple (\<lambda>(d, w). prepared d0 name tmp d \<and> J w) (write_temporary os tmp data)
    (\<lambda>_ (d, w). (prepared d0 name tmp d \<and> d tmp = Some data) \<and> J w)
    (\<lambda>e (d, w). prepared d0 name tmp d \<and> J w \<and> (is_os_error e \<or> \<not> is_exception e))"
  by (rule tripleI; clarsimp simp: write_temporary_def split: prod.splits option.splits)
    (auto simp: prepared_update dest: tolerates_fault [OF assms prepared_untorn])

lemma replace_triple:
  assumes "tolerates os (untorn d0 name data) J"
  shows "triple (\<lambda>(d, w). (prepared d0 name tmp d \<and> d tmp = Some data) \<and> J w) (os_replace os tmp name)
    (\<lambda>_ (d, w). (untorn d0 name data d \<and> d name = Some data) \<and> J w)
    (\<lambda>e (d, w). prepared d0 name tmp d \<and> J w \<and> (is_os_error e \<or> \<not> is_exception e))"
  unfolding os_replace_def
proof (rule triple_check_bind [OF assms], goal_cases)
  case 2
  then show ?case by (intro tripleI) (auto simp: prepared_def untorn_def split: option.splits)
qed (auto simp: prepared_untorn)

lemma remove_triple:
  assumes "tolerates os (untorn d0 name data) J"
  shows "triple (\<lambda>(d, w). prepared d0 name tmp d \<and> J w) (remove_quietly os tmp)
    (\<lambda>_ (d, w). prepared d0 name tmp d \<and> J w)
    (\<lambda>e (d, w). prepared d0 name tmp d \<and> J w \<and> \<not> is_exception e)"
  unfolding remove_quietly_def unlink_def
proof (rule triple_catch [where R = "\<lambda>e (d, w). prepared d0 name tmp d \<and> J w \<and> (is_os_error e \<or> \<not> is_exception e)"],
    rule triple_check_bind [OF assms], goal_cases)
  case 2
  then show ?case by (intro tripleI) (auto simp: prepared_update is_os_error_def split: if_splits)
qed (auto simp: prepared_untorn intro: triple_return)

lemma sync_triple:
  assumes "tolerates os (untorn d0 name data) J"
  shows "triple (\<lambda>(d, w). (untorn d0 name data d \<and> d name = Some data) \<and> J w) (sync_directory_best_effort os)
    (\<lambda>_ (d, w). (untorn d0 name data d \<and> d name = Some data) \<and> J w)
    (\<lambda>e (d, w). (untorn d0 name data d \<and> d name = Some data) \<and> J w \<and> \<not> is_exception e)"
proof -
  let ?P = "\<lambda>(d, w). (untorn d0 name data d \<and> d name = Some data) \<and> J w"
  let ?E = "\<lambda>e (d, w). (untorn d0 name data d \<and> d name = Some data) \<and> J w \<and> \<not> is_exception e"
  have quiet: "triple ?P (catch_io (bind_io (os_check os c) (\<lambda>_. return_io x)) is_os_error (\<lambda>_. return_io y)) (\<lambda>_. ?P) ?E"
    for c and x y :: bool
    by (rule triple_catch [where R = "\<lambda>e s. ?P s \<and> (is_os_error e \<or> \<not> is_exception e)"],
        rule triple_check_bind [OF assms])
      (auto intro: triple_return)
  have plain: "triple ?P (catch_io (os_check os c) is_os_error (\<lambda>_. return_io ())) (\<lambda>_. ?P) ?E" for c
    by (rule triple_catch [where R = "\<lambda>e s. ?P s \<and> (is_os_error e \<or> \<not> is_exception e)"],
        rule triple_conseq [OF os_check_triple
          [OF assms, of "\<lambda>d. untorn d0 name data d \<and> d name = Some data"]])
      (auto intro: triple_return)
  show ?thesis
    unfolding sync_directory_best_effort_def
  proof (rule triple_if, goal_cases)
    case 2
    show ?case
    proof (rule triple_bind [OF quiet], rule triple_if)
      show "triple ?P (\<lambda>dw.
          let (synced, dw1) = catch_io (os_check os SyncDirectory) is_os_error (\<lambda>_. return_io ()) dw;
              (closed, dw2) = catch_io (os_check os CloseDirectory) is_os_error (\<lambda>_. return_io ()) dw1
          in (case closed of Inl e \<Rightarrow> Inl e | Inr _ \<Rightarrow> synced, dw2)) (\<lambda>_. ?P) ?E"
        by (rule finally_triple [OF plain plain]) auto
    qed (auto intro: triple_return)
  qed (auto intro: triple_return)
qed

text \<open>What \<open>save\<close> does to the directory, whatever the operating system does.\<close>

lemma save_triple:
  assumes "tolerates os (untorn d0 name (utf8_encode text)) J" "encode_deadman_status s = Inr text"
  shows "triple (\<lambda>(d, w). d = d0 \<and> J w) (store_save os name s)
    (\<lambda>_ (d, w). untorn d0 name (utf8_encode text) d \<and> d name = Some (utf8_encode text) \<and>
      length (utf8_encode text) \<le> max_deadman_state_bytes \<and> J w)
    (\<lambda>e (d, w). untorn d0 name (utf8_encode text) d \<and> J w \<and>
      (is_exception e \<longrightarrow> d name = d0 name \<and> e = DeadManStateStoreError) \<and>
      (d name \<noteq> d0 name \<longrightarrow> length (utf8_encode text) \<le> max_deadman_state_bytes))"
proof (cases "max_deadman_state_bytes < length (utf8_encode text)")
  case True
  then show ?thesis
    by (simp add: store_save_def assms(2) Let_def bind_io_def triple_def untorn_def)
next
  case False
  let ?E = "\<lambda>e (d, w). untorn d0 name (utf8_encode text) d \<and> J w \<and>
      (is_exception e \<longrightarrow> d name = d0 name \<and> e = DeadManStateStoreError)"
  note u = prepared_untorn [of d0 name _ _ "utf8_encode text"]
  have store: "triple (\<lambda>(d, w). prepared d0 name tmp d \<and> J w) store_error Q ?E" for tmp Q
    by (rule triple_lift) (auto simp: u, simp add: prepared_def)
  have cleanup: "triple (\<lambda>(d, w). prepared d0 name tmp d \<and> J w \<and> (is_os_error e \<or> \<not> is_exception e))
      (bind_io (remove_quietly os tmp) (\<lambda>_. store_error)) Q ?E" for tmp e and Q :: "unit \<Rightarrow> _"
    by (rule triple_bind [OF triple_conseq [OF remove_triple [OF assms(1)]] store]) (auto simp: u)
  let ?Q = "\<lambda>_ (d, w). (untorn d0 name (utf8_encode text) d \<and> d name = Some (utf8_encode text)) \<and> J w"
  have replace: "triple (\<lambda>(d, w). (prepared d0 name tmp d \<and> d tmp = Some (utf8_encode text)) \<and> J w)
      (catch_io (os_replace os tmp name) is_os_error (\<lambda>_. bind_io (remove_quietly os tmp) (\<lambda>_. store_error))) ?Q ?E" for tmp
    by (rule triple_catch [OF replace_triple [OF assms(1)] cleanup]) (auto simp: u)
  have sync: "triple (?Q ()) (sync_directory_best_effort os) ?Q ?E"
    by (rule triple_conseq [OF sync_triple [OF assms(1)]]) auto
  have writes: "triple (\<lambda>(d, w). prepared d0 name tmp d \<and> J w)
      (catch_io (write_temporary os tmp (utf8_encode text)) is_os_error
        (\<lambda>_. bind_io (remove_quietly os tmp) (\<lambda>_. store_error)))
      (\<lambda>_ (d, w). (prepared d0 name tmp d \<and> d tmp = Some (utf8_encode text)) \<and> J w) ?E" for tmp
    by (rule triple_catch [OF write_triple [OF assms(1)] cleanup]) (auto simp: u)
  have make: "triple (\<lambda>(d, w). d = d0 \<and> J w)
      (catch_io (mkstemp os (''.'' @ name @ ''.'') ''.tmp'') is_os_error (\<lambda>_. store_error))
      (\<lambda>tmp (d, w). prepared d0 name tmp d \<and> J w) ?E"
    by (rule triple_catch [OF mkstemp_triple [OF assms(1)]]) (auto simp: untorn_def intro!: triple_lift)
  have "triple (\<lambda>(d, w). d = d0 \<and> J w) (store_save os name s) ?Q ?E"
    unfolding store_save_def assms(2) bind_lift Let_def if_not_P [OF False]
    by (rule triple_bind [OF make triple_bind [OF writes triple_bind [OF replace sync]]])
  then show ?thesis using False by (auto simp: triple_def split: prod.splits sum.splits)
qed

lemma save_rejected:
  "encode_deadman_status s = Inl e \<Longrightarrow> store_save os name s (d, w) = (Inl e, d, w)"
  "encode_deadman_status s = Inr text \<Longrightarrow> max_deadman_state_bytes < length (utf8_encode text) \<Longrightarrow>
    store_save os name s (d, w) = (Inl DeadManStateStoreError, d, w)"
  by (simp_all add: store_save_def Let_def)

lemma stored_written:
  assumes "status_ok s" "encode_deadman_status s = Inr text" "4 \<le> limit"
    and "length (utf8_encode text) \<le> max_deadman_state_bytes" "d name = Some (utf8_encode text)"
  shows "stored limit name d = Inr (canonical_status s)"
  using encode_round_trip [OF assms(1-3)] assms(4,5)
  by (simp add: stored_def read_document_def catch_res_def)

lemma stored_cong: "d name = d' name \<Longrightarrow> stored limit name d = stored limit name d'"
  by (simp add: stored_def)

text \<open>Loading shows what is stored, or fails, and writes nothing.\<close>

text \<open>How reading ends: with the bounded content, or an exception that leaves the directory alone.\<close>

definition read_failed :: "directory \<Rightarrow> string \<Rightarrow> ('w \<Rightarrow> bool) \<Rightarrow> exn \<Rightarrow> directory \<times> 'w \<Rightarrow> bool" where
  "read_failed d0 name J e dw \<longleftrightarrow> fst dw = d0 \<and> J (snd dw) \<and>
     (if e = FileNotFoundError then d0 name = None else is_os_error e \<or> \<not> is_exception e)"

lemma read_check:
  assumes "tolerates os (\<lambda>d. d = d0) J" "\<And>d. Q d \<Longrightarrow> d = d0"
    and "triple (\<lambda>(d, w). Q d \<and> J w) (f ()) R (read_failed d0 name J)"
  shows "triple (\<lambda>(d, w). Q d \<and> J w) (bind_io (os_check os c) f) R (read_failed d0 name J)"
  by (rule triple_check_bind [OF assms(1), of Q]) (use assms(2,3) in \<open>auto simp: read_failed_def\<close>)

lemma open_triple:
  assumes "tolerates os (\<lambda>d. d = d0) J"
  shows "triple (\<lambda>(d, w). d = d0 \<and> J w) (open_read os name)
    (\<lambda>content (d, w). (d = d0 \<and> d0 name = Some content) \<and> J w) (read_failed d0 name J)"
  unfolding open_read_def
  by (rule read_check [OF assms], simp, rule tripleI) (auto simp: read_failed_def split: option.splits)

lemma read_triple:
  assumes "tolerates os (\<lambda>d. d = d0) J"
  shows "triple (\<lambda>(d, w). (d = d0 \<and> d0 name = Some content) \<and> J w)
    (bind_io (read_bytes os n content) (\<lambda>raw. return_io (Some raw)))
    (\<lambda>x (d, w). d = d0 \<and> x = map_option (take n) (d0 name) \<and> J w) (read_failed d0 name J)"
  unfolding read_bytes_def
  by (rule triple_bind [where R = "\<lambda>raw (d, w). d = d0 \<and> d0 name = Some content \<and> raw = take n content \<and> J w"],
      rule read_check [OF assms]) (auto intro!: triple_return)

lemma load_triple:
  assumes "tolerates os (\<lambda>d. d = d0) J"
  shows "triple (\<lambda>(d, w). d = d0 \<and> J w) (store_load limit os name)
    (\<lambda>s (d, w). d = d0 \<and> J w \<and> stored limit name d0 = Inr s)
    (\<lambda>e (d, w). d = d0 \<and> J w \<and>
      (stored limit name d0 = Inl e \<or> e = DeadManStateStoreError \<or> \<not> is_exception e))"
  (is "triple ?P _ ?Q ?E")
proof -
  have "triple ?P
      (catch_io (bind_io (open_read os name) (\<lambda>content.
         bind_io (read_bytes os n content) (\<lambda>raw. return_io (Some raw)))) is_os_error
        (\<lambda>e. if e = FileNotFoundError then return_io None else store_error))
      (\<lambda>x (d, w). d = d0 \<and> x = map_option (take n) (d0 name) \<and> J w) ?E" for n
    by (rule triple_catch [OF triple_bind [OF open_triple [OF assms] read_triple [OF assms]]])
      (auto simp: read_failed_def is_os_error_def intro!: triple_if triple_return triple_lift)
  then show ?thesis
    unfolding store_load_def
    by (rule triple_bind)
      (auto simp: stored_def triple_def split: option.splits sum.splits)
qed

section \<open>Properties\<close>

text \<open>The operating system with a record of every directory it was shown.\<close>

definition watched :: "'w os \<Rightarrow> (directory list \<times> 'w) os" where
  "watched os =
     \<lparr>os_fault = (\<lambda>c d (seen, w). case os_fault os c d w of (f, w') \<Rightarrow> (f, seen @ [d], w')),
      os_candidates = (\<lambda>(seen, w). case os_candidates os w of (cs, w') \<Rightarrow> (cs, seen, w')),
      os_has_o_directory = os_has_o_directory os\<rparr>"

lemma watched_tolerates: "tolerates (watched os) D (\<lambda>(seen, w). \<forall>x \<in> set seen. D x)"
  by (auto simp: tolerates_def watched_def split: prod.splits)

text \<open>C13: a save is atomic: at every system call, and so at every moment the process can die, the
  state file holds what it held before or the complete new status, and every other file is as it
  was; a save that returns has stored the status; one that raises an exception has left the
  previous content and raised the bounded store error, unless encoding itself raised.\<close>

theorem save_is_atomic:
  assumes "status_ok s" "4 \<le> limit" "store_save (watched os) name s (d, [], w) = (r, d', seen, w')"
  shows "(\<forall>x \<in> set (d' # seen). (x name = d name \<or> stored limit name x = Inr (canonical_status s)) \<and>
      (\<forall>n. n \<noteq> name \<longrightarrow> d n \<noteq> None \<longrightarrow> x n = d n)) \<and>
    (r = Inr () \<longrightarrow> stored limit name d' = Inr (canonical_status s)) \<and>
    (\<forall>e. r = Inl e \<and> is_exception e \<longrightarrow> d' name = d name \<and>
      (e = DeadManStateStoreError \<or> encode_deadman_status s = Inl e))"
proof (cases "encode_deadman_status s")
  case (Inl e)
  then show ?thesis using assms(3) by (auto simp: save_rejected(1))
next
  case (Inr doc)
  show ?thesis
  proof (cases "max_deadman_state_bytes < length (utf8_encode doc)")
    case True
    then show ?thesis using assms(3) Inr by (auto simp: save_rejected(2))
  next
    case False
    let ?J = "\<lambda>(seen, w). \<forall>x \<in> set seen. untorn d name (utf8_encode doc) x"
    have new: "stored limit name x = Inr (canonical_status s)" if "x name = Some (utf8_encode doc)" for x
      using stored_written [of s doc limit x name] assms(1,2) Inr False that by simp
    have "untorn d name (utf8_encode doc) x \<Longrightarrow> (x name = d name \<or> stored limit name x = Inr (canonical_status s)) \<and>
      (\<forall>n. n \<noteq> name \<longrightarrow> d n \<noteq> None \<longrightarrow> x n = d n)" for x
      using new by (auto simp: untorn_def)
    moreover note t = save_triple [OF watched_tolerates Inr, of d name os]
    have "untorn d name (utf8_encode doc) d' \<and> ?J (seen, w') \<and>
        (r = Inr () \<longrightarrow> d' name = Some (utf8_encode doc)) \<and>
        (\<forall>e. r = Inl e \<and> is_exception e \<longrightarrow> d' name = d name \<and> e = DeadManStateStoreError)"
    proof (cases r)
      case (Inl e)
      then show ?thesis using triple_Inl [OF t, of "(d, [], w)" e "(d', seen, w')"] assms(3) by simp
    next
      case (Inr u)
      then show ?thesis using triple_Inr [OF t, of "(d, [], w)" u "(d', seen, w')"] assms(3) by simp
    qed
    ultimately show ?thesis using new by auto
  qed
qed

definition calm_os :: "unit os" where
  "calm_os = \<lparr>os_fault = (\<lambda>_ _ w. (None, w)), os_candidates = (\<lambda>w. ([''x''], w)), os_has_o_directory = True\<rparr>"

lemma save_is_atomic_witness:
  "\<exists>r d' seen w'. store_save (watched calm_os) ''state'' initial_status (Map.empty, [], ()) = (r, d', seen, w') \<and>
    (\<forall>x \<in> set (d' # seen). x ''state'' = None \<or> stored 900 ''state'' x = Inr initial_status)"
proof -
  obtain r d' seen w' where run: "store_save (watched calm_os) ''state'' initial_status (Map.empty, [], ()) = (r, d', seen, w')"
    by (metis prod.exhaust)
  have "canonical_status initial_status = initial_status" by (simp add: canonical_status_def initial_status_def)
  then show ?thesis
    using save_is_atomic [OF initial_status_ok _ run, of 900] run by (intro exI conjI) auto
qed

end
