(* ===== verification/Py_Http.thy ===== *)
theory Py_Http
  imports Py_Bytes Py_Float
begin

text \<open>
  What the program uses of \<open>urllib\<close>: the splitting of a URL, and the transport seam its adapters
  are given.  A response is the set of effects its attributes and methods have; an opener either
  answers, raises \<open>HTTPError\<close> (which is itself a response), or raises something else.
\<close>

section \<open>Splitting a URL\<close>

text \<open>\<open>str.partition\<close>: before, whether the separator occurs, after\<close>

definition partition_at :: "char \<Rightarrow> string \<Rightarrow> string \<times> bool \<times> string" where
  "partition_at c s = (takeWhile (\<lambda>x. x \<noteq> c) s, c \<in> set s, tl (dropWhile (\<lambda>x. x \<noteq> c) s))"

definition is_ascii_alpha :: "char \<Rightarrow> bool" where
  "is_ascii_alpha c \<longleftrightarrow> (65 \<le> code c \<and> code c \<le> 90) \<or> (97 \<le> code c \<and> code c \<le> 122)"

definition is_ascii_digit :: "char \<Rightarrow> bool" where
  "is_ascii_digit c \<longleftrightarrow> 48 \<le> code c \<and> code c \<le> 57"

definition ascii_lower :: "char \<Rightarrow> char" where
  "ascii_lower c = (if 65 \<le> code c \<and> code c \<le> 90 then char_of (code c + 32) else c)"

record split_result =
  sp_scheme :: string
  sp_netloc :: string
  sp_path :: string
  sp_query :: string
  sp_fragment :: string

text \<open>
  \<open>urlsplit\<close>.  Its check of a bracketed host goes through the \<open>ipaddress\<close> module and depends on
  the interpreter's version: \<open>bracket_ok\<close> stands for it.
\<close>

definition urlsplit :: "(string \<Rightarrow> bool) \<Rightarrow> string \<Rightarrow> split_result res" where
  "urlsplit bracket_ok raw =
     (let url = filter (\<lambda>c. code c \<notin> {9, 10, 13}) (dropWhile (\<lambda>c. code c \<le> 32) raw);
          (prefix, colon, after) = partition_at (CHR '':'') url;
          schemed = colon \<and> prefix \<noteq> [] \<and> is_ascii_alpha (hd prefix) \<and>
            list_all (\<lambda>c. is_ascii_alpha c \<or> is_ascii_digit c \<or> c \<in> set ''+-.'') prefix;
          scheme = (if schemed then map ascii_lower prefix else []);
          rest = (if schemed then after else url);
          hier = take 2 rest = ''//'';
          netloc = (if hier then takeWhile (\<lambda>c. c \<notin> set ''/?#'') (drop 2 rest) else []);
          tail = (if hier then drop (2 + length netloc) rest else rest);
          (tail', _, fragment) = partition_at (CHR ''#'') tail;
          (path, _, query) = partition_at (CHR ''?'') tail'
      in if (CHR ''['' \<in> set netloc) \<noteq> (CHR '']'' \<in> set netloc) then Inl ValueError
         else if CHR ''['' \<in> set netloc \<and> \<not> bracket_ok netloc then Inl ValueError
         else Inr \<lparr>sp_scheme = scheme, sp_netloc = netloc, sp_path = path, sp_query = query,
                   sp_fragment = fragment\<rparr>)"

text \<open>\<open>SplitResult._hostinfo\<close>: host text and optional port text\<close>

definition hostinfo :: "string \<Rightarrow> string \<times> string option" where
  "hostinfo netloc =
     (let info = rev (takeWhile (\<lambda>c. c \<noteq> CHR ''@'') (rev netloc));
          (_, bracket, bracketed) = partition_at (CHR ''['') info;
          (host, _, after) = partition_at (CHR '']'') bracketed;
          (_, colon, port) = partition_at (CHR '':'') after;
          (host', colon', port') = partition_at (CHR '':'') info
      in if bracket then (host, if colon then Some port else None)
         else (host', if colon' then Some port' else None))"

text \<open>The \<open>port\<close> property raises unless the text is a decimal number up to 65535.\<close>

definition decimal_value :: "string \<Rightarrow> nat" where
  "decimal_value s = foldl (\<lambda>n c. 10 * n + (code c - 48)) 0 s"

definition port_check :: "string \<Rightarrow> unit res" where
  "port_check netloc =
     (case snd (hostinfo netloc) of
        None \<Rightarrow> Inr ()
      | Some port \<Rightarrow>
          raise_if (port = [] \<or> \<not> list_all is_ascii_digit port \<or> 65535 < decimal_value port) ValueError)"

section \<open>The transport seam\<close>

record http_request =
  rq_url :: string
  rq_method :: string
  rq_data :: "string option"
  rq_headers :: "(string \<times> string) list"

record 'w http_response =
  rs_status :: "('w, int) io"
  rs_get_all :: "string \<Rightarrow> ('w, string list option) io"
  rs_read :: "nat \<Rightarrow> ('w, string) io"
  rs_close :: "('w, unit) io"

datatype 'w opened = Answered "'w http_response" | RaisedHttpError int "'w http_response"

type_synonym 'w opener = "http_request \<Rightarrow> pynum \<Rightarrow> ('w, 'w opened) io"

section \<open>The production opener\<close>

text \<open>
  \<open>urllib.request.build_opener\<close> with a redirect handler of its own.  One request makes one exchange with
  the network (\<open>ul_exchange\<close>); the answer has a status code, the first \<open>Location\<close> or else \<open>URI\<close> header,
  and the response itself.  \<open>ul_join\<close> stands for the quoting and joining of the new address, \<open>ul_follow\<close>
  for what the director does with a request that a redirect handler returns.
\<close>

record 'w http_answer =
  an_code :: int
  an_location :: "string option"
  an_response :: "'w http_response"

record 'w urllib =
  ul_exchange :: "http_request \<Rightarrow> pynum \<Rightarrow> ('w, 'w http_answer) io"
  ul_bracket_ok :: "string \<Rightarrow> bool"
  ul_join :: "string \<Rightarrow> split_result \<Rightarrow> string res"
  ul_follow :: "http_request \<Rightarrow> pynum \<Rightarrow> ('w, 'w opened) io"

text \<open>What \<open>redirect_request\<close> does: raise, return a new request, or return \<open>None\<close>.\<close>

datatype 'w redirection = RaiseHttpError int "'w http_response" | FollowRedirect http_request | DeclineRedirect

type_synonym 'w redirect_handler = "http_request \<Rightarrow> 'w http_response \<Rightarrow> int \<Rightarrow> string \<Rightarrow> 'w redirection"

definition redirect_codes :: "int list" where "redirect_codes = [301, 302, 303, 307, 308]"

text \<open>\<open>HTTPRedirectHandler.http_error_302\<close>, and \<open>HTTPDefaultErrorHandler\<close> after it\<close>

definition http_error_302 ::
  "'w urllib \<Rightarrow> 'w redirect_handler \<Rightarrow> http_request \<Rightarrow> pynum \<Rightarrow> 'w http_answer \<Rightarrow> ('w, 'w opened) io" where
  "http_error_302 ul redirect_request request timeout answer =
     (let default_error = return_io (RaisedHttpError (an_code answer) (an_response answer)) in
      case an_location answer of
        None \<Rightarrow> default_error
      | Some location \<Rightarrow>
          bind_io (lift_io (urlsplit (ul_bracket_ok ul) location)) (\<lambda>parts.
            if sp_scheme parts \<notin> {''http'', ''https'', ''ftp'', []} then default_error
            else bind_io (lift_io (ul_join ul (rq_url request) parts)) (\<lambda>newurl.
              case redirect_request request (an_response answer) (an_code answer) newurl of
                RaiseHttpError status response \<Rightarrow> return_io (RaisedHttpError status response)
              | FollowRedirect request' \<Rightarrow> ul_follow ul request' timeout
              | DeclineRedirect \<Rightarrow> default_error)))"

text \<open>\<open>OpenerDirector.open\<close> with \<open>HTTPErrorProcessor\<close>\<close>

definition director_open :: "'w urllib \<Rightarrow> 'w redirect_handler \<Rightarrow> 'w opener" where
  "director_open ul redirect_request request timeout =
     bind_io (ul_exchange ul request timeout) (\<lambda>answer.
       if 200 \<le> an_code answer \<and> an_code answer < 300 then return_io (Answered (an_response answer))
       else if an_code answer \<in> set redirect_codes then http_error_302 ul redirect_request request timeout answer
       else return_io (RaisedHttpError (an_code answer) (an_response answer)))"

section \<open>Transport failures\<close>

text \<open>\<open>except (TimeoutError, OSError, http.client.HTTPException)\<close>\<close>

definition transport_error :: "exn \<Rightarrow> bool" where
  "transport_error e \<longleftrightarrow> is_os_error e \<or> e = HTTPException"

end
