(* ===== verification/Deadman_Probe.thy ===== *)
theory Deadman_Probe
  imports Deadman Py_Http
begin

text \<open>
  \<open>deadman_probe.py\<close>: one HTTPS liveness observation.  The opener is a parameter; whatever it and
  the response do, only a complete response with the healthy signature is \<open>HEALTHY\<close>.
\<close>

section \<open>Settings\<close>

definition probe_require_positive :: "pynum \<Rightarrow> unit res" where
  "probe_require_positive v =
     bind_res (math_isfinite v) (\<lambda>finite.
       in_order [raise_if (\<not> finite) ValueError, raise_if (num_le v (PInt 0)) ValueError])"

definition require_https_url :: "(string \<Rightarrow> bool) \<Rightarrow> string \<Rightarrow> unit res" where
  "require_https_url bracket_ok url =
     bind_res (in_order
       [raise_if (url = []) ValueError,
        raise_if (list_ex (\<lambda>c. is_space c \<or> code c < 32 \<or> code c = 127) url) ValueError]) (\<lambda>_.
     bind_res (urlsplit bracket_ok url) (\<lambda>split.
       in_order
         [raise_if (sp_scheme split \<noteq> ''https'') ValueError,
          raise_if (fst (hostinfo (sp_netloc split)) = []) ValueError,
          raise_if (sp_fragment split \<noteq> []) ValueError,
          raise_if (CHR ''@'' \<in> set (sp_netloc split)) ValueError,
          port_check (sp_netloc split)]))"

record probe_settings =
  ps_url :: string
  ps_timeout_seconds :: pynum

definition probe_settings_post_init :: "(string \<Rightarrow> bool) \<Rightarrow> probe_settings \<Rightarrow> unit res" where
  "probe_settings_post_init bracket_ok s =
     in_order [require_https_url bracket_ok (ps_url s), probe_require_positive (ps_timeout_seconds s)]"

section \<open>The production opener\<close>

text \<open>\<open>_NoRedirectHandler\<close> and \<open>_StdlibHttpsOpener\<close>\<close>

definition dp_redirect_request :: "'w redirect_handler" where
  "dp_redirect_request req fp status newurl = RaiseHttpError status fp"

definition dp_stdlib_https_opener :: "'w urllib \<Rightarrow> 'w opener" where
  "dp_stdlib_https_opener ul = director_open ul dp_redirect_request"

record 'w dead_man_prober =
  pb_settings :: probe_settings
  pb_opener :: "'w opener"

definition dead_man_prober_init :: "'w urllib \<Rightarrow> probe_settings \<Rightarrow> 'w opener option \<Rightarrow> 'w dead_man_prober" where
  "dead_man_prober_init ul settings opener =
     \<lparr>pb_settings = settings,
      pb_opener = (case opener of Some given \<Rightarrow> given | None \<Rightarrow> dp_stdlib_https_opener ul)\<rparr>"

section \<open>One observation\<close>

definition body_sample_bytes :: nat where "body_sample_bytes = 1"

definition allow_header :: string where "allow_header = ''Allow''"

definition close_quietly :: "'w http_response \<Rightarrow> ('w, unit) io" where
  "close_quietly r = catch_io (rs_close r) transport_error (\<lambda>_. return_io ())"

definition observe :: "'w http_response \<Rightarrow> ('w, probe_outcome) io" where
  "observe r =
     bind_io
       (catch_io
         (bind_io (rs_status r) (\<lambda>status.
          bind_io (rs_get_all r allow_header) (\<lambda>allow_values.
          bind_io (rs_read r body_sample_bytes) (\<lambda>body.
            return_io (Some (status, case allow_values of None \<Rightarrow> [] | Some vs \<Rightarrow> vs, body))))))
         transport_error (\<lambda>_. return_io None)) (\<lambda>observed.
     case observed of
       None \<Rightarrow> return_io ProbeFailed
     | Some (status, allow_values, body) \<Rightarrow>
         (case validated probe_response_post_init
             \<lparr>pr_status = status, pr_allow_headers = allow_values, pr_body = body\<rparr> of
            Inl e \<Rightarrow> if is_value_error e then return_io ProbeFailed else lift_io (Inl e)
          | Inr observation \<Rightarrow> return_io (classify_deadman_probe observation)))"

definition observe_and_close :: "'w http_response \<Rightarrow> ('w, probe_outcome) io" where
  "observe_and_close r =
     bind_io (observe r) (\<lambda>outcome. bind_io (close_quietly r) (\<lambda>_. return_io outcome))"

text \<open>\<open>DeadManProber.probe\<close>, of the prober's opener and settings\<close>

definition probe :: "'w opener \<Rightarrow> probe_settings \<Rightarrow> ('w, probe_outcome) io" where
  "probe opener settings =
     (let request = \<lparr>rq_url = ps_url settings, rq_method = ''GET'', rq_data = None, rq_headers = []\<rparr> in
      bind_io
        (catch_io (bind_io (opener request (ps_timeout_seconds settings)) (\<lambda>a. return_io (Some a)))
          transport_error (\<lambda>_. return_io None)) (\<lambda>opened.
      case opened of
        None \<Rightarrow> return_io ProbeFailed
      | Some (RaisedHttpError _ r) \<Rightarrow> observe_and_close r
      | Some (Answered r) \<Rightarrow> observe_and_close r))"

section \<open>Facts\<close>

lemma probe_response_check:
  "probe_response_post_init r = Inl e \<Longrightarrow> e = ValueError"
  by (simp add: probe_response_post_init_def)

text \<open>What one response must deliver to be healthy evidence.\<close>

definition healthy_response :: "'w http_response \<Rightarrow> 'w \<Rightarrow> bool" where
  "healthy_response r w \<longleftrightarrow>
     (let (status, w1) = rs_status r w; (allow, w2) = rs_get_all r ''Allow'' w1; body = fst (rs_read r 1 w2) in
      status = Inr 405 \<and> body = Inr [] \<and>
      (case allow of Inr (Some vs) \<Rightarrow> post_is_allowed vs | _ \<Rightarrow> False))"

lemma post_is_allowed_Nil [simp]: "\<not> post_is_allowed []"
  by (simp add: post_is_allowed_def)

lemma observe_result:
  "(fst (observe r w) = Inr ProbeHealthy \<longleftrightarrow> healthy_response r w) \<and>
   (\<forall>e. fst (observe r w) = Inl e \<longrightarrow> \<not> transport_error e)"
  by (auto simp: observe_def allow_header_def body_sample_bytes_def healthy_response_def Let_def case_prod_beta bind_io_split catch_io_split
      validated_def probe_response_post_init_def classify_deadman_probe_def raise_if_def is_value_error_def
      split: sum.splits option.splits)

lemma close_quietly_result:
  "fst (close_quietly r w) = Inl e \<Longrightarrow> \<not> transport_error e"
  by (auto simp: close_quietly_def catch_io_split split: sum.splits if_splits)

lemma observe_and_close_healthy:
  "fst (observe_and_close r w) = Inr ProbeHealthy \<Longrightarrow> healthy_response r w"
  using observe_result [of r w]
  by (auto simp: observe_and_close_def bind_io_split split: sum.splits)

lemma observe_and_close_errors: "fst (observe_and_close r w) = Inl e \<Longrightarrow> \<not> transport_error e"
  using observe_result [of r w] close_quietly_result [of r "snd (observe r w)"]
  by (auto simp: observe_and_close_def bind_io_split split: sum.splits)

section \<open>Properties\<close>

text \<open>C27: a probe fails closed: it reports \<open>HEALTHY\<close> only when the one request was answered (or
  raised as an HTTP error) with status 405, an \<open>Allow\<close> header naming POST and an empty body, all
  read without error; and no transport failure, of opening, reading or closing, escapes it.\<close>

theorem probe_fails_closed:
  "(fst (probe opener settings w) = Inr ProbeHealthy \<longrightarrow>
     (\<exists>r w' code. opener \<lparr>rq_url = ps_url settings, rq_method = ''GET'', rq_data = None, rq_headers = []\<rparr>
          (ps_timeout_seconds settings) w \<in> {(Inr (Answered r), w'), (Inr (RaisedHttpError code r), w')} \<and>
        healthy_response r w')) \<and>
   (\<forall>e. fst (probe opener settings w) = Inl e \<longrightarrow> \<not> transport_error e)"
proof -
  define request where
    "request = \<lparr>rq_url = ps_url settings, rq_method = ''GET'', rq_data = None, rq_headers = []\<rparr>"
  obtain a w' where a: "opener request (ps_timeout_seconds settings) w = (a, w')" by fastforce
  show ?thesis
  proof (cases a)
    case (Inl e)
    then show ?thesis
      using a by (auto simp: probe_def request_def Let_def bind_io_split catch_io_split split: if_splits)
  next
    case (Inr x)
    then show ?thesis
      using a
      by (cases x) (auto simp: probe_def request_def [symmetric] Let_def bind_io_split catch_io_split
        dest: observe_and_close_healthy observe_and_close_errors)
  qed
qed

lemma probe_fails_closed_witness:
  "fst (probe (\<lambda>_ _ w. (Inl TimeoutError, w)) \<lparr>ps_url = ''https://a/'', ps_timeout_seconds = PInt 10\<rparr> ()) = Inr ProbeFailed \<and>
   \<not> (\<exists>e. fst (probe (\<lambda>_ _ w. (Inl TimeoutError, w)) \<lparr>ps_url = ''https://a/'', ps_timeout_seconds = PInt 10\<rparr> ()) = Inl e \<and> transport_error e)"
  using probe_fails_closed [of "\<lambda>_ _ w. (Inl TimeoutError, w)" "\<lparr>ps_url = ''https://a/'', ps_timeout_seconds = PInt 10\<rparr>" "()"]
  by (auto simp: probe_def Let_def bind_io_split catch_io_split transport_error_def is_os_error_def)

end
