(* ===== verification/Deadman_Size.thy ===== *)
theory Deadman_Size
  imports Deadman_Codec "HOL-Library.Multiset"
begin

text \<open>
  How large the state file gets: the exact length of a written JSON document, which does not depend on
  the order of its members, and with it the exact size of an encoded dead-man status.
\<close>

section \<open>The length of a JSON text\<close>

fun json_length :: "bool \<Rightarrow> json \<Rightarrow> nat" where
  "json_length ea JNull = 4"
| "json_length ea (JBool b) = (if b then 4 else 5)"
| "json_length ea (JInt i) = length (int_text i)"
| "json_length ea (JStr s) = length (dumps_string ea s)"
| "json_length ea (JArr xs) = 2 + (length xs - 1) + sum_list (map (json_length ea) xs)"
| "json_length ea (JObj ps) =
     2 + (length ps - 1) + sum_list (map (\<lambda>(k, v). length (dumps_string ea k) + 1 + json_length ea v) ps)"
| "json_length ea (JFloat x) = 0"

lemma length_join_with: "length (join_with [c] xs) = length xs - 1 + sum_list (map length xs)"
  by (induction xs rule: induct_list012) simp_all

lemma sum_list_member_order: "sum_list (map f (member_order sk ps)) = (sum_list (map f ps) :: nat)"
proof -
  have "mset (member_order sk ps) = mset ps" by (simp add: member_order_def)
  then have "mset (map f (member_order sk ps)) = mset (map f ps)" by simp
  then show ?thesis by (metis sum_mset_sum_list)
qed

lemma length_member_order [simp]: "length (member_order sk ps) = length ps"
  by (simp add: member_order_def)

lemma length_json_dumps: "writable d v \<Longrightarrow> length (json_dumps sk ea v) = json_length ea v"
proof (induction d v rule: writable.induct)
  case (3 d xs)
  then have "map length (map (json_dumps sk ea) xs) = map (json_length ea) xs" by (auto simp: list_all_iff)
  then show ?case by (simp only: json_dumps.simps json_length.simps length_append length_join_with length_map) simp
next
  case (4 d ps)
  let ?qs = "map (\<lambda>(k, v). (k, json_dumps sk ea v)) ps"
  have "sum_list (map length (map (\<lambda>(k, t). dumps_string ea k @ '':'' @ t) (member_order sk ?qs))) =
      sum_list (map (\<lambda>(k, t). length (dumps_string ea k) + 1 + length t) (member_order sk ?qs))"
    by (simp add: comp_def case_prod_beta')
  also have "\<dots> = sum_list (map (\<lambda>(k, v). length (dumps_string ea k) + 1 + length (json_dumps sk ea v)) ps)"
    unfolding sum_list_member_order by (simp add: comp_def case_prod_beta')
  also have "\<dots> = sum_list (map (\<lambda>(k, v). length (dumps_string ea k) + 1 + json_length ea v) ps)"
  proof (rule arg_cong [where f = sum_list], rule map_cong [OF refl])
    fix p assume p: "p \<in> set ps"
    then have "(fst p, snd p) \<in> set ps" by simp
    moreover have "writable (d - 1) (snd p)" using 4(2) p by (auto simp: list_all_iff)
    ultimately have "length (json_dumps sk ea (snd p)) = json_length ea (snd p)"
      using 4(1) [of "(fst p, snd p)" "fst p" "snd p"] by simp
    then show "(case p of (k, v) \<Rightarrow> length (dumps_string ea k) + 1 + length (json_dumps sk ea v)) =
        (case p of (k, v) \<Rightarrow> length (dumps_string ea k) + 1 + json_length ea v)"
      by (simp add: case_prod_beta)
  qed
  finally have "sum_list (map length (map (\<lambda>(k, t). dumps_string ea k @ '':'' @ t) (member_order sk ?qs))) =
      sum_list (map (\<lambda>(k, v). length (dumps_string ea k) + 1 + json_length ea v) ps)" .
  then show ?case by (simp only: json_dumps.simps json_length.simps length_append length_join_with) simp
qed simp_all

text \<open>Printable text without quotes and backslashes is written as it is.\<close>

definition plain_char :: "char \<Rightarrow> bool" where
  "plain_char c \<longleftrightarrow> 32 \<le> (of_char c :: nat) \<and> of_char c \<le> (126 :: nat) \<and> c \<noteq> CHR 0x22 \<and> c \<noteq> CHR 0x5C"

lemma plain_escape: "plain_char c \<Longrightarrow> escape_char ea c = [c]"
  by (auto simp: plain_char_def escape_char_def Let_def)

lemma length_plain: "list_all plain_char s \<Longrightarrow> length (dumps_string ea s) = 2 + length s"
proof -
  assume "list_all plain_char s"
  then have "concat (map (escape_char ea) s) = s" by (induction s) (simp_all add: plain_escape)
  then show ?thesis by (simp add: dumps_string_def)
qed

lemma plain_digit: "is_digit c \<Longrightarrow> plain_char c"
  by (auto simp: is_digit_def digit_val_def plain_char_def Let_def split: if_splits)

lemma plain_digits: "list_all plain_char (digits k n)"
  using digits_all plain_digit by (auto simp: list_all_iff)

lemma plain_utc_text: "list_all plain_char (utc_text w)"
  by (auto simp: utc_text_parts iso_date_def iso_hms_def iso_fraction_def plain_digits plain_char_def
      split: prod.splits)

lemma length_utc_string: "length (dumps_string ea (utc_text w)) = 2 + length (utc_text w)"
  by (rule length_plain [OF plain_utc_text])

lemma length_state_string: "length (dumps_string ea (state_value s)) = 2 + length (state_value s)"
  by (rule length_plain) (cases s; simp add: plain_char_def)

lemma length_kind_string: "length (dumps_string ea (kind_value k)) = 2 + length (kind_value k)"
  by (rule length_plain) (cases k; simp add: plain_char_def)

lemma length_keys:
  "length (dumps_string ea ''notification_id'') = 17" "length (dumps_string ea ''kind'') = 6"
  "length (dumps_string ea ''transition'') = 12" "length (dumps_string ea ''from_state'') = 12"
  "length (dumps_string ea ''to_state'') = 10" "length (dumps_string ea ''at'') = 4"
  "length (dumps_string ea ''acknowledged'') = 14" "length (dumps_string ea ''schema_version'') = 16"
  "length (dumps_string ea ''state'') = 7" "length (dumps_string ea ''consecutive_failures'') = 22"
  "length (dumps_string ea ''consecutive_successes'') = 23" "length (dumps_string ea ''state_changed_at'') = 18"
  "length (dumps_string ea ''pending_notifications'') = 23" "length (dumps_string ea ''next_notification_id'') = 22"
  "length (dumps_string ea ''current_down'') = 14"
  by (subst length_plain; simp add: plain_char_def)+

lemma length_positive: "0 \<le> i \<Longrightarrow> length (int_text i) = digit_count (nat i)"
  by (simp add: int_text_def)

lemma length_iso_fraction: "length (iso_fraction us) \<le> 7"
  by (simp add: iso_fraction_def)

lemma length_utc_text: "length (utc_text w) \<le> 32"
  using length_iso_fraction [of "nat w mod 1000000"] by (simp add: utc_text_parts)

lemma digit_count_mono: "m \<le> n \<Longrightarrow> digit_count m \<le> digit_count n"
proof (induction m arbitrary: n rule: digit_count.induct)
  case (1 m)
  show ?case
  proof (cases "n < 10")
    case False
    then have "digit_count n = Suc (digit_count (n div 10))" by (subst digit_count.simps) simp
    moreover have "m < 10 \<or> digit_count (m div 10) \<le> digit_count (n div 10)"
      using 1(1) [of "n div 10"] div_le_mono [OF 1(2), of 10] by blast
    ultimately show ?thesis by (subst digit_count.simps) auto
  qed (use 1 in \<open>simp add: digit_count.simps\<close>)
qed

section \<open>The size of a status\<close>

definition intent_size :: "dm_notification \<Rightarrow> nat" where
  "intent_size n =
     83 + digit_count (nat (dn_id n)) + length (kind_value (dn_kind n)) +
       length (state_value (dt_from (dn_transition n))) + length (state_value (dt_to (dn_transition n))) +
       length (utc_text (instant (dt_at (dn_transition n))))"

definition status_size :: "dm_status \<Rightarrow> nat" where
  "status_size s =
     169 + length (state_value (ds_state s)) + digit_count (nat (ds_next_id s)) +
       (case ds_changed_at s of None \<Rightarrow> 4 | Some a \<Rightarrow> 2 + length (utc_text (instant a))) +
       (case ds_current s of
          None \<Rightarrow> 4 | Some c \<Rightarrow> 36 + digit_count (nat (cd_id c)) + (if cd_acknowledged c then 4 else 5)) +
       sum_list (map intent_size (ds_pending s)) + (length (ds_pending s) - 1)"

lemma encode_datetime_length:
  "encode_datetime d = Inr t \<Longrightarrow> length (dumps_string ea t) = 2 + length (utc_text (instant d))"
  using encode_datetime_Inr [of d t] by (auto simp: encode_datetime_eq length_utc_string)

lemma encode_notification_length:
  assumes "encode_notification n = Inr v" "1 \<le> dn_id n"
  shows "json_length ea v = intent_size n"
proof -
  obtain t where t: "encode_datetime (dt_at (dn_transition n)) = Inr t"
    and v: "v = JObj [(''notification_id'', JInt (dn_id n)), (''kind'', JStr (kind_value (dn_kind n))),
      (''transition'', JObj [(''from_state'', JStr (state_value (dt_from (dn_transition n)))),
        (''to_state'', JStr (state_value (dt_to (dn_transition n)))), (''at'', JStr t)])]"
    using assms(1) by (auto simp: encode_notification_def encode_transition_def)
  show ?thesis
    using assms(2) encode_datetime_length [OF t]
    unfolding v by (simp add: intent_size_def length_keys length_state_string length_kind_string length_positive)
qed

lemma encode_pending_length:
  assumes "status_ok s" "map_res encode_notification (ds_pending s) = Inr pend"
  shows "map (json_length ea) pend = map intent_size (ds_pending s)" "length pend = length (ds_pending s)"
proof -
  have "1 \<le> dn_id n" if "n \<in> set (ds_pending s)" for n
    using status_okD(11) [OF assms(1)] that by (auto simp: notification_ok_def notification_post_init_def)
  moreover have all: "list_all2 (\<lambda>n x. encode_notification n = Inr x) (ds_pending s) pend"
    using assms(2) by (simp add: map_res_eq_Inr)
  ultimately show "map (json_length ea) pend = map intent_size (ds_pending s)"
    by (auto simp: list_all2_conv_all_nth list_eq_iff_nth_eq encode_notification_length)
  show "length pend = length (ds_pending s)" using all by (simp add: list_all2_lengthD)
qed

lemma encode_document_length:
  assumes "status_ok s" "encode_document s = Inr v"
  shows "json_length ea v = status_size s"
proof -
  note ok = status_okD [OF assms(1)]
  obtain changed pend where pend: "map_res encode_notification (ds_pending s) = Inr pend"
    and changed: "(case ds_changed_at s of None \<Rightarrow> Inr JNull
      | Some a \<Rightarrow> bind_res (encode_datetime a) (\<lambda>t. Inr (JStr t))) = Inr changed"
    and v: "v = JObj [(''schema_version'', JInt schema_version_4), (''state'', JStr (state_value (ds_state s))),
      (''consecutive_failures'', JInt (ds_failures s)), (''consecutive_successes'', JInt (ds_successes s)),
      (''state_changed_at'', changed), (''pending_notifications'', JArr pend),
      (''next_notification_id'', JInt (ds_next_id s)), (''current_down'', encode_current (ds_current s))]"
    using assms(2) by (auto simp: encode_document_def)
  have c: "json_length ea changed =
      (case ds_changed_at s of None \<Rightarrow> 4 | Some a \<Rightarrow> 2 + length (utc_text (instant a)))"
    using changed encode_datetime_length by (auto split: option.splits)
  have cur: "json_length ea (encode_current (ds_current s)) =
      (case ds_current s of
         None \<Rightarrow> 4 | Some c \<Rightarrow> 36 + digit_count (nat (cd_id c)) + (if cd_acknowledged c then 4 else 5))"
  proof (cases "ds_current s")
    case (Some d)
    then have "ds_state s = DmDown" "cd_id d = ds_next_id s - 1" using ok(3,4) by (auto simp: bound_down_def)
    then show ?thesis using Some ok(6) by (simp add: encode_current_def length_keys length_positive)
  qed (simp add: encode_current_def)
  have small: "ds_failures s < 10" "ds_successes s < 10" "0 \<le> ds_failures s" "0 \<le> ds_successes s"
    using ok(1-4) by (cases "ds_state s = DmDown"; simp)+
  then have "length (int_text (ds_failures s)) = 1" "length (int_text (ds_successes s)) = 1"
    by (simp_all add: length_positive digit_count.simps nat_less_iff)
  moreover have "length (int_text schema_version_4) = 1"
    by (simp add: length_positive schema_version_4_def digit_count.simps)
  ultimately show ?thesis
    using c cur encode_pending_length(1) [OF assms(1) pend, of ea] encode_pending_length(2) [OF assms(1) pend] ok(6)
    unfolding v status_size_def by (simp add: length_keys length_state_string length_positive)
qed

lemma encoded_size:
  assumes "status_ok s" "encode_deadman_status s = Inr t"
  shows "length t = status_size s"
proof -
  obtain v where v: "encode_document s = Inr v" "t = json_dumps True True v"
    using assms(2) by (auto simp: encode_deadman_status_def json_dumps_checked_def split: if_splits)
  moreover obtain v' where "encode_document s = Inr v'" "writable (Suc (Suc (Suc (Suc 0)))) v'"
    using document_round_trip [OF assms(1) encode_encodable [OF assms(1,2)]] by blast
  ultimately have "length t = json_length True v"
    using length_json_dumps [of "Suc (Suc (Suc (Suc 0)))" v True True] by simp
  then show ?thesis using encode_document_length [OF assms(1) v(1)] by simp
qed

text \<open>With \<open>k\<close> the digits of the next id, an intent takes at most \<open>130 + k\<close> characters.\<close>

lemma intent_size_bound:
  assumes "status_ok s" "n \<in> set (ds_pending s)"
  shows "intent_size n \<le> 130 + digit_count (nat (ds_next_id s))"
proof -
  note ok = status_okD [OF assms(1)]
  have "dn_id n \<le> ds_next_id s" using pending_id_bound [OF ok(5) assms(2)] by simp
  then have "digit_count (nat (dn_id n)) \<le> digit_count (nat (ds_next_id s))"
    by (intro digit_count_mono nat_mono)
  moreover have "notification_ok n" using ok(11) assms(2) by auto
  then have "length (kind_value (dn_kind n)) + length (state_value (dt_from (dn_transition n))) +
      length (state_value (dt_to (dn_transition n))) \<le> 15"
    by (cases "dn_kind n") (auto simp: notification_ok_def notification_post_init_def transition_post_init_def
        canonical_transitions_def dt_is_down_event_def dt_is_recovery_event_def)
  ultimately show ?thesis
    using length_utc_text [of "instant (dt_at (dn_transition n))"] by (simp add: intent_size_def)
qed

lemma status_size_bound:
  assumes "status_ok s"
  shows "status_size s \<le> 248 + 2 * digit_count (nat (ds_next_id s)) +
    (131 + digit_count (nat (ds_next_id s))) * length (ds_pending s)"
proof -
  note ok = status_okD [OF assms]
  let ?k = "digit_count (nat (ds_next_id s))"
  have "sum_list (map intent_size (ds_pending s)) \<le> sum_list (map (\<lambda>_. 130 + ?k) (ds_pending s))"
    using intent_size_bound [OF assms] by (intro sum_list_mono)
  then have pending: "sum_list (map intent_size (ds_pending s)) + (length (ds_pending s) - 1) \<le>
      (131 + ?k) * length (ds_pending s)"
    by (simp add: sum_list_triv algebra_simps)
  have changed: "(case ds_changed_at s of None \<Rightarrow> 4 | Some a \<Rightarrow> 2 + length (utc_text (instant a))) \<le> 34"
    using length_utc_text by (simp split: option.split)
  have "length (state_value (ds_state s)) + (case ds_current s of
      None \<Rightarrow> 4 | Some c \<Rightarrow> 36 + digit_count (nat (cd_id c)) + (if cd_acknowledged c then 4 else 5)) \<le> 45 + ?k"
  proof (cases "ds_current s")
    case None
    have "length (state_value (ds_state s)) \<le> 7" by (cases "ds_state s"; simp)
    then show ?thesis using None by simp
  next
    case (Some d)
    then have "ds_state s = DmDown" "cd_id d = ds_next_id s - 1" using ok(3,4) by (auto simp: bound_down_def)
    moreover have "digit_count (nat (ds_next_id s - 1)) \<le> digit_count (nat (ds_next_id s))"
      by (intro digit_count_mono nat_mono) simp
    ultimately show ?thesis using Some by simp
  qed
  then show ?thesis using pending changed unfolding status_size_def by linarith
qed

end
