(* ===== verification/Deadman_Runtime.thy ===== *)
theory Deadman_Runtime
  imports Deadman_Store Deadman_Probe Deadman_Size
begin

text \<open>
  \<open>deadman_runtime.py\<close>: one cycle of the external dead-man.  Store, prober, sender and clock are
  operations on one shared state; the contract of a durable store is the locale
  \<open>durable_store\<close>, which theory \<open>Deadman_Store\<close>'s model of the state file satisfies.
\<close>

record dm_cycle_result =
  cr_state :: deadman_state
  cr_pending_count :: nat
  cr_delivered :: "int option"
  cr_acknowledged :: "int option"

definition require_aware_now :: "pyvalue \<Rightarrow> datetime res" where
  "require_aware_now v =
     (if \<not> aware_clock_result v then Inl DeadManRuntimeError else Inr (clock_datetime v))"

definition run_deadman_cycle ::
  "('s, dm_status) io \<Rightarrow> (dm_status \<Rightarrow> ('s, unit) io) \<Rightarrow> ('s, probe_outcome) io \<Rightarrow>
    (dm_notification \<Rightarrow> ('s, unit) io) \<Rightarrow> ('s, pyvalue) io \<Rightarrow> ('s, dm_cycle_result) io" where
  "run_deadman_cycle load save prober send clock =
     bind_io load (\<lambda>status.
     bind_io prober (\<lambda>outcome.
     bind_io clock (\<lambda>value.
     bind_io (lift_io (require_aware_now value)) (\<lambda>now.
     bind_io (lift_io (advance_deadman_status status outcome now)) (\<lambda>advanced.
     bind_io (save advanced) (\<lambda>_.
     case ds_pending advanced of
       [] \<Rightarrow> return_io \<lparr>cr_state = ds_state advanced, cr_pending_count = 0, cr_delivered = None,
                        cr_acknowledged = None\<rparr>
     | oldest # _ \<Rightarrow>
         bind_io (send oldest) (\<lambda>_.
         bind_io (lift_io (acknowledge_deadman_notification advanced (dn_id oldest))) (\<lambda>acknowledged.
         bind_io (save acknowledged) (\<lambda>_.
           return_io \<lparr>cr_state = ds_state acknowledged,
                      cr_pending_count = length (ds_pending acknowledged),
                      cr_delivered = Some (dn_id oldest), cr_acknowledged = Some (dn_id oldest)\<rparr>)))))))))"

section \<open>The store contract and one cycle over it\<close>

text \<open>
  \<open>view\<close> is what a fresh process would load, \<open>aux\<close> anything the store leaves alone, \<open>canon\<close> the
  form in which a status comes back, \<open>ok\<close> the statuses that may be saved.
\<close>

locale durable_store =
  fixes load :: "('s, dm_status) io" and save :: "dm_status \<Rightarrow> ('s, unit) io"
    and view :: "'s \<Rightarrow> dm_status res" and aux :: "'s \<Rightarrow> 'x"
    and canon :: "dm_status \<Rightarrow> dm_status" and ok :: "dm_status \<Rightarrow> bool"
  assumes load_law: "triple (\<lambda>s. view s = v \<and> aux s = a) load
      (\<lambda>x s. view s = v \<and> aux s = a \<and> v = Inr x) (\<lambda>e s. view s = v \<and> aux s = a)"
    and save_law: "ok x \<Longrightarrow> triple (\<lambda>s. view s = v \<and> aux s = a) (save x)
      (\<lambda>_ s. view s = Inr (canon x) \<and> aux s = a)
      (\<lambda>e s. (view s = v \<or> view s = Inr (canon x)) \<and> aux s = a)"
    and view_ok: "view s = Inr x \<Longrightarrow> ok x"
    and advance_ok: "ok x \<Longrightarrow> advance_deadman_status x outcome now = Inr y \<Longrightarrow> ok y"
    and acknowledge_ok: "ok x \<Longrightarrow> acknowledge_deadman_notification x i = Inr y \<Longrightarrow> ok y"
    and canon_state: "ds_state (canon x) = ds_state x"
    and canon_pending: "length (ds_pending (canon x)) = length (ds_pending x)"

text \<open>
  What one cycle may leave behind, however it ends: nothing changed; the advanced status stored,
  with or without the oldest intent delivered; or, after a delivery, that intent acknowledged.
\<close>

definition cycle_effect ::
  "(dm_status \<Rightarrow> dm_status) \<Rightarrow> (dm_notification \<Rightarrow> 'x \<Rightarrow> 'x) \<Rightarrow> dm_status res \<Rightarrow> 'x \<Rightarrow> dm_status res \<Rightarrow> 'x \<Rightarrow> bool" where
  "cycle_effect canon deliver v a v' a' \<longleftrightarrow>
     (v' = v \<and> a' = a) \<or>
     (\<exists>x outcome now y. v = Inr x \<and> advance_deadman_status x outcome now = Inr y \<and>
       (v' = Inr (canon y) \<and> a' = a \<or>
        (\<exists>n ns. ds_pending y = n # ns \<and> a' = deliver n a \<and>
          (v' = Inr (canon y) \<or>
           (\<exists>z. acknowledge_deadman_notification y (dn_id n) = Inr z \<and> v' = Inr (canon z))))))"

text \<open>What a completed cycle leaves behind, when the probe's outcome satisfies \<open>seen\<close>.\<close>

definition cycle_done ::
  "(probe_outcome \<Rightarrow> bool) \<Rightarrow> (dm_status \<Rightarrow> dm_status) \<Rightarrow> (dm_notification \<Rightarrow> 'x \<Rightarrow> 'x) \<Rightarrow>
    dm_status res \<Rightarrow> 'x \<Rightarrow> dm_status res \<Rightarrow> 'x \<Rightarrow> bool" where
  "cycle_done seen canon deliver v a v' a' \<longleftrightarrow>
     (\<exists>x outcome now y. seen outcome \<and> v = Inr x \<and> advance_deadman_status x outcome now = Inr y \<and>
       (if ds_pending y = [] then v' = Inr (canon y) \<and> a' = a
        else \<exists>z. acknowledge_deadman_notification y (dn_id (hd (ds_pending y))) = Inr z \<and>
          v' = Inr (canon z) \<and> a' = deliver (hd (ds_pending y)) a))"

text \<open>The result of a completed cycle describes what is stored.\<close>

definition reports :: "dm_cycle_result \<Rightarrow> dm_status res \<Rightarrow> bool" where
  "reports r v \<longleftrightarrow> (\<exists>z. v = Inr z \<and> cr_state r = ds_state z \<and> cr_pending_count r = length (ds_pending z))"

lemma cycle_effectI:
  "cycle_effect canon deliver v a v a"
  "advance_deadman_status x outcome now = Inr y \<Longrightarrow> cycle_effect canon deliver (Inr x) a (Inr (canon y)) a"
  "advance_deadman_status x outcome now = Inr y \<Longrightarrow> ds_pending y = n # ns \<Longrightarrow>
    cycle_effect canon deliver (Inr x) a (Inr (canon y)) (deliver n a)"
  "advance_deadman_status x outcome now = Inr y \<Longrightarrow> ds_pending y = n # ns \<Longrightarrow>
    acknowledge_deadman_notification y (dn_id n) = Inr z \<Longrightarrow>
    cycle_effect canon deliver (Inr x) a (Inr (canon z)) (deliver n a)"
  unfolding cycle_effect_def by blast+

lemma cycle_doneI:
  "seen outcome \<Longrightarrow> advance_deadman_status x outcome now = Inr y \<Longrightarrow> ds_pending y = [] \<Longrightarrow>
    cycle_done seen canon deliver (Inr x) a (Inr (canon y)) a"
  "seen outcome \<Longrightarrow> advance_deadman_status x outcome now = Inr y \<Longrightarrow> ds_pending y = n # ns \<Longrightarrow>
    acknowledge_deadman_notification y (dn_id n) = Inr z \<Longrightarrow>
    cycle_done seen canon deliver (Inr x) a (Inr (canon z)) (deliver n a)"
  unfolding cycle_done_def by fastforce+

lemma cycle_done_effect:
  "cycle_done seen canon deliver v a v' a' \<Longrightarrow> cycle_effect canon deliver v a v' a'"
  by (auto simp: cycle_done_def neq_Nil_conv split: if_splits intro: cycle_effectI)

definition leaves_alone :: "('s \<Rightarrow> dm_status res) \<Rightarrow> ('s \<Rightarrow> 'x) \<Rightarrow> ('s, 'a) io \<Rightarrow> bool" where
  "leaves_alone view aux m \<longleftrightarrow> (\<forall>v a. triple (\<lambda>s. view s = v \<and> aux s = a) m
     (\<lambda>_ s. view s = v \<and> aux s = a) (\<lambda>_ s. view s = v \<and> aux s = a))"

lemma leaves_aloneD:
  "leaves_alone view aux m \<Longrightarrow> triple (\<lambda>s. view s = v \<and> aux s = a) m
     (\<lambda>_ s. view s = v \<and> aux s = a) (\<lambda>_ s. view s = v \<and> aux s = a)"
  by (simp add: leaves_alone_def)

context durable_store
begin

lemma cycle_triple:
  assumes probe: "\<And>v a. triple (\<lambda>s. view s = v \<and> aux s = a) prober
      (\<lambda>outcome s. view s = v \<and> aux s = a \<and> seen outcome) (\<lambda>_ s. view s = v \<and> aux s = a)"
    and clock: "leaves_alone view aux clock"
    and send: "\<And>n v a. triple (\<lambda>s. view s = v \<and> aux s = a) (send n)
      (\<lambda>_ s. view s = v \<and> aux s = deliver n a) (\<lambda>_ s. view s = v \<and> aux s = a)"
  shows "triple (\<lambda>s. view s = v \<and> aux s = a) (run_deadman_cycle load save prober send clock)
    (\<lambda>r s. cycle_done seen canon deliver v a (view s) (aux s) \<and> reports r (view s))
    (\<lambda>e s. cycle_effect canon deliver v a (view s) (aux s))"
    (is "triple ?P _ ?Q ?E")
proof -
  have deliver: "triple (\<lambda>s. view s = Inr (canon y) \<and> aux s = a)
      (bind_io (send n) (\<lambda>_. bind_io (lift_io (acknowledge_deadman_notification y (dn_id n))) (\<lambda>z.
         bind_io (save z) (\<lambda>_. return_io \<lparr>cr_state = ds_state z, cr_pending_count = length (ds_pending z),
            cr_delivered = Some (dn_id n), cr_acknowledged = Some (dn_id n)\<rparr>)))) ?Q ?E"
    if y: "seen outcome" "v = Inr x" "advance_deadman_status x outcome now = Inr y" "ok y" "ds_pending y = n # ns"
    for x outcome now y n ns
  proof (rule triple_bind_pre [OF send])
    show "triple (\<lambda>s. view s = Inr (canon y) \<and> aux s = deliver n a)
      (bind_io (lift_io (acknowledge_deadman_notification y (dn_id n))) (\<lambda>z.
         bind_io (save z) (\<lambda>_. return_io \<lparr>cr_state = ds_state z, cr_pending_count = length (ds_pending z),
            cr_delivered = Some (dn_id n), cr_acknowledged = Some (dn_id n)\<rparr>))) ?Q ?E"
    proof (cases "acknowledge_deadman_notification y (dn_id n)")
      case (Inl e)
      then show ?thesis using y by (auto intro: cycle_effectI intro!: triple_lift)
    next
      case (Inr z)
      then have "ok z" using y(4) acknowledge_ok by blast
      then show ?thesis
        unfolding Inr bind_lift
        by (rule triple_bind_pre [OF save_law])
          (use y Inr in \<open>auto simp: reports_def canon_state canon_pending intro: cycle_effectI cycle_doneI intro!: triple_return\<close>)
    qed
  qed (use y in \<open>auto intro: cycle_effectI\<close>)
  have after_load: "triple (\<lambda>s. view s = v \<and> aux s = a \<and> v = Inr x)
     (bind_io prober (\<lambda>outcome.
     bind_io clock (\<lambda>value.
     bind_io (lift_io (require_aware_now value)) (\<lambda>now.
     bind_io (lift_io (advance_deadman_status x outcome now)) (\<lambda>advanced.
     bind_io (save advanced) (\<lambda>_.
     case ds_pending advanced of
       [] \<Rightarrow> return_io \<lparr>cr_state = ds_state advanced, cr_pending_count = 0, cr_delivered = None,
                        cr_acknowledged = None\<rparr>
     | oldest # _ \<Rightarrow>
         bind_io (send oldest) (\<lambda>_.
         bind_io (lift_io (acknowledge_deadman_notification advanced (dn_id oldest))) (\<lambda>acknowledged.
         bind_io (save acknowledged) (\<lambda>_.
           return_io \<lparr>cr_state = ds_state acknowledged,
                      cr_pending_count = length (ds_pending acknowledged),
                      cr_delivered = Some (dn_id oldest), cr_acknowledged = Some (dn_id oldest)\<rparr>)))))))))
     ?Q ?E" (is "triple _ (bind_io _ (\<lambda>oc. bind_io _ (?rest oc))) _ _") for x
  proof (cases "v = Inr x")
    case v: True
    have "triple ?P (?rest outcome val) ?Q ?E" if seen: "seen outcome" for outcome val
    proof (cases "bind_res (require_aware_now val) (advance_deadman_status x outcome)")
      case (Inl e)
      show ?thesis
      proof (cases "require_aware_now val")
        case early: (Inl e')
        show ?thesis unfolding early bind_lift by (rule triple_lift) (auto intro: cycle_effectI)
      next
        case aware: (Inr now)
        then have late: "advance_deadman_status x outcome now = Inl e" using Inl by simp
        show ?thesis unfolding aware late bind_lift by (rule triple_lift) (auto intro: cycle_effectI)
      qed
    next
      case (Inr y)
      then obtain now where now: "require_aware_now val = Inr now" "advance_deadman_status x outcome now = Inr y"
        by auto
      show ?thesis
      proof (cases "\<exists>s. view s = v")
        case True
        then have ok: "ok y" using v now(2) view_ok advance_ok by blast
        show ?thesis
          unfolding now bind_lift
          by (rule triple_bind_pre [OF save_law [OF ok]], simp, use v now in \<open>auto intro: cycle_effectI\<close>,
              rule triple_case_list)
            (use v now ok seen deliver in \<open>auto simp: reports_def canon_state canon_pending intro: cycle_effectI cycle_doneI
              intro!: triple_return\<close>)
      qed (simp add: triple_def)
    qed
    then have "triple (\<lambda>s. view s = v \<and> aux s = a \<and> seen outcome) (bind_io clock (?rest outcome)) ?Q ?E" for outcome
      by (cases "seen outcome")
        (auto simp: triple_def [where P = "\<lambda>_. False"]
          intro: triple_bind_pre [OF leaves_aloneD [OF clock]] cycle_effectI)
    then show ?thesis
      using v by (intro triple_bind_pre [OF probe]) (auto intro: cycle_effectI)
  qed (simp add: triple_def)
  show ?thesis
    unfolding run_deadman_cycle_def
    by (rule triple_bind_pre [OF load_law]) (auto intro: cycle_effectI after_load)
qed

end

section \<open>The state file is a durable store\<close>

text \<open>
  The operating system beside a log it does not touch: here the intents whose delivery returned.
\<close>

definition lifted_os :: "'w os \<Rightarrow> ('x \<times> 'w) os" where
  "lifted_os os =
     \<lparr>os_fault = (\<lambda>c d (x, w). case os_fault os c d w of (f, w') \<Rightarrow> (f, x, w')),
      os_candidates = (\<lambda>(x, w). case os_candidates os w of (cs, w') \<Rightarrow> (cs, x, w')),
      os_has_o_directory = os_has_o_directory os\<rparr>"

lemma lifted_tolerates: "tolerates (lifted_os os) D (\<lambda>(x, w). x = a)"
  by (auto simp: tolerates_def lifted_os_def split: prod.splits)

lemma stored_ok: "stored limit name d = Inr x \<Longrightarrow> status_ok x"
  by (auto simp: stored_def read_document_def catch_res_def initial_status_ok
      split: option.splits if_splits sum.splits dest: decode_ok)

lemma advance_status_ok:
  "status_ok x \<Longrightarrow> advance_deadman_status x outcome now = Inr y \<Longrightarrow> status_ok y"
  using advance_Inr_iff [of x outcome now y] advance_eq [of x now outcome] by simp

lemma acknowledge_status_ok:
  "status_ok x \<Longrightarrow> acknowledge_deadman_notification x i = Inr y \<Longrightarrow> status_ok y"
proof -
  assume x: "status_ok x" and y: "acknowledge_deadman_notification x i = Inr y"
  note eq = acknowledge_eq [OF x, of i]
  show "status_ok y"
  proof (cases "ds_pending x \<noteq> [] \<and> i = dn_id (hd (ds_pending x))")
    case True
    then show ?thesis using conjunct1 [OF eq] conjunct2 [OF eq] y by simp
  next
    case False
    then show ?thesis using conjunct1 [OF eq, unfolded if_not_P [OF False]] y by simp
  qed
qed

lemma saved_view:
  fixes os :: "'b os" and a :: 'a
  assumes "status_ok s" "4 \<le> limit"
  shows "triple (\<lambda>(d, x, w). stored limit name d = v \<and> x = a) (store_save (lifted_os os) name s)
    (\<lambda>_ (d, x, w). stored limit name d = Inr (canonical_status s) \<and> x = a)
    (\<lambda>e (d, x, w). (stored limit name d = v \<or> stored limit name d = Inr (canonical_status s)) \<and> x = a)"
proof (rule triple_pointwise)
  fix t :: "directory \<times> 'a \<times> 'b"
  assume "case t of (d, x, w) \<Rightarrow> stored limit name d = v \<and> x = a"
  then obtain d w where t: "t = (d, a, w)" and v: "v = stored limit name d" by (cases t) auto
  show "triple (\<lambda>u. u = t) (store_save (lifted_os os) name s)
    (\<lambda>_ (d, x, w). stored limit name d = Inr (canonical_status s) \<and> x = a)
    (\<lambda>e (d, x, w). (stored limit name d = v \<or> stored limit name d = Inr (canonical_status s)) \<and> x = a)"
  proof (cases "encode_deadman_status s")
    case (Inl e)
    then show ?thesis using t v by (simp add: triple_def save_rejected(1))
  next
    case (Inr doc)
    note saved = save_triple [OF lifted_tolerates [where a = a and os = os] Inr, of d name]
    have new: "stored limit name x = Inr (canonical_status s)"
      if "length (utf8_encode doc) \<le> max_deadman_state_bytes" "x name = Some (utf8_encode doc)" for x
      using stored_written [OF assms(1) Inr assms(2) that(1), of x name] that(2) by simp
    have old: "stored limit name x = stored limit name d" if "x name = d name" for x
      using that by (rule stored_cong)
    show ?thesis
    proof (rule triple_conseq [OF saved])
      fix e and u :: "directory \<times> 'a \<times> 'b"
      obtain d' x' w' where u: "u = (d', x', w')" by (cases u) auto
      assume "case u of (da, w) \<Rightarrow> untorn d name (utf8_encode doc) da \<and> (case w of (x, w) \<Rightarrow> x = a) \<and>
        (is_exception e \<longrightarrow> da name = d name \<and> e = DeadManStateStoreError) \<and>
        (da name \<noteq> d name \<longrightarrow> length (utf8_encode doc) \<le> max_deadman_state_bytes)"
      then have "x' = a" "d' name = d name \<or>
          d' name = Some (utf8_encode doc) \<and> length (utf8_encode doc) \<le> max_deadman_state_bytes"
        by (auto simp: u untorn_def)
      then show "case u of (d, x, w) \<Rightarrow> (stored limit name d = v \<or> stored limit name d = Inr (canonical_status s)) \<and> x = a"
        using old [of d'] new [of d'] v by (auto simp: u)
    next
      fix r and u :: "directory \<times> 'a \<times> 'b"
      obtain d' x' w' where u: "u = (d', x', w')" by (cases u) auto
      assume "case u of (da, w) \<Rightarrow> untorn d name (utf8_encode doc) da \<and> da name = Some (utf8_encode doc) \<and>
        length (utf8_encode doc) \<le> max_deadman_state_bytes \<and> (case w of (x, w) \<Rightarrow> x = a)"
      then show "case u of (d, x, w) \<Rightarrow> stored limit name d = Inr (canonical_status s) \<and> x = a"
        using new [of d'] by (simp add: u)
    qed (simp add: t)
  qed
qed

interpretation state_file: durable_store
  "store_load (4 + extra) (lifted_os os) name" "store_save (lifted_os os) name"
  "\<lambda>dxw. stored (4 + extra) name (fst dxw)" "\<lambda>dxw. fst (snd dxw)" canonical_status status_ok
  for extra os name
proof
  fix v a x and s :: "directory \<times> 'a \<times> 'b"
  show "triple (\<lambda>dxw. stored (4 + extra) name (fst dxw) = v \<and> fst (snd dxw) = a)
      (store_load (4 + extra) (lifted_os os) name)
      (\<lambda>x dxw. stored (4 + extra) name (fst dxw) = v \<and> fst (snd dxw) = a \<and> v = Inr x)
      (\<lambda>e dxw. stored (4 + extra) name (fst dxw) = v \<and> fst (snd dxw) = a)"
  proof (rule triple_pointwise, goal_cases)
    case (1 t)
    show ?case
      by (rule triple_conseq [OF load_triple [OF lifted_tolerates [where a = "fst (snd t)" and os = os], of "fst t"]]) (use 1 in auto)
  qed
  show "status_ok x \<Longrightarrow>
      triple (\<lambda>dxw. stored (4 + extra) name (fst dxw) = v \<and> fst (snd dxw) = a) (store_save (lifted_os os) name x)
       (\<lambda>_ dxw. stored (4 + extra) name (fst dxw) = Inr (canonical_status x) \<and> fst (snd dxw) = a)
       (\<lambda>e dxw. (stored (4 + extra) name (fst dxw) = v \<or>
         stored (4 + extra) name (fst dxw) = Inr (canonical_status x)) \<and> fst (snd dxw) = a)"
    using saved_view [of x "4 + extra" name v a os] by (simp add: case_prod_beta')
qed (auto dest: stored_ok advance_status_ok acknowledge_status_ok simp: canonical_status_def)

section \<open>Histories across restarts\<close>

text \<open>
  A status comes back from the file with its moments in UTC.  Everything the machine does commutes
  with that change of representation, so a reloaded status has the same history.
\<close>

lemma canonical_fields [simp]:
  "ds_state (canonical_status s) = ds_state s" "ds_failures (canonical_status s) = ds_failures s"
  "ds_successes (canonical_status s) = ds_successes s" "ds_next_id (canonical_status s) = ds_next_id s"
  "ds_current (canonical_status s) = ds_current s"
  "ds_changed_at (canonical_status s) = map_option utc_of (ds_changed_at s)"
  "ds_pending (canonical_status s) = map canonical_notification (ds_pending s)"
  "dn_id (canonical_notification n) = dn_id n"
  by (simp_all add: canonical_status_def canonical_notification_def)

lemma canonical_intent:
  "canonical_notification (intent s k f t now) = intent (canonical_status s) k f t (utc_of now)"
  by (simp add: canonical_notification_def intent_def)

lemma canonical_advanced:
  "canonical_status (advanced s outcome now) = advanced (canonical_status s) outcome (utc_of now)"
  by (cases outcome; cases "ds_state s")
    (simp_all add: advanced_def recovered_def failed_over_def acknowledged_def canonical_intent [symmetric]
      canonical_status_def intent_def canonical_notification_def)

lemma canonical_acked: "ds_pending s \<noteq> [] \<Longrightarrow> canonical_status (acked s) = acked (canonical_status s)"
  by (cases "ds_pending s") (simp_all add: acked_def canonical_status_def)

lemma canonical_on_time: "on_time s now \<Longrightarrow> on_time (canonical_status s) (utc_of now)"
  by (auto simp: on_time_def)

lemma ledger_status_ok: "ledger s hist k \<Longrightarrow> status_ok s"
  using ledger_inv by (simp add: ledger_inv_def)

lemma ledger_canonical:
  "ledger s hist k \<Longrightarrow> ledger (canonical_status s) (map canonical_notification hist) k"
proof (induction rule: ledger.induct)
  case start
  have "canonical_status initial_status = initial_status"
    by (simp add: canonical_status_def initial_status_def)
  then show ?case using ledger.start by simp
next
  case (probe s hist k outcome now s')
  have ok: "status_ok s" "status_ok (canonical_status s)"
    using probe.hyps(1) probe.IH by (auto dest: ledger_status_ok)
  then have s': "on_time s now" "s' = advanced s outcome now"
    using probe.hyps(2) advance_Inr_iff by blast+
  then have "advance_deadman_status (canonical_status s) outcome (utc_of now) = Inr (canonical_status s')"
    using advance_Inr_iff [OF ok(2)] canonical_on_time canonical_advanced by simp
  from ledger.probe [OF probe.IH this] show ?case by (simp add: drop_map)
next
  case (ack s hist k i s')
  have ok: "status_ok s" "status_ok (canonical_status s)"
    using ack.hyps(1) ack.IH by (auto dest: ledger_status_ok)
  have s': "ds_pending s \<noteq> []" "i = dn_id (hd (ds_pending s))" "s' = acked s"
    using ack.hyps(2) acknowledge_eq [OF ok(1), of i] by (auto split: if_splits)
  then have "acknowledge_deadman_notification (canonical_status s) i = Inr (canonical_status s')"
    using acknowledge_eq [OF ok(2), of i] by (simp add: hd_map canonical_acked)
  from ledger.ack [OF ack.IH this] show ?case .
qed

section \<open>Runs of the oneshot process\<close>

text \<open>
  Everything one run depends on.  A run may be interrupted in any system call, in the probe, in
  the clock or in the delivery.
\<close>

record 'w cycle_env =
  ce_os :: "'w os"
  ce_probe :: "('w, probe_outcome) io"
  ce_clock :: "('w, pyvalue) io"
  ce_send :: "dm_notification \<Rightarrow> ('w, unit) io"

definition logged_send ::
  "(dm_notification \<Rightarrow> ('w, unit) io) \<Rightarrow> dm_notification \<Rightarrow> (dm_notification list \<times> 'w, unit) io" where
  "logged_send send n sw =
     (case sw of (sent, w) \<Rightarrow> case send n w of
        (Inr _, w') \<Rightarrow> (Inr (), sent @ [n], w') | (Inl e, w') \<Rightarrow> (Inl e, sent, w'))"

definition deadman_run ::
  "nat \<Rightarrow> string \<Rightarrow> 'w cycle_env \<Rightarrow> (directory \<times> dm_notification list \<times> 'w, dm_cycle_result) io" where
  "deadman_run limit name env =
     run_deadman_cycle (store_load limit (lifted_os (ce_os env)) name) (store_save (lifted_os (ce_os env)) name)
       (on_snd (on_snd (ce_probe env))) (\<lambda>n. on_snd (logged_send (ce_send env) n)) (on_snd (on_snd (ce_clock env)))"

definition after_runs ::
  "nat \<Rightarrow> string \<Rightarrow> 'w cycle_env list \<Rightarrow> directory \<times> dm_notification list \<times> 'w \<Rightarrow> directory \<times> dm_notification list \<times> 'w" where
  "after_runs limit name envs dsw = foldl (\<lambda>t env. snd (deadman_run limit name env t)) dsw envs"

abbreviation file_view :: "nat \<Rightarrow> string \<Rightarrow> directory \<times> 'x \<times> 'w \<Rightarrow> dm_status res" where
  "file_view limit name t \<equiv> stored limit name (fst t)"

abbreviation sent_log :: "directory \<times> 'x \<times> 'w \<Rightarrow> 'x" where
  "sent_log t \<equiv> fst (snd t)"

lemma outside_leaves_alone:
  "leaves_alone (\<lambda>t. file_view limit name t) (\<lambda>t. sent_log t) (on_snd (on_snd m))"
  by (auto simp: leaves_alone_def triple_def split: prod.splits sum.splits)

lemma logged_send_triple:
  "triple (\<lambda>t. file_view limit name t = v \<and> sent_log t = a) (on_snd (logged_send send n))
    (\<lambda>_ t. file_view limit name t = v \<and> sent_log t = a @ [n])
    (\<lambda>_ t. file_view limit name t = v \<and> sent_log t = a)"
  by (auto simp: triple_def logged_send_def split: prod.splits sum.splits)

text \<open>One run, on the real state file.\<close>

definition observes :: "(probe_outcome \<Rightarrow> bool) \<Rightarrow> ('w, probe_outcome) io \<Rightarrow> bool" where
  "observes seen m \<longleftrightarrow> (\<forall>w outcome. fst (m w) = Inr outcome \<longrightarrow> seen outcome)"

lemma probe_triple:
  "observes seen m \<Longrightarrow> triple (\<lambda>t. file_view limit name t = v \<and> sent_log t = a) (on_snd (on_snd m))
    (\<lambda>outcome t. file_view limit name t = v \<and> sent_log t = a \<and> seen outcome)
    (\<lambda>_ t. file_view limit name t = v \<and> sent_log t = a)"
  by (auto simp: triple_def observes_def split: prod.splits sum.splits)

lemma run_triple:
  assumes "observes seen (ce_probe env)"
  shows "triple (\<lambda>t. file_view (4 + extra) name t = v \<and> sent_log t = a) (deadman_run (4 + extra) name env)
    (\<lambda>r t. cycle_done seen canonical_status (\<lambda>n sent. sent @ [n]) v a (file_view (4 + extra) name t) (sent_log t) \<and>
      reports r (file_view (4 + extra) name t))
    (\<lambda>e t. cycle_effect canonical_status (\<lambda>n sent. sent @ [n]) v a (file_view (4 + extra) name t) (sent_log t))"
  unfolding deadman_run_def
  by (rule state_file.cycle_triple [OF probe_triple [OF assms] outside_leaves_alone logged_send_triple])

lemma run_effect:
  "cycle_effect canonical_status (\<lambda>n sent. sent @ [n]) (file_view (4 + extra) name t) (sent_log t)
    (file_view (4 + extra) name (snd (deadman_run (4 + extra) name env t)))
    (sent_log (snd (deadman_run (4 + extra) name env t)))"
proof -
  obtain r t' where Pair: "deadman_run (4 + extra) name env t = (r, t')" by (meson surj_pair)
  have "observes (\<lambda>_. True) (ce_probe env)" by (simp add: observes_def)
  note run = run_triple [OF this, of extra name "file_view (4 + extra) name t" "sent_log t"]
  show ?thesis
  proof (cases r)
    case (Inl e)
    then show ?thesis using triple_Inl [OF run, of t e t'] Pair by simp
  next
    case (Inr x)
    then show ?thesis using triple_Inr [OF run, of t x t'] Pair by (auto intro: cycle_done_effect)
  qed
qed

lemma run_done:
  assumes "observes seen (ce_probe env)" "fst (deadman_run (4 + extra) name env t) = Inr r"
  shows "cycle_done seen canonical_status (\<lambda>n sent. sent @ [n]) (file_view (4 + extra) name t) (sent_log t)
    (file_view (4 + extra) name (snd (deadman_run (4 + extra) name env t)))
    (sent_log (snd (deadman_run (4 + extra) name env t)))"
  using triple_Inr [OF run_triple [OF assms(1), of extra name "file_view (4 + extra) name t" "sent_log t"],
      of t r "snd (deadman_run (4 + extra) name env t)"] assms(2)
  by (cases "deadman_run (4 + extra) name env t") simp

section \<open>At-least-once delivery\<close>

text \<open>
  The deliveries so far against the history: in order, every acknowledged intent among them, and
  nothing beyond the first intent that is still unacknowledged.
\<close>

definition deliveries :: "dm_notification list \<Rightarrow> nat \<Rightarrow> dm_notification list \<Rightarrow> bool" where
  "deliveries hist k sent \<longleftrightarrow> sorted (map dn_id sent) \<and>
     {1..int k} \<subseteq> set (map dn_id sent) \<and> set (map dn_id sent) \<subseteq> {1..min (int k + 1) (int (length hist))}"

lemma deliveries_grow: "deliveries hist k sent \<Longrightarrow> deliveries (map f hist @ later) k sent"
  by (auto simp: deliveries_def)

lemma deliveries_send:
  "deliveries hist k sent \<Longrightarrow> k < length hist \<Longrightarrow> dn_id n = int k + 1 \<Longrightarrow> deliveries hist k (sent @ [n])"
  by (auto simp: deliveries_def sorted_append)

lemma deliveries_ack:
  assumes "deliveries hist k sent" "k < length hist" "dn_id n = int k + 1"
  shows "deliveries hist (Suc k) (sent @ [n])"
proof -
  have "{1..int (Suc k)} = insert (int k + 1) {1..int k}" by auto
  then show ?thesis using deliveries_send [OF assms] assms(2,3) by (auto simp: deliveries_def)
qed

definition faithful :: "dm_status res \<Rightarrow> dm_notification list \<Rightarrow> bool" where
  "faithful v sent \<longleftrightarrow> (\<exists>s hist k. v = Inr s \<and> ledger s hist k \<and> deliveries hist k sent)"

lemma faithful_effect:
  assumes "faithful v sent" "cycle_effect canonical_status (\<lambda>n sent. sent @ [n]) v sent v' sent'"
  shows "faithful v' sent'"
proof -
  obtain x hist k where x: "v = Inr x" "ledger x hist k" "deliveries hist k sent"
    using assms(1) by (auto simp: faithful_def)
  have stored: "faithful (Inr (canonical_status s)) b" if "ledger s h j" "deliveries h j b" for s h j b
    using ledger_canonical [OF that(1)] deliveries_grow [OF that(2), of canonical_notification "[]"]
    by (auto simp: faithful_def)
  from assms(2) consider "v' = v" "sent' = sent"
    | outcome now y where "advance_deadman_status x outcome now = Inr y"
      "v' = Inr (canonical_status y) \<and> sent' = sent \<or> (\<exists>n ns. ds_pending y = n # ns \<and> sent' = sent @ [n] \<and>
        (v' = Inr (canonical_status y) \<or>
         (\<exists>z. acknowledge_deadman_notification y (dn_id n) = Inr z \<and> v' = Inr (canonical_status z))))"
    unfolding cycle_effect_def x(1) by auto
  then show ?thesis
  proof cases
    case 1
    then show ?thesis using assms(1) by simp
  next
    case (2 outcome now y)
    define h where "h = hist @ drop (length (ds_pending x)) (ds_pending y)"
    have l: "ledger y h k" unfolding h_def by (rule ledger.probe [OF x(2) 2(1)])
    have d: "deliveries h k sent" using deliveries_grow [OF x(3), of id] by (simp add: h_def)
    note inv = ledger_inv [OF l, unfolded ledger_inv_def]
    have n: "k < length h \<and> dn_id n = int k + 1" if "ds_pending y = n # ns" for n ns
    proof -
      have "drop k h = n # ns" using inv that by simp
      then have k: "k < length h" "h ! k = n" by (metis drop_eq_Nil list.distinct(1) not_le, metis nth_via_drop)
      then have "dn_id n = map dn_id h ! k" by simp
      also have "\<dots> = int k + 1" using inv k(1) by (simp add: nth_upto)
      finally show ?thesis using k by simp
    qed
    show ?thesis
      using 2(2) stored [OF l] d deliveries_send [OF d] n
        stored [OF ledger.ack [OF l]] deliveries_ack [OF d]
      by blast
  qed
qed

lemma faithful_runs:
  assumes "faithful (file_view (4 + extra) name t) (sent_log t)"
  shows "faithful (file_view (4 + extra) name (after_runs (4 + extra) name envs t))
    (sent_log (after_runs (4 + extra) name envs t))"
  using assms unfolding after_runs_def
proof (induction envs arbitrary: t)
  case (Cons env envs)
  show ?case using Cons.IH [OF faithful_effect [OF Cons.prems run_effect]] by simp
qed simp

section \<open>Draining the queue\<close>

lemma up_advance:
  assumes "status_ok x" "ds_state x = DmUp" "advance_deadman_status x ProbeHealthy now = Inr y"
  shows "ds_state y = DmUp \<and> ds_pending y = ds_pending x \<and> status_ok y"
  using assms advance_Inr_iff [OF assms(1)] advance_status_ok [OF assms(1,3)] by (simp add: advanced_def)

lemma run_drains:
  assumes "file_view (4 + extra) name t = Inr s" "ds_state s = DmUp"
    and "observes (\<lambda>oc. oc = ProbeHealthy) (ce_probe env)" "fst (deadman_run (4 + extra) name env t) = Inr r"
  shows "\<exists>s'. file_view (4 + extra) name (snd (deadman_run (4 + extra) name env t)) = Inr s' \<and> ds_state s' = DmUp \<and>
    map dn_id (ds_pending s') = map dn_id (tl (ds_pending s)) \<and>
    map dn_id (sent_log (snd (deadman_run (4 + extra) name env t))) =
      map dn_id (sent_log t) @ map dn_id (take 1 (ds_pending s))"
proof -
  let ?t = "snd (deadman_run (4 + extra) name env t)"
  obtain now y where y: "advance_deadman_status s ProbeHealthy now = Inr y"
    and e: "if ds_pending y = [] then file_view (4 + extra) name ?t = Inr (canonical_status y) \<and> sent_log ?t = sent_log t
      else \<exists>z. acknowledge_deadman_notification y (dn_id (hd (ds_pending y))) = Inr z \<and>
        file_view (4 + extra) name ?t = Inr (canonical_status z) \<and> sent_log ?t = sent_log t @ [hd (ds_pending y)]"
    using run_done [OF assms(3,4)] assms(1) by (auto simp: cycle_done_def)
  have up: "ds_state y = DmUp" "ds_pending y = ds_pending s" "status_ok y"
    using up_advance [OF stored_ok [OF assms(1)] assms(2) y] by simp_all
  show ?thesis
  proof (cases "ds_pending s")
    case Nil
    then show ?thesis using e up by (simp add: comp_def)
  next
    case (Cons n ns)
    then obtain z where z: "acknowledge_deadman_notification y (dn_id n) = Inr z"
      "file_view (4 + extra) name ?t = Inr (canonical_status z)" "sent_log ?t = sent_log t @ [n]"
      using e up(2) by auto
    have "acknowledge_deadman_notification y (dn_id n) = Inr (acked y)"
      using acknowledge_eq [OF up(3), of "dn_id n"] Cons up(2) by simp
    then have "z = acked y" using z(1) by simp
    then have "ds_state z = DmUp" "ds_pending z = ns" using up Cons by (simp_all add: acked_def)
    then show ?thesis using z(2,3) Cons by (simp add: comp_def)
  qed
qed

section \<open>Properties\<close>

text \<open>C1: at-least-once delivery, in order, across any number of runs, each of which may fail or be
  interrupted anywhere: from an absent state file on, the file always holds a valid status; the
  intents created so far are numbered 1, 2, 3, ... and pending are exactly those not yet
  acknowledged; every acknowledged intent was delivered by a call that returned; deliveries happen
  in the order of the ids, and only of intents the history already contains, never beyond the
  oldest unacknowledged one.\<close>

theorem at_least_once_delivery:
  assumes "d name = None"
  shows "\<exists>s hist k. file_view (4 + extra) name (after_runs (4 + extra) name envs (d, [], w)) = Inr s \<and>
    ledger s hist k \<and> ds_pending s = drop k hist \<and> map dn_id hist = [1..int (length hist)] \<and>
    (let sent = map dn_id (sent_log (after_runs (4 + extra) name envs (d, [], w))) in
      sorted sent \<and> {1..int k} \<subseteq> set sent \<and> set sent \<subseteq> {1..min (int k + 1) (int (length hist))})"
proof -
  have "deliveries [] 0 []" by (simp add: deliveries_def)
  then have "faithful (file_view (4 + extra) name (d, [], w)) (sent_log (d, [], w))"
    using ledger.start assms by (auto simp: faithful_def stored_def)
  from faithful_runs [OF this, of envs] obtain s hist k where
    s: "file_view (4 + extra) name (after_runs (4 + extra) name envs (d, [], w)) = Inr s" "ledger s hist k"
    "deliveries hist k (sent_log (after_runs (4 + extra) name envs (d, [], w)))"
    by (auto simp: faithful_def)
  then show ?thesis using ledger_inv [OF s(2)] by (auto simp: ledger_inv_def deliveries_def Let_def)
qed

definition steady_env :: "unit cycle_env" where
  "steady_env =
     \<lparr>ce_os = calm_os, ce_probe = return_io ProbeHealthy, ce_clock = return_io (PyDatetime (utc_datetime 9)),
      ce_send = (\<lambda>_. return_io ())\<rparr>"

lemma at_least_once_delivery_witness:
  "\<exists>s hist k. file_view 4 ''state'' (after_runs 4 ''state'' [steady_env, steady_env] (Map.empty, [], ())) = Inr s \<and>
    ledger s hist k"
  using at_least_once_delivery [of Map.empty "''state''" 0 "[steady_env, steady_env]" "()"] by auto

text \<open>A failed or interrupted run never loses an intent: whatever happens in it, the file
  afterwards holds the previous status, or the status advanced by one probe, or, only if the
  delivery of the oldest pending intent returned in this run, that status with this one intent
  acknowledged.\<close>

theorem run_effect_is_bounded:
  assumes "snd (deadman_run (4 + extra) name env (d, [], w)) = (d', sent, w')"
    and "stored (4 + extra) name d = Inr s"
  shows "stored (4 + extra) name d' = Inr s \<and> sent = [] \<or>
    (\<exists>outcome now y. advance_deadman_status s outcome now = Inr y \<and>
      (stored (4 + extra) name d' = Inr (canonical_status y) \<and> sent \<in> {[], take 1 (ds_pending y)} \<or>
       (\<exists>n ns z. ds_pending y = n # ns \<and> sent = [n] \<and>
          acknowledge_deadman_notification y (dn_id n) = Inr z \<and>
          stored (4 + extra) name d' = Inr (canonical_status z))))"
  using run_effect [of extra name "(d, [], w)" env] unfolding assms(1) fst_conv snd_conv assms(2)
  by (fastforce simp: cycle_effect_def)

lemma run_effect_is_bounded_witness:
  "\<exists>d' sent w'. snd (deadman_run 4 ''state'' steady_env (Map.empty, [], ())) = (d', sent, w') \<and>
    (stored 4 ''state'' d' = Inr initial_status \<and> sent = [] \<or>
      (\<exists>outcome now y. advance_deadman_status initial_status outcome now = Inr y))"
proof -
  obtain d' sent w' where run: "snd (deadman_run 4 ''state'' steady_env (Map.empty, [], ())) = (d', sent, w')"
    by (metis prod.exhaust)
  from run_effect_is_bounded [of 0 "''state''" steady_env Map.empty "()" d' sent w' initial_status] run
  show ?thesis by (fastforce simp: stored_def)
qed

text \<open>C24: the queue drains: while the target is up and every run completes, each run delivers and
  acknowledges exactly the oldest pending intent, so \<open>m\<close> runs deliver the \<open>m\<close> oldest intents once
  each, in order, and a queue of \<open>m\<close> intents is empty after \<open>m\<close> runs.\<close>

theorem queue_drains_in_order:
  assumes "stored (4 + extra) name (fst t) = Inr s" "ds_state s = DmUp"
    and "\<forall>env \<in> set envs. observes (\<lambda>oc. oc = ProbeHealthy) (ce_probe env)"
    and "\<forall>i < length envs. \<exists>r. fst (deadman_run (4 + extra) name (envs ! i)
      (after_runs (4 + extra) name (take i envs) t)) = Inr r"
  shows "\<exists>s'. stored (4 + extra) name (fst (after_runs (4 + extra) name envs t)) = Inr s' \<and> ds_state s' = DmUp \<and>
    map dn_id (ds_pending s') = drop (length envs) (map dn_id (ds_pending s)) \<and>
    map dn_id (sent_log (after_runs (4 + extra) name envs t)) =
      map dn_id (sent_log t) @ take (length envs) (map dn_id (ds_pending s))"
  using assms
proof (induction envs arbitrary: t s)
  case (Cons env envs)
  let ?t = "snd (deadman_run (4 + extra) name env t)"
  obtain r where r: "fst (deadman_run (4 + extra) name env t) = Inr r"
    using Cons.prems(4) [rule_format, of 0] by (auto simp: after_runs_def)
  have "observes (\<lambda>oc. oc = ProbeHealthy) (ce_probe env)" using Cons.prems(3) by simp
  from run_drains [OF Cons.prems(1,2) this r] obtain s1 where s1: "stored (4 + extra) name (fst ?t) = Inr s1" "ds_state s1 = DmUp"
    "map dn_id (ds_pending s1) = map dn_id (tl (ds_pending s))"
    "map dn_id (sent_log ?t) = map dn_id (sent_log t) @ map dn_id (take 1 (ds_pending s))"
    by auto
  have step: "after_runs (4 + extra) name (env # es) t = after_runs (4 + extra) name es ?t" for es
    by (simp add: after_runs_def)
  have "\<forall>i < length envs. \<exists>r. fst (deadman_run (4 + extra) name (envs ! i)
      (after_runs (4 + extra) name (take i envs) ?t)) = Inr r"
    using Cons.prems(4) step by fastforce
  from Cons.IH [OF s1(1,2) _ this] Cons.prems(3) show ?case
    unfolding step s1(3,4) by (cases "ds_pending s") auto
qed (simp add: after_runs_def)


text \<open>A run that nothing disturbs, from a file that holds a one-intent backlog.\<close>

definition waiting :: dm_status where
  "waiting =
     \<lparr>ds_state = DmUp, ds_failures = 0, ds_successes = 0, ds_changed_at = Some (utc_datetime 5),
      ds_pending = [\<lparr>dn_id = 1, dn_kind = DmDownKind,
        dn_transition = \<lparr>dt_from = DmUnknown, dt_to = DmDown, dt_at = utc_datetime 5\<rparr>\<rparr>],
      ds_next_id = 2, ds_current = None\<rparr>"

lemma waiting_ok: "status_ok waiting" "status_ok (acked waiting)"
  by (simp_all add: status_ok_def status_post_init_eq_Inr waiting_def acked_def queue_ids_def dated_by_def
      notification_ok_def notification_post_init_def transition_post_init_def canonical_transitions_def
      require_notification_id_def dt_is_down_event_def raise_if_def in_order.simps dm_require_aware_def
      utc_datetime_def aware_def)

lemma waiting_canonical: "canonical_status waiting = waiting" "canonical_status (acked waiting) = acked waiting"
  by (simp_all add: canonical_status_def waiting_def acked_def canonical_notification_def utc_of_def)

lemma file_size: "status_ok s \<Longrightarrow> encode_deadman_status s = Inr t \<Longrightarrow> length (utf8_encode t) = status_size s"
  using encode_round_trip [OF _ _ order.refl, of s t] encoded_size [of s t] by (simp add: utf8_encode_ascii ascii_def)

lemma file_size_limit:
  assumes "status_ok s" "encode_deadman_status s = Inr t" "ds_next_id s < 10 ^ 12" "length (ds_pending s) \<le> 7000"
  shows "length (utf8_encode t) \<le> max_deadman_state_bytes"
proof -
  have "nat (ds_next_id s) < 10 ^ Suc 11" using assms(3) by (simp add: nat_less_iff)
  then have k: "digit_count (nat (ds_next_id s)) \<le> 12" using digit_count_le by fastforce
  then have "(131 + digit_count (nat (ds_next_id s))) * length (ds_pending s) \<le> 143 * 7000"
    using assms(4) by (intro mult_le_mono) auto
  then show ?thesis
    using k status_size_bound [OF assms(1)] file_size [OF assms(1,2)] by (simp add: max_deadman_state_bytes_def)
qed

lemma encodes:
  assumes "status_ok s" "encodable s" "length (ds_pending s) \<le> 1" "ds_next_id s < 10 ^ 12"
  shows "\<exists>t. encode_deadman_status s = Inr t \<and> length (utf8_encode t) \<le> max_deadman_state_bytes"
proof -
  obtain v where v: "encode_document s = Inr v" "writable (Suc (Suc (Suc (Suc 0)))) v"
    using document_round_trip [OF assms(1,2)] by blast
  then have e: "encode_deadman_status s = Inr (json_dumps True True v)"
    by (simp add: encode_deadman_status_def json_dumps_checked_def writable_printable [OF v(2)])
  show ?thesis using e file_size_limit [OF assms(1) e assms(4)] assms(3) by simp
qed

text \<open>C32: the size of the state file is known exactly: a valid status that can be encoded takes
  \<open>status_size\<close> bytes, a frame and \<open>intent_size\<close> for every pending intent; with \<open>k\<close> the digits of
  the next id that is at most \<open>248 + 2 * k\<close> and \<open>131 + k\<close> more for every intent, so that with ids below
  \<open>10 ^ 12\<close> a backlog of 7000 intents stays within the store's limit.\<close>

theorem encoded_size_bound:
  assumes "status_ok s" "encode_deadman_status s = Inr t"
  shows "length (utf8_encode t) = status_size s \<and>
    status_size s \<le> 248 + 2 * digit_count (nat (ds_next_id s)) +
      (131 + digit_count (nat (ds_next_id s))) * length (ds_pending s) \<and>
    (ds_next_id s < 10 ^ 12 \<and> length (ds_pending s) \<le> 7000 \<longrightarrow>
      length (utf8_encode t) \<le> max_deadman_state_bytes)"
  using file_size [OF assms] status_size_bound [OF assms(1)] file_size_limit [OF assms] by blast

lemma encoded_size_bound_witness:
  "\<exists>t. encode_deadman_status waiting = Inr t \<and> length (utf8_encode t) = 341"
proof -
  have "(2::int) < 10 ^ max_int_digits"
    using power_increasing [of 1 max_int_digits "10::int"] by (simp add: max_int_digits_def del: power_numeral)
  then have "encodable waiting"
    by (simp add: encodable_def waiting_def in_utc_range_def max_wall_def us_per_day_def)
  moreover have "length (ds_pending waiting) \<le> 1" "ds_next_id waiting < 10 ^ 12" by (simp_all add: waiting_def)
  ultimately obtain t where t: "encode_deadman_status waiting = Inr t" using encodes [OF waiting_ok(1)] by blast
  have "length (utc_text 5) = 32" by (simp add: utc_text_parts iso_fraction_def)
  then have "status_size waiting = 341"
    by (simp add: status_size_def intent_size_def waiting_def digit_count.simps)
  then show ?thesis using encoded_size_bound [OF waiting_ok(1) t] t by simp
qed

lemma calm_save:
  assumes "encode_deadman_status s = Inr t" "length (utf8_encode t) \<le> max_deadman_state_bytes"
    and "d (''.'' @ name @ ''.'' @ ''x'' @ ''.tmp'') = None"
  shows "store_save (lifted_os calm_os) name s (d, x, ()) = (Inr (), d(name \<mapsto> utf8_encode t), x, ())"
  using assms temporary_differs [of name "''x''"]
  by (auto simp: store_save_def Let_def bind_io_split catch_io_split mkstemp_def os_check_def lifted_os_def
      calm_os_def write_temporary_def os_replace_def sync_directory_best_effort_def fun_eq_iff)

lemma calm_load:
  assumes "stored limit name d = Inr s" "d name = Some raw"
  shows "store_load limit (lifted_os calm_os) name (d, x, ()) = (Inr s, d, x, ())"
  using assms
  by (simp add: store_load_def stored_def bind_io_split catch_io_split open_read_def read_bytes_def os_check_def
      lifted_os_def calm_os_def)

lemma queue_drains_in_order_witness:
  "\<exists>d s'. stored 4 ''state'' d = Inr waiting \<and>
    stored 4 ''state'' (fst (after_runs 4 ''state'' [steady_env] (d, [], ()))) = Inr s' \<and> ds_pending s' = [] \<and>
    map dn_id (sent_log (after_runs 4 ''state'' [steady_env] (d, [], ()))) = [1]"
proof -
  have big: "(2::int) < 10 ^ max_int_digits"
    using power_increasing [of 1 max_int_digits "10::int"] by (simp add: max_int_digits_def del: power_numeral)
  have enc: "encodable waiting" "encodable (acked waiting)"
    using big by (simp_all add: encodable_def waiting_def acked_def in_utc_range_def max_wall_def us_per_day_def)
  have one: "length (ds_pending waiting) \<le> 1" "length (ds_pending (acked waiting)) \<le> 1"
    "ds_next_id waiting < 10 ^ 12" "ds_next_id (acked waiting) < 10 ^ 12"
    by (simp_all add: waiting_def acked_def)
  obtain t where t: "encode_deadman_status waiting = Inr t" "length (utf8_encode t) \<le> max_deadman_state_bytes"
    using encodes [OF waiting_ok(1) enc(1) one(1,3)] by auto
  obtain u where u: "encode_deadman_status (acked waiting) = Inr u" "length (utf8_encode u) \<le> max_deadman_state_bytes"
    using encodes [OF waiting_ok(2) enc(2) one(2,4)] by auto
  define d where "d = [''state'' \<mapsto> utf8_encode t]"
  have stored: "stored 4 ''state'' d = Inr waiting"
    using stored_written [OF waiting_ok(1) t(1) order.refl t(2)] by (simp add: d_def waiting_canonical)
  have adv: "advance_deadman_status waiting ProbeHealthy (utc_datetime 9) = Inr waiting"
    using advance_eq [OF waiting_ok(1), of "utc_datetime 9" ProbeHealthy]
    by (simp add: on_time_def waiting_def advanced_def)
  have ack: "acknowledge_deadman_notification waiting 1 = Inr (acked waiting)"
    using acknowledge_eq [OF waiting_ok(1), of 1] by (simp add: waiting_def)
  have pend: "ds_pending waiting \<noteq> []" "dn_id (hd (ds_pending waiting)) = 1" "ds_state waiting = DmUp"
    by (simp_all add: waiting_def)
  have load: "store_load 4 (lifted_os calm_os) ''state'' (d, [], ()) = (Inr waiting, d, [], ())"
    by (rule calm_load [OF stored]) (simp add: d_def)
  have free: "d (''.'' @ ''state'' @ ''.'' @ ''x'' @ ''.tmp'') = None" by (simp add: d_def)
  have save1: "store_save (lifted_os calm_os) ''state'' waiting (d, [], ()) = (Inr (), d, [], ())"
    using calm_save [OF t, of d "''state''" "[]"] free by (simp add: d_def)
  have save2: "store_save (lifted_os calm_os) ''state'' (acked waiting) (d, x, ()) =
      (Inr (), d(''state'' \<mapsto> utf8_encode u), x, ())" for x
    using calm_save [OF u, of d "''state''" x] free by (simp add: d_def)
  obtain n where n: "ds_pending waiting = [n]" "dn_id n = 1" by (simp add: waiting_def)
  have parts: "ce_os steady_env = calm_os" "on_snd (on_snd (ce_probe steady_env)) x = (Inr ProbeHealthy, x)"
    "on_snd (on_snd (ce_clock steady_env)) x = (Inr (PyDatetime (utc_datetime 9)), x)"
    "logged_send (ce_send steady_env) m ([], ()) = (Inr (), [m], ())" for x m
    by (cases x; simp add: steady_env_def logged_send_def)+
  have "require_aware_now (PyDatetime (utc_datetime 9)) = Inr (utc_datetime 9)"
    by (simp add: require_aware_now_def aware_clock_result_iff)
  then have "\<exists>r. fst (deadman_run 4 ''state'' steady_env (d, [], ())) = Inr r"
    by (simp add: deadman_run_def run_deadman_cycle_def bind_io_def parts load save1 save2 adv ack n)
  then have run: "\<forall>i < length [steady_env]. \<exists>r. fst (deadman_run (4 + 0) ''state'' ([steady_env] ! i)
      (after_runs (4 + 0) ''state'' (take i [steady_env]) (d, [], ()))) = Inr r"
    by (simp add: after_runs_def)
  have "\<forall>env \<in> set [steady_env]. observes (\<lambda>oc. oc = ProbeHealthy) (ce_probe env)"
    by (simp add: observes_def steady_env_def)
  from queue_drains_in_order [of 0 "''state''" "(d, [], ())" waiting, OF _ pend(3) this run] stored
  show ?thesis by (auto simp: waiting_def intro!: exI [of _ d])
qed

end
