(* ===== verification/Wire.thy ===== *)
theory Wire
  imports Ingestion Py_Json Py_Bytes Io_Hoare
begin

text \<open>
  \<open>wire.py\<close>: per-node credentials, the strict payload decoder and the authenticated adapter.  Python
  values that reach this boundary are JSON documents; anything else than a mapping or a string
  behaves as any other wrong type.
\<close>

section \<open>Credentials\<close>

text \<open>
  The loop of \<open>NodeCredentials.__init__\<close> over \<open>tokens.items()\<close>; the accumulator is the validated
  mapping, whose values are the keys of \<open>owner\<close>.
\<close>

fun validate_tokens :: "(string \<times> string) list \<Rightarrow> (json \<times> json) list \<Rightarrow> (string \<times> string) list res" where
  "validate_tokens acc [] = Inr acc"
| "validate_tokens acc ((node, token) # rest) =
     (case node of
        JStr n \<Rightarrow>
          if strip n = [] then Inl ValueError
          else (case token of
            JStr t \<Rightarrow>
              if strip t = [] then Inl ValueError
              else if t \<in> set (map snd acc) then Inl DuplicateNodeTokenError
              else validate_tokens (acc @ [(n, t)]) rest
          | _ \<Rightarrow> Inl ValueError)
      | _ \<Rightarrow> Inl ValueError)"

text \<open>The argument is a mapping, as its items, or something else.\<close>

definition node_credentials :: "(json \<times> json) list option \<Rightarrow> (string \<times> string) list res" where
  "node_credentials tokens = (case tokens of None \<Rightarrow> Inl TypeError | Some items \<Rightarrow> validate_tokens [] items)"

definition token_for :: "(string \<times> string) list \<Rightarrow> string \<Rightarrow> string option" where
  "token_for credentials node = map_of credentials node"

text \<open>\<open>NodeCredentials.__repr__\<close>: the sorted node names; the tokens do not enter it.\<close>

definition node_credentials_repr :: "(string \<times> string) list \<Rightarrow> string" where
  "node_credentials_repr credentials =
     ''NodeCredentials(nodes='' @ repr_strings (sort (map fst credentials)) @ '')''"

lemma repr_shows_no_token:
  "map fst credentials = map fst credentials' \<Longrightarrow> node_credentials_repr credentials = node_credentials_repr credentials'"
  by (simp add: node_credentials_repr_def)

section \<open>Strict decoding\<close>

definition top_level_fields :: "string list" where
  "top_level_fields =
     [''node'', ''reported_at'', ''uptime_seconds'', ''load'', ''cpu_percent'', ''ram'', ''swap'', ''root_fs'',
      ''root_inodes'']"

definition load_fields :: "string list" where "load_fields = [''one'', ''five'', ''fifteen'']"

definition resource_fields :: "string list" where "resource_fields = [''used'', ''total'', ''percent'']"

definition require_mapping :: "json \<Rightarrow> (string \<times> json) list res" where
  "require_mapping v = (case v of JObj ps \<Rightarrow> Inr ps | _ \<Rightarrow> Inl MalformedHeartbeatPayloadError)"

definition wire_require_exact_keys :: "(string \<times> json) list \<Rightarrow> string list \<Rightarrow> unit res" where
  "wire_require_exact_keys mapping required =
     (let present = set (map fst mapping) in
      in_order
        [raise_if (\<not> set required \<subseteq> present) MalformedHeartbeatPayloadError,
         raise_if (\<not> present \<subseteq> set required) MalformedHeartbeatPayloadError])"

text \<open>\<open>mapping[key]\<close>, only used behind the key check\<close>

definition item :: "(string \<times> json) list \<Rightarrow> string \<Rightarrow> json" where
  "item mapping key = (case map_of mapping key of None \<Rightarrow> JNull | Some v \<Rightarrow> v)"

definition require_node :: "json \<Rightarrow> string res" where
  "require_node v =
     (case v of
        JStr s \<Rightarrow> if strip s = [] then Inl MalformedHeartbeatPayloadError else Inr s
      | _ \<Rightarrow> Inl MalformedHeartbeatPayloadError)"

text \<open>\<open>float(value)\<close> of an int: correctly rounded, \<open>OverflowError\<close> beyond the largest double.\<close>

definition float_of_int :: "int \<Rightarrow> pyfloat res" where
  "float_of_int i = (if \<bar>i\<bar> < float_overflow_bound then Inr (round64 (of_int i)) else Inl OverflowError)"

definition require_number :: "json \<Rightarrow> pyfloat res" where
  "require_number v =
     bind_res
       (case v of
          JInt i \<Rightarrow> catch_res (float_of_int i) (\<lambda>e. e = OverflowError) (\<lambda>_. Inl MalformedHeartbeatPayloadError)
        | JFloat x \<Rightarrow> Inr x
        | _ \<Rightarrow> Inl MalformedHeartbeatPayloadError) (\<lambda>result.
     if \<not> flt_isfinite result then Inl MalformedHeartbeatPayloadError else Inr result)"

definition require_reported_at :: "json \<Rightarrow> datetime res" where
  "require_reported_at v =
     (case v of
        JStr s \<Rightarrow>
          (case fromisoformat s of
             None \<Rightarrow> Inl MalformedHeartbeatPayloadError
           | Some parsed \<Rightarrow>
               if tz parsed = NoTzinfo \<or> utcoffset (tz parsed) = None then Inl MalformedHeartbeatPayloadError
               else Inr parsed)
      | _ \<Rightarrow> Inl MalformedHeartbeatPayloadError)"

definition decode_load :: "json \<Rightarrow> load_average res" where
  "decode_load v =
     bind_res (require_mapping v) (\<lambda>mapping.
     bind_res (wire_require_exact_keys mapping load_fields) (\<lambda>_.
     bind_res (require_number (item mapping ''one'')) (\<lambda>one.
     bind_res (require_number (item mapping ''five'')) (\<lambda>five.
     bind_res (require_number (item mapping ''fifteen'')) (\<lambda>fifteen.
       validated load_average_post_init \<lparr>la_one = one, la_five = five, la_fifteen = fifteen\<rparr>)))))"

definition decode_resource :: "json \<Rightarrow> resource_usage res" where
  "decode_resource v =
     bind_res (require_mapping v) (\<lambda>mapping.
     bind_res (wire_require_exact_keys mapping resource_fields) (\<lambda>_.
     bind_res (require_number (item mapping ''used'')) (\<lambda>used.
     bind_res (require_number (item mapping ''total'')) (\<lambda>total.
     bind_res (require_number (item mapping ''percent'')) (\<lambda>percent.
       validated resource_usage_post_init \<lparr>ru_used = used, ru_total = total, ru_percent = percent\<rparr>)))))"

definition decode_heartbeat_payload :: "json \<Rightarrow> host_telemetry res" where
  "decode_heartbeat_payload payload =
     bind_res (require_mapping payload) (\<lambda>mapping.
     bind_res (wire_require_exact_keys mapping top_level_fields) (\<lambda>_.
     bind_res (require_node (item mapping ''node'')) (\<lambda>node.
     bind_res (require_reported_at (item mapping ''reported_at'')) (\<lambda>reported_at.
     bind_res (require_number (item mapping ''uptime_seconds'')) (\<lambda>uptime_seconds.
     bind_res (require_number (item mapping ''cpu_percent'')) (\<lambda>cpu_percent.
     catch_res
       (bind_res (decode_load (item mapping ''load'')) (\<lambda>load.
        bind_res (decode_resource (item mapping ''ram'')) (\<lambda>ram.
        bind_res (decode_resource (item mapping ''swap'')) (\<lambda>swap.
        bind_res (decode_resource (item mapping ''root_fs'')) (\<lambda>root_filesystem.
        bind_res (decode_resource (item mapping ''root_inodes'')) (\<lambda>root_inodes.
          validated host_telemetry_post_init
            \<lparr>ht_host = node, ht_timestamp = reported_at, ht_uptime_seconds = uptime_seconds, ht_load = load,
             ht_cpu_percent = cpu_percent, ht_ram = ram, ht_swap = swap, ht_root_filesystem = root_filesystem,
             ht_root_inodes = root_inodes\<rparr>)))))) is_value_error (\<lambda>_. Inl MalformedHeartbeatPayloadError)))))))"

section \<open>The snapshot\<close>

text \<open>
  The recursive copy of nested mappings.  \<open>frames\<close> is the number of nested calls the interpreter
  still allows; a \<open>RecursionError\<close> of an inner call is caught like any exception by the call around it.
\<close>

fun snapshot_payload :: "nat \<Rightarrow> json \<Rightarrow> json res" where
  "snapshot_payload 0 _ = Inl RecursionError"
| "snapshot_payload (Suc frames) (JObj ps) =
     (case map_res (\<lambda>(k, v). map_sum id (Pair k)
         (case v of JObj qs \<Rightarrow> snapshot_payload frames (JObj qs) | _ \<Rightarrow> Inr v)) ps of
        Inl e \<Rightarrow> if is_exception e then Inl MalformedHeartbeatPayloadError else Inl e
      | Inr qs \<Rightarrow> Inr (JObj qs))"
| "snapshot_payload (Suc frames) _ = Inl MalformedHeartbeatPayloadError"

definition claimed_node :: "json \<Rightarrow> string res" where
  "claimed_node payload =
     bind_res (require_mapping payload) (\<lambda>mapping.
       if ''node'' \<notin> set (map fst mapping) then Inl MalformedHeartbeatPayloadError
       else require_node (item mapping ''node''))"

section \<open>The adapter\<close>

text \<open>Everything up to the hand-over: the telemetry to ingest, or the failure.\<close>

definition wire_handle ::
  "sentinel_config \<Rightarrow> (string \<times> string) list \<Rightarrow> (host_telemetry \<Rightarrow> ('s, heartbeat_receipt) io) \<Rightarrow> nat \<Rightarrow>
    json \<Rightarrow> json \<Rightarrow> ('s, heartbeat_receipt) io" where
  "wire_handle config credentials ingestor frames payload token =
     bind_io (lift_io (snapshot_payload frames payload)) (\<lambda>snapshot.
     bind_io (lift_io (claimed_node snapshot)) (\<lambda>node.
     if config_host (sc_hosts config) node = None then lift_io (Inl HeartbeatAuthenticationError)
     else case token_for credentials node of
       None \<Rightarrow> lift_io (Inl HeartbeatAuthenticationError)
     | Some expected \<Rightarrow>
         (case token of
            JStr presented \<Rightarrow>
              if presented = [] \<or> strip presented = [] then lift_io (Inl HeartbeatAuthenticationError)
              else if utf8_encode presented \<noteq> utf8_encode expected then lift_io (Inl HeartbeatAuthenticationError)
              else bind_io (lift_io (decode_heartbeat_payload snapshot)) (\<lambda>telemetry.
                if ht_host telemetry \<noteq> node then lift_io (Inl MalformedHeartbeatPayloadError)
                else ingestor telemetry)
          | _ \<Rightarrow> lift_io (Inl HeartbeatAuthenticationError))))"

section \<open>Facts\<close>

lemma utf8_encode_inject [simp]: "utf8_encode a = utf8_encode b \<longleftrightarrow> a = b"
  by (metis sum.inject(2) utf8_decode_encode)

text \<open>The snapshot is the document itself, and its only failures are malformed or too deep.\<close>

lemma map_res_id: "(\<And>x. x \<in> set xs \<Longrightarrow> \<forall>y. f x = Inr y \<longrightarrow> y = x) \<Longrightarrow> map_res f xs = Inr ys \<Longrightarrow> ys = xs"
  by (induction xs arbitrary: ys) (auto split: sum.splits)

lemma snapshot_same: "snapshot_payload frames v = Inr w \<Longrightarrow> w = v"
proof (induction frames v arbitrary: w rule: snapshot_payload.induct)
  case (2 frames ps)
  let ?f = "\<lambda>(k, v). map_sum id (Pair k) (case v of JObj qs \<Rightarrow> snapshot_payload frames (JObj qs) | _ \<Rightarrow> Inr v)"
  have "\<forall>y. ?f x = Inr y \<longrightarrow> y = x" if "x \<in> set ps" for x
    using 2(1) that by (cases x; cases "snd x") fastforce+
  then have "map_res ?f ps = Inr qs \<Longrightarrow> qs = ps" for qs by (rule map_res_id)
  then show ?case using 2(2) by (auto split: sum.splits if_splits)
qed auto

lemma exact_keys_eq_Inr [simp]:
  "wire_require_exact_keys m ks = Inr u \<longleftrightarrow> set (map fst m) = set ks"
  by (auto simp: wire_require_exact_keys_def)

lemma exact_keys_error [dest!]: "wire_require_exact_keys m ks = Inl e \<Longrightarrow> e = MalformedHeartbeatPayloadError"
  by (auto simp: wire_require_exact_keys_def Let_def in_order.simps split: sum.splits)

lemma require_mapping_eq [simp]:
  "require_mapping v = Inr m \<longleftrightarrow> v = JObj m"
  by (auto simp: require_mapping_def split: json.splits)

lemma require_mapping_error [dest!]: "require_mapping v = Inl e \<Longrightarrow> e = MalformedHeartbeatPayloadError"
  by (auto simp: require_mapping_def split: json.splits)

lemma require_node_eq [simp]: "require_node v = Inr n \<longleftrightarrow> v = JStr n \<and> strip n \<noteq> []"
  by (auto simp: require_node_def split: json.splits)

lemma require_node_error [dest!]: "require_node v = Inl e \<Longrightarrow> e = MalformedHeartbeatPayloadError"
  by (auto simp: require_node_def split: json.splits if_splits)

lemma require_number_error [dest!]: "require_number v = Inl e \<Longrightarrow> e = MalformedHeartbeatPayloadError"
  by (auto simp: require_number_def bind_res_eq_Inl catch_res_def float_of_int_def split: json.splits if_splits)

lemma require_reported_at_error [dest!]: "require_reported_at v = Inl e \<Longrightarrow> e = MalformedHeartbeatPayloadError"
  by (auto simp: require_reported_at_def split: json.splits option.splits if_splits)

lemma require_reported_at_aware: "require_reported_at v = Inr d \<Longrightarrow> aware d"
  by (auto simp: require_reported_at_def aware_def split: json.splits option.splits if_splits)

text \<open>Errors that end as a malformed payload.\<close>

definition payload_error :: "exn \<Rightarrow> bool" where
  "payload_error e \<longleftrightarrow> e = MalformedHeartbeatPayloadError \<or> e = ValueError"

lemma payload_error_simps [simp]: "payload_error MalformedHeartbeatPayloadError" "payload_error ValueError"
  by (simp_all add: payload_error_def)

lemma scalar_error:
  "require_finite x = Inl e \<Longrightarrow> e = ValueError" "require_non_negative x = Inl e \<Longrightarrow> e = ValueError"
  "require_percent x = Inl e \<Longrightarrow> e = ValueError" "require_non_empty s = Inl e \<Longrightarrow> e = ValueError"
proof -
  show finite: "require_finite x = Inl e \<Longrightarrow> e = ValueError" for x by (simp add: require_finite_def)
  show "require_non_negative x = Inl e \<Longrightarrow> e = ValueError"
    by (auto simp: require_non_negative_def dest!: in_order_raises finite)
  show "require_percent x = Inl e \<Longrightarrow> e = ValueError"
    by (auto simp: require_percent_def dest!: in_order_raises finite)
  show "require_non_empty s = Inl e \<Longrightarrow> e = ValueError" by (simp add: require_non_empty_def)
qed

lemma post_init_error:
  "validated load_average_post_init l = Inl e \<Longrightarrow> e = ValueError"
  "validated resource_usage_post_init r = Inl e \<Longrightarrow> e = ValueError"
  "validated host_telemetry_post_init t = Inl e \<Longrightarrow> e = ValueError"
  by (auto simp: validated_def load_average_post_init_def resource_usage_post_init_def host_telemetry_post_init_def
      split: sum.splits if_splits dest!: in_order_raises scalar_error)

lemma decode_part_error:
  "decode_load v = Inl e \<Longrightarrow> payload_error e" "decode_resource v = Inl e \<Longrightarrow> payload_error e"
  by (auto simp: decode_load_def decode_resource_def bind_res_eq_Inl dest!: post_init_error)

lemma decode_part_valid:
  "decode_load v = Inr l \<Longrightarrow> load_average_post_init l = Inr ()"
  "decode_resource v = Inr r \<Longrightarrow> resource_usage_post_init r = Inr ()"
  by (auto simp: decode_load_def decode_resource_def)

text \<open>The exceptions a computation may raise.\<close>

definition raises_only :: "(exn \<Rightarrow> bool) \<Rightarrow> 'a res \<Rightarrow> bool" where
  "raises_only P m \<longleftrightarrow> (\<forall>e. m = Inl e \<longrightarrow> P e)"

lemma raises_only_bind: "raises_only P m \<Longrightarrow> (\<And>x. raises_only P (f x)) \<Longrightarrow> raises_only P (bind_res m f)"
  by (cases m) (auto simp: raises_only_def)

lemma raises_only_catch:
  "raises_only (\<lambda>e. p e \<or> e = e') m \<Longrightarrow> raises_only (\<lambda>e. e = e') (catch_res m p (\<lambda>_. Inl e'))"
  by (cases m) (auto simp: raises_only_def catch_res_def)

lemma decode_error: "decode_heartbeat_payload p = Inl e \<Longrightarrow> e = MalformedHeartbeatPayloadError"
proof -
  let ?P = "\<lambda>e. is_value_error e \<or> e = MalformedHeartbeatPayloadError"
  have part: "raises_only ?P (decode_load v)" "raises_only ?P (decode_resource v)"
    "raises_only ?P (validated host_telemetry_post_init t)" for v t
    by (auto simp: raises_only_def payload_error_def is_value_error_def dest: decode_part_error post_init_error)
  have "raises_only (\<lambda>e. e = MalformedHeartbeatPayloadError) (decode_heartbeat_payload p)"
    unfolding decode_heartbeat_payload_def
    by (intro raises_only_bind raises_only_catch part) (auto simp: raises_only_def)
  then show "decode_heartbeat_payload p = Inl e \<Longrightarrow> e = MalformedHeartbeatPayloadError"
    by (simp add: raises_only_def)
qed

lemma catch_to_error [simp]: "catch_res m p (\<lambda>_. Inl e) = Inr y \<longleftrightarrow> m = Inr y"
  by (auto simp: catch_res_eq_Inr)

lemma decode_success:
  assumes "decode_heartbeat_payload p = Inr t"
  shows "telemetry_ok t \<and> aware (ht_timestamp t) \<and> strip (ht_host t) \<noteq> [] \<and>
    (\<exists>ps. p = JObj ps \<and> set (map fst ps) = set top_level_fields \<and> item ps ''node'' = JStr (ht_host t))"
proof -
  from assms obtain ps node reported uptime cpu load ram swap fs inodes where
    top: "p = JObj ps" "set (map fst ps) = set top_level_fields" "require_node (item ps ''node'') = Inr node"
      "require_reported_at (item ps ''reported_at'') = Inr reported"
    and parts: "decode_load (item ps ''load'') = Inr load" "decode_resource (item ps ''ram'') = Inr ram"
      "decode_resource (item ps ''swap'') = Inr swap" "decode_resource (item ps ''root_fs'') = Inr fs"
      "decode_resource (item ps ''root_inodes'') = Inr inodes"
    and t: "t = \<lparr>ht_host = node, ht_timestamp = reported, ht_uptime_seconds = uptime, ht_load = load,
      ht_cpu_percent = cpu, ht_ram = ram, ht_swap = swap, ht_root_filesystem = fs, ht_root_inodes = inodes\<rparr>"
      "host_telemetry_post_init \<lparr>ht_host = node, ht_timestamp = reported, ht_uptime_seconds = uptime, ht_load = load,
        ht_cpu_percent = cpu, ht_ram = ram, ht_swap = swap, ht_root_filesystem = fs, ht_root_inodes = inodes\<rparr> = Inr ()"
    unfolding decode_heartbeat_payload_def bind_res_eq_Inr catch_to_error validated_eq_Inr exact_keys_eq_Inr
      require_mapping_eq by (elim exE conjE) (rule that; assumption)
  have "telemetry_ok t" using decode_part_valid parts t by (simp add: telemetry_ok_def)
  then show ?thesis using top t require_reported_at_aware by simp
qed

section \<open>The properties\<close>

text \<open>C37: a payload that decodes is an object with exactly the nine mandatory fields, whose telemetry
  passes every constructor check, is timezone-aware and carries the non-blank node it claims; every
  payload that does not decode is the malformed-payload error and nothing else.\<close>

theorem decoded_telemetry_is_valid:
  "case decode_heartbeat_payload p of
     Inr t \<Rightarrow> telemetry_ok t \<and> aware (ht_timestamp t) \<and> strip (ht_host t) \<noteq> [] \<and>
       (\<exists>ps. p = JObj ps \<and> set (map fst ps) = set top_level_fields \<and> item ps ''node'' = JStr (ht_host t))
   | Inl e \<Rightarrow> e = MalformedHeartbeatPayloadError"
proof (cases "decode_heartbeat_payload p")
  case (Inl e)
  then show ?thesis by (simp add: decode_error)
next
  case (Inr t)
  then show ?thesis using decode_success [OF Inr] by simp
qed

text \<open>Tokens are never shared between nodes.\<close>

lemma validate_tokens_distinct:
  "validate_tokens acc items = Inr creds \<Longrightarrow> distinct (map snd acc) \<Longrightarrow> distinct (map snd creds)"
  by (induction acc items rule: validate_tokens.induct) (auto split: json.splits if_splits)

lemma token_owner_unique:
  assumes "node_credentials tokens = Inr creds" "token_for creds n = Some t" "token_for creds m = Some t"
  shows "m = n"
proof -
  have "distinct (map snd creds)"
    using assms(1) validate_tokens_distinct by (auto simp: node_credentials_def split: option.splits)
  moreover have "(n, t) \<in> set creds" "(m, t) \<in> set creds"
    using assms(2,3) by (auto simp: token_for_def dest: map_of_SomeD)
  ultimately show ?thesis using inj_onD [of snd "set creds" "(n, t)" "(m, t)"] by (simp add: distinct_map)
qed

lemma wire_handle_cases:
  assumes "wire_handle config creds ingestor frames payload token s = (r, s')"
  shows "(\<exists>e. r = Inl e \<and> s' = s) \<or>
    (\<exists>ps node secret t. payload = JObj ps \<and> token = JStr secret \<and> strip secret \<noteq> [] \<and>
      config_host (sc_hosts config) node \<noteq> None \<and> token_for creds node = Some secret \<and>
      decode_heartbeat_payload payload = Inr t \<and> ht_host t = node \<and> ingestor t s = (r, s'))"
proof (cases "snapshot_payload frames payload")
  case (Inl e)
  then show ?thesis using assms by (auto simp: wire_handle_def)
next
  case (Inr snapshot)
  then have same: "snapshot = payload" by (rule snapshot_same)
  show ?thesis
  proof (cases "claimed_node payload")
    case (Inl e)
    then show ?thesis using assms Inr same by (auto simp: wire_handle_def)
  next
    case node: (Inr node)
    then obtain ps where ps: "payload = JObj ps" by (auto simp: claimed_node_def)
    note known = assms [unfolded wire_handle_def, unfolded Inr same node bind_lift lift_io_def]
    show ?thesis
    proof (cases "config_host (sc_hosts config) node = None \<or> token_for creds node = None")
      case True
      then show ?thesis using known by (auto split: if_splits option.splits)
    next
      case False
      then obtain expected where expected: "token_for creds node = Some expected" by auto
      show ?thesis
      proof (cases "\<exists>secret. token = JStr secret \<and> strip secret \<noteq> [] \<and> secret = expected")
        case True
        then have token: "token = JStr expected" "strip expected \<noteq> []" "expected \<noteq> []" by auto
        show ?thesis
        proof (cases "decode_heartbeat_payload payload")
          case (Inl e)
          then show ?thesis using known False expected token by auto
        next
          case (Inr t)
          then show ?thesis using known False expected token ps by (auto split: if_splits)
        qed
      next
        case other: False
        then show ?thesis using known False expected by (cases token) (auto split: if_splits)
      qed
    qed
  qed
qed

text \<open>C17: a heartbeat reaches ingestion only under a configured node whose own token was presented.  Whenever
  the adapter returns a receipt or changes anything, the presented text is the token of exactly one
  node, that node is the one the decoded telemetry carries, and what happened is the ingestion of
  that telemetry; in every other case nothing changed.\<close>

theorem only_the_owner_is_ingested:
  assumes "node_credentials tokens = Inr creds"
    and "wire_handle config creds ingestor frames payload token s = (r, s')"
    and "r = Inr receipt \<or> s' \<noteq> s"
  shows "\<exists>node secret t. token = JStr secret \<and> (\<forall>m. token_for creds m = Some secret \<longleftrightarrow> m = node) \<and>
    config_host (sc_hosts config) node \<noteq> None \<and> decode_heartbeat_payload payload = Inr t \<and> ht_host t = node \<and>
    ingestor t s = (r, s')"
  using wire_handle_cases [OF assms(2)] assms(3) token_owner_unique [OF assms(1)] by auto

definition sample_usage :: json where
  "sample_usage = JObj [(''used'', JFloat (Fin 1)), (''total'', JFloat (Fin 4)), (''percent'', JFloat (Fin 25))]"

definition sample_load :: json where
  "sample_load = JObj [(''one'', JFloat (Fin 1)), (''five'', JFloat (Fin 1)), (''fifteen'', JFloat (Fin 1))]"

definition sample_payload :: json where
  "sample_payload =
     JObj [(''node'', JStr ''de''), (''reported_at'', JStr (utc_text 60)), (''uptime_seconds'', JFloat (Fin 9)),
       (''load'', sample_load), (''cpu_percent'', JFloat (Fin 10)), (''ram'', sample_usage), (''swap'', sample_usage),
       (''root_fs'', sample_usage), (''root_inodes'', sample_usage)]"

definition recording_ingestor :: "host_telemetry \<Rightarrow> (host_telemetry list, heartbeat_receipt) io" where
  "recording_ingestor t s =
     (Inr \<lparr>rc_node = ht_host t, rc_observation_id = 1, rc_received_at = ht_timestamp t\<rparr>, t # s)"

lemma sample_numbers: "require_number (JFloat (Fin 9)) = Inr (Fin 9)" "require_number (JFloat (Fin 10)) = Inr (Fin 10)"
  by (simp_all add: require_number_def)

lemma sample_load_decodes: "decode_load sample_load = Inr \<lparr>la_one = Fin 1, la_five = Fin 1, la_fifteen = Fin 1\<rparr>"
  by (simp add: decode_load_def sample_load_def require_mapping_def wire_require_exact_keys_def load_fields_def
      item_def require_number_def validated_def load_average_post_init_def raise_if_def require_non_negative_def
      require_finite_def in_order.simps)

lemma sample_usage_decodes: "decode_resource sample_usage = Inr \<lparr>ru_used = Fin 1, ru_total = Fin 4, ru_percent = Fin 25\<rparr>"
  by (simp add: decode_resource_def sample_usage_def require_mapping_def wire_require_exact_keys_def resource_fields_def
      item_def require_number_def validated_def resource_usage_post_init_def raise_if_def require_non_negative_def
      require_percent_def require_finite_def in_order.simps)

lemma sample_time: "require_reported_at (JStr (utc_text 60)) = Inr (utc_datetime 60)"
  using fromisoformat_utc_text [of 60]
  by (simp add: require_reported_at_def max_wall_def us_per_day_def utc_datetime_def)

lemma sample_node: "strip ''de'' \<noteq> []"
  by code_simp

lemma sample_decodes:
  "\<exists>t. decode_heartbeat_payload sample_payload = Inr t \<and> ht_host t = ''de''"
  by (simp add: decode_heartbeat_payload_def sample_payload_def require_mapping_def wire_require_exact_keys_def
      top_level_fields_def require_node_def item_def sample_numbers sample_load_decodes sample_usage_decodes sample_time
      sample_node catch_res_def validated_def utc_datetime_def host_telemetry_post_init_def raise_if_def require_non_negative_def
      require_percent_def require_finite_def require_non_empty_def in_order.simps)

lemma sample_snapshot: "snapshot_payload (Suc (Suc 0)) sample_payload = Inr sample_payload"
  by (simp add: sample_payload_def sample_usage_def sample_load_def)

lemma sample_claim: "claimed_node sample_payload = Inr ''de''"
  by (simp add: claimed_node_def sample_payload_def item_def sample_node)

theorem only_the_owner_is_ingested_witness:
  "\<exists>node t. node_credentials (Some [(JStr ''de'', JStr ''k'')]) = Inr [(''de'', ''k'')] \<and>
    (\<forall>m. token_for [(''de'', ''k'')] m = Some ''k'' \<longleftrightarrow> m = node) \<and> ht_host t = node \<and>
    decode_heartbeat_payload sample_payload = Inr t"
proof -
  have creds: "node_credentials (Some [(JStr ''de'', JStr ''k'')]) = Inr [(''de'', ''k'')]" by code_simp
  obtain t where t: "decode_heartbeat_payload sample_payload = Inr t" "ht_host t = ''de''"
    using sample_decodes by blast
  have blank: "strip ''k'' \<noteq> []" by code_simp
  obtain receipt s' where run: "wire_handle sample_config [(''de'', ''k'')] recording_ingestor (Suc (Suc 0)) sample_payload (JStr ''k'') [] =
      (Inr receipt, s')"
    using t sample_claim blank by (simp add: wire_handle_def sample_snapshot token_for_def sample_config_def recording_ingestor_def)
  from only_the_owner_is_ingested [OF creds run, of receipt] t show ?thesis
    by (auto simp: creds)
qed

end
