(* ===== verification/Http_Api.thy ===== *)
theory Http_Api
  imports Wire Py_Http
begin

text \<open>
  \<open>http_api.py\<close>: the request semantics of the one heartbeat route.  The request model is as
  permissive as the class: a field that is not of its declared type is \<open>None\<close>, a header that is not a
  pair likewise.  The recursion limit of the JSON parser is the argument \<open>limit\<close>.
\<close>

section \<open>Constants and data\<close>

definition heartbeat_path :: string where "heartbeat_path = ''/v1/heartbeat''"
definition heartbeat_method :: string where "heartbeat_method = ''POST''"
definition max_heartbeat_body_bytes :: nat where "max_heartbeat_body_bytes = 16384"
definition content_type_header :: string where "content_type_header = ''content-type''"
definition token_header :: string where "token_header = ''x-sentinel-token''"
definition json_media_type :: string where "json_media_type = ''application/json''"
definition utf8_charset :: string where "utf8_charset = ''utf-8''"

definition content_length_zero :: "(string \<times> string) list" where
  "content_length_zero = [(''Content-Length'', ''0'')]"

record api_request =
  aq_method :: "string option"
  aq_path :: "string option"
  aq_headers :: "(string option \<times> string option) option list option"
  aq_body :: "string option"

record api_response =
  ap_status :: int
  ap_headers :: "(string \<times> string) list"
  ap_body :: string

text \<open>\<open>HttpRequest.__repr__\<close> shows no field.\<close>

definition api_request_repr :: "api_request \<Rightarrow> string" where
  "api_request_repr r = ''HttpRequest(<redacted>)''"

section \<open>Strict JSON\<close>

definition strict_json_hooks :: json_hooks where
  "strict_json_hooks = \<lparr>on_duplicate = Some StrictJsonInputError, on_constant = Some StrictJsonInputError\<rparr>"

definition decode_strict_json :: "nat \<Rightarrow> string \<Rightarrow> json option res" where
  "decode_strict_json limit body =
     (case utf8_decode body of
        Inl e \<Rightarrow> if e = UnicodeDecodeError then Inr None else Inl e
      | Inr t \<Rightarrow>
          (case json_loads strict_json_hooks limit t of
             Inl e \<Rightarrow> if is_value_error e then Inr None else if e = RecursionError then Inr None else Inl e
           | Inr payload \<Rightarrow> (case payload of JObj ps \<Rightarrow> Inr (Some (JObj ps)) | _ \<Rightarrow> Inr None)))"

section \<open>Headers\<close>

text \<open>\<open>str.lower\<close> on Latin-1\<close>

definition lower_char :: "char \<Rightarrow> char" where
  "lower_char c =
     (if 65 \<le> code c \<and> code c \<le> 90 \<or> 192 \<le> code c \<and> code c \<le> 222 \<and> code c \<noteq> 215 then char_of (code c + 32) else c)"

definition lower :: "string \<Rightarrow> string" where "lower s = map lower_char s"

definition header_values :: "(string \<times> string) list \<Rightarrow> string \<Rightarrow> string list" where
  "header_values headers name = map snd (filter (\<lambda>h. lower (fst h) = name) headers)"

definition is_malformed_media_type :: "string \<Rightarrow> bool" where
  "is_malformed_media_type token =
     (let stripped = strip token in
      if stripped = [] \<or> length (filter (\<lambda>c. c = CHR ''/'') stripped) \<noteq> 1 then True
      else list_ex (\<lambda>c. code c \<le> 32 \<or> 127 \<le> code c) stripped)"

text \<open>The loop over the parameters; the flag is \<open>saw_charset\<close>.\<close>

fun parameter_rejection :: "bool \<Rightarrow> string list \<Rightarrow> int option" where
  "parameter_rejection saw_charset [] = None"
| "parameter_rejection saw_charset (parameter # rest) =
     (let token = strip parameter;
          (raw_name, separator, raw_charset) = partition_at (CHR ''='') token
      in if token = [] \<or> \<not> separator then Some 400
         else let name = lower (strip raw_name); charset = lower (strip raw_charset)
           in if name = [] \<or> charset = [] then Some 400
              else if name \<noteq> ''charset'' then Some 415
              else if saw_charset then Some 400
              else if charset \<noteq> utf8_charset then Some 415
              else parameter_rejection True rest)"

definition content_type_rejection :: "string \<Rightarrow> int option" where
  "content_type_rejection v =
     (case split_on (CHR '';'') v of
        [] \<Rightarrow> Some 400
      | media_type # parameters \<Rightarrow>
          if is_malformed_media_type media_type then Some 400
          else if lower (strip media_type) \<noteq> json_media_type then Some 415
          else parameter_rejection False parameters)"

section \<open>Structure\<close>

definition is_malformed_header_name :: "string option \<Rightarrow> bool" where
  "is_malformed_header_name name =
     (case name of
        None \<Rightarrow> True
      | Some n \<Rightarrow> n = [] \<or> list_ex (\<lambda>c. code c \<le> 32 \<or> 127 \<le> code c) n)"

definition is_malformed_header_value :: "string option \<Rightarrow> bool" where
  "is_malformed_header_value v =
     (case v of
        None \<Rightarrow> True
      | Some s \<Rightarrow> list_ex (\<lambda>c. (code c < 32 \<and> code c \<noteq> 9) \<or> code c = 127) s)"

definition has_malformed_structure :: "api_request \<Rightarrow> bool" where
  "has_malformed_structure r =
     (aq_method r = None \<or> aq_path r = None \<or> aq_body r = None \<or>
      (case aq_headers r of
         None \<Rightarrow> True
       | Some hs \<Rightarrow>
           list_ex (\<lambda>h. case h of None \<Rightarrow> True
             | Some (n, v) \<Rightarrow> is_malformed_header_name n \<or> is_malformed_header_value v) hs))"

text \<open>The headers of a request that passed the structural check\<close>

definition well_formed_headers :: "api_request \<Rightarrow> (string \<times> string) list" where
  "well_formed_headers r = map (\<lambda>h. (the (fst (the h)), the (snd (the h)))) (the (aq_headers r))"

definition api_response_of :: "int \<Rightarrow> (string \<times> string) list \<Rightarrow> api_response" where
  "api_response_of status extra = \<lparr>ap_status = status, ap_headers = content_length_zero @ extra, ap_body = []\<rparr>"

section \<open>The adapter\<close>

definition api_handle ::
  "nat \<Rightarrow> (json \<Rightarrow> json \<Rightarrow> ('s, heartbeat_receipt) io) \<Rightarrow> api_request \<Rightarrow> ('s, api_response) io" where
  "api_handle limit wire r =
     (if has_malformed_structure r then return_io (api_response_of 400 [])
      else let headers = well_formed_headers r; body = the (aq_body r)
      in if aq_path r \<noteq> Some heartbeat_path then return_io (api_response_of 404 [])
      else if aq_method r \<noteq> Some heartbeat_method
        then return_io (api_response_of 405 [(''Allow'', heartbeat_method)])
      else if max_heartbeat_body_bytes < length body then return_io (api_response_of 413 [])
      else if body = [] then return_io (api_response_of 400 [])
      else (case header_values headers content_type_header of
          [] \<Rightarrow> return_io (api_response_of 415 [])
        | _ # _ # _ \<Rightarrow> return_io (api_response_of 400 [])
        | [content_type] \<Rightarrow>
            (case content_type_rejection content_type of
               Some rejection \<Rightarrow> return_io (api_response_of rejection [])
             | None \<Rightarrow>
                 (case header_values headers token_header of
                    [token] \<Rightarrow>
                      bind_io (lift_io (decode_strict_json limit body)) (\<lambda>payload.
                        case payload of
                          None \<Rightarrow> return_io (api_response_of 400 [])
                        | Some document \<Rightarrow>
                            catch_io
                              (bind_io (wire document (JStr token)) (\<lambda>_. return_io (api_response_of 204 [])))
                              (\<lambda>e. e = MalformedHeartbeatPayloadError \<or> e = HeartbeatAuthenticationError)
                              (\<lambda>e. return_io (api_response_of
                                (if e = MalformedHeartbeatPayloadError then 400 else 401) [])))
                  | _ \<Rightarrow> return_io (api_response_of 401 [])))))"

section \<open>What a response says about the database\<close>

text \<open>The whole write path behind one request: wire adapter and ingestion on the stored rows.\<close>

definition heartbeat_endpoint ::
  "sentinel_config \<Rightarrow> (string \<times> string) list \<Rightarrow> ('w, pyvalue) io \<Rightarrow> ('w, unit) io \<Rightarrow> nat \<Rightarrow> nat \<Rightarrow>
    api_request \<Rightarrow> (heartbeat_db \<times> 'w, api_response) io" where
  "heartbeat_endpoint config creds clock execute limit frames =
     api_handle limit (wire_handle config creds (ingest config clock execute) frames)"

lemma ingest_effect:
  assumes "ingest config clock execute t (db, w) = (r, db', w')"
  shows "(\<exists>e. r = Inl e) \<and> db' = db \<or>
    (\<exists>receipt row. r = Inr receipt \<and> db_rows db' = db_rows db @ [row] \<and> row_node row = ht_host t)"
proof -
  have node: "row_of_record q = Inr row \<Longrightarrow> row_node row = ht_host (hr_telemetry q)" for q row
    by (auto simp: row_of_record_def Let_def hr_node_def)
  show ?thesis using ingest_cases [OF assms] node by fastforce
qed

lemma wire_effect:
  assumes "node_credentials tokens = Inr creds"
    and "wire_handle config creds (ingest config clock execute) frames payload (JStr secret) (db, w) = (r, db', w')"
  shows "(\<exists>e. r = Inl e) \<and> db' = db \<or>
    (\<exists>receipt row. r = Inr receipt \<and> db_rows db' = db_rows db @ [row] \<and>
      (\<forall>m. token_for creds m = Some secret \<longleftrightarrow> m = row_node row))"
proof -
  consider "\<exists>e. r = Inl e" "db' = db"
    | node t where "token_for creds node = Some secret" "ht_host t = node"
        "ingest config clock execute t (db, w) = (r, db', w')"
    using wire_handle_cases [OF assms(2)] by blast
  then show ?thesis
  proof cases
    case 1
    then show ?thesis by simp
  next
    case 2
    then show ?thesis using ingest_effect [OF 2(3)] token_owner_unique [OF assms(1)] by auto
  qed
qed

text \<open>The responses that precede the wire adapter.\<close>

definition rejection :: "api_response \<Rightarrow> bool" where
  "rejection resp \<longleftrightarrow> ap_status resp \<in> {400, 401, 404, 405, 413, 415} \<and> ap_body resp = [] \<and>
     ap_headers resp = content_length_zero @ (if ap_status resp = 405 then [(''Allow'', heartbeat_method)] else [])"

lemma rejection_of [simp]:
  "rejection (api_response_of 400 [])" "rejection (api_response_of 401 [])" "rejection (api_response_of 404 [])"
  "rejection (api_response_of 413 [])" "rejection (api_response_of 415 [])"
  "rejection (api_response_of 405 [(''Allow'', heartbeat_method)])"
  by (simp_all add: rejection_def api_response_of_def)

lemma parameter_rejection_values: "parameter_rejection b ps = Some s \<Longrightarrow> s = 400 \<or> s = 415"
  by (induction b ps rule: parameter_rejection.induct) (auto simp: Let_def split: if_splits prod.splits)

lemma content_type_rejection_of: "content_type_rejection v = Some s \<Longrightarrow> rejection (api_response_of s [])"
  by (auto simp: content_type_rejection_def split: list.splits if_splits dest: parameter_rejection_values)

text \<open>Either the request is turned away without a call, or its document goes to the wire adapter.\<close>

lemma decode_strict_json_error:
  "decode_strict_json limit body = Inl e \<Longrightarrow> e = outside_model"
  by (auto simp: decode_strict_json_def strict_json_hooks_def json_error_def is_value_error_def
      split: sum.splits if_splits json.splits dest: utf8_decode_errors json_loads_errors)

lemma api_handle_cases:
  assumes "api_handle limit wire r s = (res, s')"
  shows "(\<exists>resp. res = Inr resp \<and> rejection resp \<and> s' = s) \<or> (res = Inl outside_model \<and> s' = s) \<or>
    (\<exists>token document. header_values (well_formed_headers r) token_header = [token] \<and>
      decode_strict_json limit (the (aq_body r)) = Inr (Some document) \<and>
      (res, s') = catch_io
        (bind_io (wire document (JStr token)) (\<lambda>_. return_io (api_response_of 204 [])))
        (\<lambda>e. e = MalformedHeartbeatPayloadError \<or> e = HeartbeatAuthenticationError)
        (\<lambda>e. return_io (api_response_of (if e = MalformedHeartbeatPayloadError then 400 else 401) [])) s)"
proof (cases "\<exists>resp. rejection resp \<and> api_handle limit wire r = return_io resp")
  case True
  then show ?thesis using assms by auto
next
  case False
  then have reach: "rejection resp \<Longrightarrow> api_handle limit wire r \<noteq> return_io resp" for resp by blast
  let ?hs = "well_formed_headers r"
  note reached = reach [OF rejection_of(1)] reach [OF rejection_of(2)] reach [OF rejection_of(3)]
    reach [OF rejection_of(4)] reach [OF rejection_of(5)] reach [OF rejection_of(6)]
  have start: "\<not> has_malformed_structure r" using reached by (auto simp: api_handle_def)
  moreover from this have "aq_path r = Some heartbeat_path" using reached by (auto simp: api_handle_def)
  moreover from calculation have "aq_method r = Some heartbeat_method" using reached by (auto simp: api_handle_def)
  moreover from calculation have "\<not> max_heartbeat_body_bytes < length (the (aq_body r))"
    using reached by (auto simp: api_handle_def)
  moreover from calculation have "the (aq_body r) \<noteq> []" using reached by (auto simp: api_handle_def)
  ultimately have start: "\<not> has_malformed_structure r" "aq_path r = Some heartbeat_path"
    "aq_method r = Some heartbeat_method" "\<not> max_heartbeat_body_bytes < length (the (aq_body r))"
    "the (aq_body r) \<noteq> []" by auto
  obtain content_type where ct: "header_values ?hs content_type_header = [content_type]"
  proof (cases "header_values ?hs content_type_header" rule: remdups_adj.cases)
    case 1
    then show ?thesis using reached start by (simp add: api_handle_def)
  next
    case (2 x)
    then show ?thesis by (rule that)
  next
    case 3
    then show ?thesis using reached start by (simp add: api_handle_def)
  qed
  have accepted: "content_type_rejection content_type = None"
    using reach [OF content_type_rejection_of] start
    by (cases "content_type_rejection content_type") (auto simp: ct api_handle_def)
  obtain token where token: "header_values ?hs token_header = [token]"
  proof (cases "header_values ?hs token_header" rule: remdups_adj.cases)
    case 1
    then show ?thesis using reached start by (simp add: api_handle_def ct accepted)
  next
    case (2 x)
    then show ?thesis by (rule that)
  next
    case 3
    then show ?thesis using reached start by (simp add: api_handle_def ct accepted)
  qed
  have eq: "api_handle limit wire r = bind_io (lift_io (decode_strict_json limit (the (aq_body r)))) (\<lambda>payload.
      case payload of None \<Rightarrow> return_io (api_response_of 400 []) | Some document \<Rightarrow> catch_io
        (bind_io (wire document (JStr token)) (\<lambda>_. return_io (api_response_of 204 [])))
        (\<lambda>e. e = MalformedHeartbeatPayloadError \<or> e = HeartbeatAuthenticationError)
        (\<lambda>e. return_io (api_response_of (if e = MalformedHeartbeatPayloadError then 400 else 401) [])))"
    using start by (simp add: api_handle_def ct accepted token)
  show ?thesis
  proof (cases "decode_strict_json limit (the (aq_body r))")
    case (Inl e)
    then show ?thesis using assms decode_strict_json_error [OF Inl] by (simp add: eq)
  next
    case (Inr payload)
    then show ?thesis using assms reach [of "api_response_of 400 []"] token by (cases payload) (auto simp: eq)
  qed
qed

text \<open>The status tells what was stored.  204 means that exactly one row was appended, under the one
  node whose token the single token header carries; every other response is an empty-body rejection
  and every escaping exception is an internal one, and then the database is unchanged.\<close>

lemma response_matches_storage:
  assumes "node_credentials tokens = Inr creds"
    and "heartbeat_endpoint config creds clock execute limit frames r (db, w) = (res, db', w')"
  shows "case res of
      Inr resp \<Rightarrow>
        if ap_status resp = 204
        then resp = api_response_of 204 [] \<and> (\<exists>row secret. db_rows db' = db_rows db @ [row] \<and>
          header_values (well_formed_headers r) token_header = [secret] \<and>
          (\<forall>m. token_for creds m = Some secret \<longleftrightarrow> m = row_node row))
        else rejection resp \<and> db' = db
    | Inl e \<Rightarrow> db' = db \<and> e \<noteq> MalformedHeartbeatPayloadError \<and> e \<noteq> HeartbeatAuthenticationError"
proof -
  have not_204: "rejection resp \<Longrightarrow> ap_status resp \<noteq> 204" for resp by (auto simp: rejection_def)
  let ?wire = "wire_handle config creds (ingest config clock execute) frames"
  consider (rejected) resp where "res = Inr resp" "rejection resp" "db' = db"
    | (outside) "res = Inl outside_model" "db' = db"
    | (called) token document where "header_values (well_formed_headers r) token_header = [token]"
        "(res, db', w') = catch_io
          (bind_io (?wire document (JStr token)) (\<lambda>_. return_io (api_response_of 204 [])))
          (\<lambda>e. e = MalformedHeartbeatPayloadError \<or> e = HeartbeatAuthenticationError)
          (\<lambda>e. return_io (api_response_of (if e = MalformedHeartbeatPayloadError then 400 else 401) [])) (db, w)"
    using api_handle_cases [OF assms(2) [unfolded heartbeat_endpoint_def]] by blast
  then show ?thesis
  proof cases
    case rejected
    then show ?thesis using not_204 by simp
  next
    case outside
    then show ?thesis by (simp add: outside_model_def)
  next
    case called
    obtain x db1 w1 where call: "?wire document (JStr token) (db, w) = (x, db1, w1)" by (rule prod_cases3)
    note effect = wire_effect [OF assms(1) call]
    show ?thesis
    proof (cases x)
      case (Inl e)
      then show ?thesis using called(2) call effect
        by (auto simp: catch_io_split bind_io_split api_response_of_def rejection_def split: if_splits)
    next
      case (Inr receipt)
      then show ?thesis using called call effect
        by (auto simp: catch_io_split bind_io_split api_response_of_def)
    qed
  qed
qed

lemma rejection_run:
  "heartbeat_endpoint sample_config [(''de'', ''k'')] (\<lambda>w. (Inr (PyDatetime (utc_datetime w)), w)) (\<lambda>w. (Inr (), w)) 99 9
      \<lparr>aq_method = Some ''GET'', aq_path = Some heartbeat_path, aq_headers = Some [], aq_body = Some []\<rparr> (empty_db, 7) =
    (Inr (api_response_of 405 [(''Allow'', heartbeat_method)]), empty_db, 7) \<and>
   rejection (api_response_of 405 [(''Allow'', heartbeat_method)])"
proof -
  have creds: "node_credentials (Some [(JStr ''de'', JStr ''k'')]) = Inr [(''de'', ''k'')]" by code_simp
  have run: "heartbeat_endpoint sample_config [(''de'', ''k'')] (\<lambda>w. (Inr (PyDatetime (utc_datetime w)), w))
      (\<lambda>w. (Inr (), w)) 99 9
      \<lparr>aq_method = Some ''GET'', aq_path = Some heartbeat_path, aq_headers = Some [], aq_body = Some []\<rparr> (empty_db, 7) =
    (Inr (api_response_of 405 [(''Allow'', heartbeat_method)]), empty_db, 7)"
    by (simp add: heartbeat_endpoint_def api_handle_def has_malformed_structure_def heartbeat_method_def)
  from response_matches_storage [OF creds run] run show ?thesis by (simp add: api_response_of_def)
qed

end
