(* ===== verification/Http_Server.thy ===== *)
theory Http_Server
  imports Http_Api
begin

text \<open>
  \<open>http_server.py\<close>: framing and response emission around the standard request parser.  The parser's
  outcome (method, path, header items), the socket's reader and its writer are parameters; the
  status line's reason phrase is the library's and not modelled.
\<close>

section \<open>Content-Length\<close>

definition max_content_length :: nat where "max_content_length = max_heartbeat_body_bytes"

definition status_bad_request :: int where "status_bad_request = 400"
definition status_length_required :: int where "status_length_required = 411"
definition status_payload_too_large :: int where "status_payload_too_large = 413"
definition status_expectation_failed :: int where "status_expectation_failed = 417"
definition status_internal_error :: int where "status_internal_error = 500"

definition digit_characters :: string where "digit_characters = ''0123456789''"

definition strip_zeros :: "string \<Rightarrow> string" where "strip_zeros raw = dropWhile (\<lambda>c. c = CHR ''0'') raw"

definition declared_length_status :: "string \<Rightarrow> int option" where
  "declared_length_status raw =
     (let max_text = nat_text max_content_length; significant = strip_zeros raw in
      if significant = [] then None
      else if length max_text < length significant \<or>
          (length significant = length max_text \<and> max_text < significant)
        then Some status_payload_too_large
      else None)"

text \<open>\<open>headers.get_all(name)\<close>: the values in order, \<open>None\<close> when there is none.\<close>

definition get_all :: "(string \<times> string) list \<Rightarrow> string \<Rightarrow> string list option" where
  "get_all headers name =
     (let values = map snd (filter (\<lambda>h. lower (fst h) = lower name) headers)
      in if values = [] then None else Some values)"

definition strip_ows :: "string \<Rightarrow> string" where
  "strip_ows s =
     (let ows = (\<lambda>c. c = CHR '' '' \<or> c = CHR 0x09) in rev (dropWhile ows (rev (dropWhile ows s))))"

text \<open>A \<open>_FramingError\<close> is the \<open>Inl\<close> of its status.\<close>

definition content_length_or_none :: "(string \<times> string) list \<Rightarrow> int + nat option" where
  "content_length_or_none headers =
     (case get_all headers ''Content-Length'' of
        None \<Rightarrow> Inr None
      | Some values \<Rightarrow>
          if length values \<noteq> 1 then Inl status_bad_request
          else let raw = strip_ows (hd values) in
            if raw = [] \<or> list_ex (\<lambda>c. c \<notin> set digit_characters) raw then Inl status_bad_request
            else if declared_length_status raw \<noteq> None then Inl status_payload_too_large
            else let significant = strip_zeros raw in
              if significant = [] then Inr (Some 0) else Inr (Some (the (num_of 0 significant))))"

section \<open>The handler\<close>

record parsed_request =
  hq_command :: string
  hq_path :: string
  hq_headers :: "(string \<times> string) list"

definition is_heartbeat_post :: "parsed_request \<Rightarrow> bool" where
  "is_heartbeat_post q \<longleftrightarrow> \<not> (hq_command q \<noteq> heartbeat_method \<or> hq_path q \<noteq> heartbeat_path)"

definition resolve_body :: "(nat \<Rightarrow> ('s, string) io) \<Rightarrow> parsed_request \<Rightarrow> ('s, int + string) io" where
  "resolve_body rfile_read q =
     (if \<not> is_heartbeat_post q then return_io (Inr [])
      else if get_all (hq_headers q) ''Expect'' \<noteq> None then return_io (Inl status_expectation_failed)
      else if get_all (hq_headers q) ''Transfer-Encoding'' \<noteq> None then return_io (Inl status_bad_request)
      else case content_length_or_none (hq_headers q) of
        Inl status \<Rightarrow> return_io (Inl status)
      | Inr None \<Rightarrow> return_io (Inl status_length_required)
      | Inr (Some n) \<Rightarrow>
          if n = 0 then return_io (Inr [])
          else bind_io (rfile_read n) (\<lambda>body.
            if length body \<noteq> n then return_io (Inl status_bad_request) else return_io (Inr body)))"

text \<open>What goes to the socket: status, header lines in order, body.\<close>

record emission =
  em_status :: int
  em_headers :: "(string \<times> string) list"
  em_body :: string

definition emit_b5_response :: "int \<Rightarrow> emission" where
  "emit_b5_response status =
     \<lparr>em_status = status, em_headers = [(''Content-Length'', ''0''), (''Connection'', ''close'')], em_body = []\<rparr>"

definition send_error :: "int \<Rightarrow> emission" where
  "send_error status =
     \<lparr>em_status = status, em_headers = [(''Content-Length'', ''0''), (''Connection'', ''close'')], em_body = []\<rparr>"

definition emit_response :: "api_response \<Rightarrow> emission" where
  "emit_response r =
     (let start = ap_headers r @ [(''Connection'', ''close'')] in
      if ap_body r \<noteq> [] then
        \<lparr>em_status = ap_status r, em_headers = start @ [(''Content-Length'', nat_text (length (ap_body r)))],
         em_body = ap_body r\<rparr>
      else
        \<lparr>em_status = ap_status r,
         em_headers = start @
           (if list_ex (\<lambda>h. lower (fst h) = ''content-length'') (ap_headers r) then [] else [(''Content-Length'', ''0'')]),
         em_body = []\<rparr>)"

definition handle_expect_100 :: "parsed_request \<Rightarrow> bool \<times> emission option" where
  "handle_expect_100 q =
     (if hq_command q = heartbeat_method \<and> hq_path q = heartbeat_path then
        (False, Some \<lparr>em_status = status_expectation_failed,
          em_headers = [(''Content-Length'', ''0''), (''Connection'', ''close'')], em_body = []\<rparr>)
      else (True, None))"

definition as_api_request :: "parsed_request \<Rightarrow> string \<Rightarrow> api_request" where
  "as_api_request q body =
     \<lparr>aq_method = Some (hq_command q), aq_path = Some (hq_path q),
      aq_headers = Some (map (\<lambda>h. Some (Some (fst h), Some (snd h))) (hq_headers q)), aq_body = Some body\<rparr>"

definition dispatch ::
  "(nat \<Rightarrow> ('s, string) io) \<Rightarrow> (api_request \<Rightarrow> ('s, api_response) io) \<Rightarrow> (emission \<Rightarrow> ('s, unit) io) \<Rightarrow>
    parsed_request \<Rightarrow> ('s, unit) io" where
  "dispatch rfile_read adapter emit q =
     bind_io (resolve_body rfile_read q) (\<lambda>resolved.
     case resolved of
       Inl status \<Rightarrow> emit (emit_b5_response status)
     | Inr body \<Rightarrow>
         bind_io (catch_io (bind_io (adapter (as_api_request q body)) (\<lambda>response. return_io (Some response)))
           is_exception (\<lambda>_. return_io None)) (\<lambda>response.
         case response of
           None \<Rightarrow> emit (emit_b5_response status_internal_error)
         | Some r \<Rightarrow> emit (emit_response r)))"

text \<open>
  What the library's parser does with a request it accepted: \<open>expects_continue\<close> is its own decision to
  ask \<open>handle_expect_100\<close> first, and an answer of no ends the request.
\<close>

definition serve_parsed ::
  "(nat \<Rightarrow> ('s, string) io) \<Rightarrow> (api_request \<Rightarrow> ('s, api_response) io) \<Rightarrow> (emission \<Rightarrow> ('s, unit) io) \<Rightarrow>
    bool \<Rightarrow> parsed_request \<Rightarrow> ('s, unit) io" where
  "serve_parsed rfile_read adapter emit expects_continue q =
     (if expects_continue then
        (case handle_expect_100 q of (proceed, answer) \<Rightarrow>
           bind_io (case answer of None \<Rightarrow> return_io () | Some em \<Rightarrow> emit em) (\<lambda>_.
             if proceed then dispatch rfile_read adapter emit q else return_io ()))
      else dispatch rfile_read adapter emit q)"

text \<open>\<open>__getattr__\<close>: whether a missing attribute is the dispatcher.\<close>

definition handler_getattr :: "string \<Rightarrow> bool" where
  "handler_getattr name = starts_with ''do_'' name"

section \<open>The server\<close>

record 's heartbeat_http_server =
  hs_address :: "string \<times> int"
  hs_adapter :: "api_request \<Rightarrow> ('s, api_response) io"

definition create_heartbeat_http_server ::
  "(string \<times> int \<Rightarrow> ('s, unit) io) \<Rightarrow> (api_request \<Rightarrow> ('s, api_response) io) \<Rightarrow> string \<Rightarrow> int \<Rightarrow>
    ('s, 's heartbeat_http_server) io" where
  "create_heartbeat_http_server bind_listener adapter host port =
     bind_io (bind_listener (host, port)) (\<lambda>_.
       return_io \<lparr>hs_address = (host, port), hs_adapter = adapter\<rparr>)"

section \<open>The textual length check is numeric\<close>

lemma digit_cases: "is_digit c \<Longrightarrow> \<exists>v < 10. c = dig v"
proof -
  assume "is_digit c"
  then have c: "48 \<le> (of_char c :: nat)" "(of_char c :: nat) \<le> 57" by (auto simp: is_digit_def digit_val_def Let_def split: if_splits)
  then have "dig (of_char c - 48) = c" by (simp add: dig_def)
  then show ?thesis using c by (intro exI [of _ "of_char c - 48"]) simp
qed

lemma digit_string:
  "list_all is_digit s \<Longrightarrow> \<exists>n < 10 ^ length s. s = digits (length s) n"
proof (induction s rule: rev_induct)
  case (snoc c cs)
  then obtain n v where n: "n < 10 ^ length cs" "cs = digits (length cs) n" and v: "v < 10" "c = dig v"
    using digit_cases [of c] by auto
  have "digits (Suc (length cs)) (10 * n + v) = cs @ [c]" using n v by (simp add: dig_def)
  moreover have "10 * n + v < 10 ^ Suc (length cs)" using n v by simp
  ultimately show ?case by (intro exI [of _ "10 * n + v"]) simp
qed simp

lemma digits_leading_zero: "n < 10 ^ k \<Longrightarrow> digits (Suc k) n = CHR ''0'' # digits k n"
proof (induction k arbitrary: n)
  case 0
  have "char_of (48 :: nat) = CHR ''0''" by code_simp
  then show ?case using 0 by (simp add: dig_def)
next
  case (Suc k)
  have "n div 10 < 10 ^ k" using Suc(2) by (simp add: less_mult_imp_div_less)
  from Suc(1) [OF this] show ?case by simp
qed

lemma significant_large:
  assumes "list_all is_digit s" "s \<noteq> []" "hd s \<noteq> CHR ''0''"
  shows "\<exists>n. num_of 0 s = Some n \<and> n < 10 ^ length s \<and> 10 ^ (length s - 1) \<le> n \<and> s = digits (length s) n"
proof -
  obtain n where n: "n < 10 ^ length s" "s = digits (length s) n" using digit_string [OF assms(1)] by blast
  have "10 ^ (length s - 1) \<le> n"
  proof (rule ccontr)
    assume "\<not> ?thesis"
    then have "digits (Suc (length s - 1)) n = CHR ''0'' # digits (length s - 1) n"
      by (intro digits_leading_zero) simp
    then have "hd s = CHR ''0''" using n(2) assms(2) by (metis One_nat_def Suc_pred length_greater_0_conv list.sel(1))
    then show False using assms(3) by contradiction
  qed
  moreover have "num_of 0 s = Some n" using num_of_digits [of 0 "length s" n] n by simp
  ultimately show ?thesis using n by blast
qed

lemma digit_val_zero [simp]: "digit_val (CHR ''0'') = Some 0"
  by (simp add: digit_val_def)

lemma num_of_strip_zeros: "num_of 0 (strip_zeros s) = num_of 0 s"
  by (induction s) (simp_all add: strip_zeros_def)

lemma strip_zeros_facts:
  "list_all is_digit s \<Longrightarrow> list_all is_digit (strip_zeros s)"
  "strip_zeros s \<noteq> [] \<Longrightarrow> hd (strip_zeros s) \<noteq> CHR ''0''"
proof -
  show "list_all is_digit s \<Longrightarrow> list_all is_digit (strip_zeros s)"
    by (induction s) (auto simp: strip_zeros_def)
  show "strip_zeros s \<noteq> [] \<Longrightarrow> hd (strip_zeros s) \<noteq> CHR ''0''"
    unfolding strip_zeros_def by (rule hd_dropWhile)
qed

lemma max_text: "nat_text max_content_length = digits 5 16384"
proof -
  have "digit_count 16384 = 5" by (simp add: digit_count.simps)
  then show ?thesis by (simp add: nat_text_def max_content_length_def max_heartbeat_body_bytes_def del: digits.simps)
qed

lemma declared_length_numeric:
  assumes "list_all is_digit raw" "num_of 0 raw = Some n"
  shows "declared_length_status raw \<noteq> None \<longleftrightarrow> max_content_length < n"
proof (cases "strip_zeros raw = []")
  case True
  then have "n = 0" using num_of_strip_zeros [of raw] assms(2) by simp
  then show ?thesis by (simp add: declared_length_status_def True)
next
  case False
  let ?s = "strip_zeros raw"
  have n: "n < 10 ^ length ?s" "10 ^ (length ?s - 1) \<le> n" "?s = digits (length ?s) n"
    using significant_large [OF strip_zeros_facts(1) [OF assms(1)] False strip_zeros_facts(2) [OF False]]
      num_of_strip_zeros [of raw] assms(2) by auto
  have max: "max_content_length = 16384" by (simp add: max_content_length_def max_heartbeat_body_bytes_def)
  have status: "declared_length_status raw \<noteq> None \<longleftrightarrow>
      5 < length ?s \<or> length ?s = 5 \<and> digits 5 16384 < ?s"
    using False unfolding declared_length_status_def Let_def max_text by (simp del: digits.simps)
  consider (longer) "5 < length ?s" | (equal) "length ?s = 5" | (shorter) "length ?s < 5" by linarith
  then show ?thesis
  proof cases
    case longer
    have "(10::nat) ^ 5 \<le> 10 ^ (length ?s - 1)" using longer by (intro power_increasing) auto
    then show ?thesis using longer n(2) status max by simp
  next
    case equal
    have "digits 5 16384 < digits 5 n \<longleftrightarrow> 16384 < n" using n(1) equal by (intro digits_less_iff) simp_all
    moreover have "?s = digits 5 n" using n(3) equal by simp
    ultimately show ?thesis using equal status max by simp
  next
    case shorter
    have "(10::nat) ^ length ?s \<le> 10 ^ 4" using shorter by (intro power_increasing) auto
    then show ?thesis using shorter n(1) status max by simp
  qed
qed

lemma digit_characters_iff: "c \<in> set digit_characters \<longleftrightarrow> is_digit c"
proof
  have "list_all is_digit digit_characters" by code_simp
  then show "c \<in> set digit_characters \<Longrightarrow> is_digit c" by (simp add: list_all_iff)
next
  assume "is_digit c"
  then obtain v where v: "v < 10" "c = dig v" using digit_cases by blast
  have "list_all (\<lambda>v. dig v \<in> set digit_characters) [0..<10]" by code_simp
  then show "c \<in> set digit_characters" using v by (simp add: list_all_iff)
qed

lemma content_length_numeric:
  "content_length_or_none headers =
     (case get_all headers ''Content-Length'' of
        None \<Rightarrow> Inr None
      | Some [v] \<Rightarrow>
          if strip_ows v \<noteq> [] \<and> list_all is_digit (strip_ows v)
          then let n = the (num_of 0 (strip_ows v)) in if max_content_length < n then Inl 413 else Inr (Some n)
          else Inl 400
      | Some _ \<Rightarrow> Inl 400)"
proof (cases "\<exists>v. get_all headers ''Content-Length'' = Some [v] \<and> strip_ows v \<noteq> [] \<and> list_all is_digit (strip_ows v)")
  case True
  then obtain v where v: "get_all headers ''Content-Length'' = Some [v]" "strip_ows v \<noteq> []"
    "list_all is_digit (strip_ows v)" by blast
  then obtain n where n: "num_of 0 (strip_ows v) = Some n"
    using digit_string num_of_digits by metis
  have zero: "strip_zeros (strip_ows v) = [] \<Longrightarrow> n = 0" using num_of_strip_zeros [of "strip_ows v"] n by simp
  show ?thesis
    using v n zero declared_length_numeric [OF v(3) n] num_of_strip_zeros [of "strip_ows v"]
    by (auto simp: content_length_or_none_def Let_def list_ex_iff list_all_iff digit_characters_iff
        status_payload_too_large_def)
next
  case False
  then show ?thesis
    by (auto simp: content_length_or_none_def Let_def list_ex_iff list_all_iff digit_characters_iff
        status_bad_request_def split: option.splits list.splits)
qed

text \<open>C38: the Content-Length check decides by the numeric value although it never converts a long text:
  without the header there is no length; otherwise there must be exactly one, all digits after outer
  white space, and the result is 413 exactly when its value exceeds the limit and the value itself
  when it does not.\<close>

theorem content_length_is_numeric:
  "content_length_or_none headers =
     (case get_all headers ''Content-Length'' of
        None \<Rightarrow> Inr None
      | Some [v] \<Rightarrow>
          if strip_ows v \<noteq> [] \<and> list_all is_digit (strip_ows v)
          then let n = the (num_of 0 (strip_ows v)) in if max_content_length < n then Inl 413 else Inr (Some n)
          else Inl 400
      | Some _ \<Rightarrow> Inl 400)"
  by (rule content_length_numeric)

lemma content_length_bound: "content_length_or_none headers = Inr (Some n) \<Longrightarrow> n \<le> max_content_length"
  unfolding content_length_numeric by (auto simp: Let_def split: option.splits list.splits if_splits)

section \<open>Reading and answering\<close>

lemma content_length_status:
  "content_length_or_none headers = Inl status \<Longrightarrow> status = 400 \<or> status = 413"
  by (auto simp: content_length_or_none_def status_bad_request_def status_payload_too_large_def Let_def
      split: option.splits if_splits)

lemma resolve_body_cases:
  assumes "resolve_body rfile_read q s = (r, s')"
  shows "(s' = s \<and> (r = Inr (Inr []) \<or> (\<exists>status \<in> {400, 411, 413, 417}. r = Inr (Inl status)))) \<or>
    (\<exists>n x. is_heartbeat_post q \<and> get_all (hq_headers q) ''Expect'' = None \<and>
      get_all (hq_headers q) ''Transfer-Encoding'' = None \<and>
      content_length_or_none (hq_headers q) = Inr (Some n) \<and> 0 < n \<and> n \<le> max_content_length \<and>
      rfile_read n s = (x, s') \<and>
      r = (case x of Inl e \<Rightarrow> Inl e | Inr body \<Rightarrow> Inr (if length body = n then Inr body else Inl 400)))"
proof -
  consider (kept) "s' = s" "r = Inr (Inr []) \<or> (\<exists>status \<in> {400, 411, 413, 417}. r = Inr (Inl status))"
    | (reading) n where "is_heartbeat_post q" "get_all (hq_headers q) ''Expect'' = None"
        "get_all (hq_headers q) ''Transfer-Encoding'' = None" "content_length_or_none (hq_headers q) = Inr (Some n)" "n \<noteq> 0"
  proof (cases "is_heartbeat_post q \<and> get_all (hq_headers q) ''Expect'' = None \<and>
      get_all (hq_headers q) ''Transfer-Encoding'' = None")
    case False
    then show ?thesis using assms
      by (intro kept) (auto simp: resolve_body_def status_expectation_failed_def status_bad_request_def split: if_splits)
  next
    case True
    then have eq: "resolve_body rfile_read q = (case content_length_or_none (hq_headers q) of
        Inl status \<Rightarrow> return_io (Inl status)
      | Inr None \<Rightarrow> return_io (Inl status_length_required)
      | Inr (Some n) \<Rightarrow>
          if n = 0 then return_io (Inr [])
          else bind_io (rfile_read n) (\<lambda>body.
            if length body \<noteq> n then return_io (Inl status_bad_request) else return_io (Inr body)))"
      by (simp add: resolve_body_def)
    show ?thesis
    proof (cases "content_length_or_none (hq_headers q)")
      case (Inl status)
      then show ?thesis using assms content_length_status [OF Inl] by (intro kept) (auto simp: eq)
    next
      case (Inr x)
      show ?thesis
      proof (cases x)
        case None
        then show ?thesis using assms Inr by (intro kept) (auto simp: eq status_length_required_def)
      next
        case (Some n)
        show ?thesis
        proof (cases "n = 0")
          case True
          then show ?thesis using assms Inr Some by (intro kept) (auto simp: eq)
        next
          case False
          then show ?thesis using True Inr Some by (intro reading) auto
        qed
      qed
    qed
  qed
  then show ?thesis
  proof cases
    case kept
    then show ?thesis by blast
  next
    case reading
    obtain x t where x: "rfile_read n s = (x, t)" by fastforce
    have "(r, s') = (case x of Inl e \<Rightarrow> (Inl e, t) | Inr body \<Rightarrow> (Inr (if length body = n then Inr body else Inl 400), t))"
      using assms reading x by (auto simp: resolve_body_def bind_io_split status_bad_request_def split: sum.splits)
    then have "s' = t" "r = (case x of Inl e \<Rightarrow> Inl e | Inr body \<Rightarrow> Inr (if length body = n then Inr body else Inl 400))"
      by (auto split: sum.splits)
    then show ?thesis using reading x content_length_bound [OF reading(4)] by blast
  qed
qed

text \<open>C39: the socket is read only for an exact heartbeat POST without \<open>Expect\<close> and \<open>Transfer-Encoding\<close>
  whose declared length is between one and the limit, once and for exactly that many bytes; a body
  of another length, like every other deviation, ends in a framing status, never in the adapter.\<close>

theorem body_is_read_within_bounds:
  assumes "resolve_body rfile_read q s = (r, s')"
  shows "(s' = s \<and> (r = Inr (Inr []) \<or> (\<exists>status \<in> {400, 411, 413, 417}. r = Inr (Inl status)))) \<or>
    (\<exists>n x. is_heartbeat_post q \<and> get_all (hq_headers q) ''Expect'' = None \<and>
      get_all (hq_headers q) ''Transfer-Encoding'' = None \<and>
      content_length_or_none (hq_headers q) = Inr (Some n) \<and> 0 < n \<and> n \<le> 16384 \<and>
      rfile_read n s = (x, s') \<and>
      r = (case x of Inl e \<Rightarrow> Inl e | Inr body \<Rightarrow> Inr (if length body = n then Inr body else Inl 400)))"
  using resolve_body_cases [OF assms] by (simp add: max_content_length_def max_heartbeat_body_bytes_def)

definition sample_post :: parsed_request where
  "sample_post = \<lparr>hq_command = heartbeat_method, hq_path = heartbeat_path, hq_headers = [(''Content-Length'', ''3'')]\<rparr>"

theorem body_is_read_within_bounds_witness:
  "resolve_body (\<lambda>n s. (Inr (take n s), drop n s)) sample_post ''{}'' = (Inr (Inl 400), [])"
proof -
  have run: "resolve_body (\<lambda>n s. (Inr (take n s), drop n s)) sample_post ''{}'' = (Inr (Inl 400), [])"
  proof -
    have "get_all [(''Content-Length'', ''3'')] ''Expect'' = None" by code_simp
    moreover have "get_all [(''Content-Length'', ''3'')] ''Transfer-Encoding'' = None" by code_simp
    moreover have "content_length_or_none [(''Content-Length'', ''3'')] = Inr (Some 3)"
      unfolding content_length_numeric by code_simp
    ultimately show ?thesis
      by (simp add: resolve_body_def sample_post_def is_heartbeat_post_def status_bad_request_def)
  qed
  from body_is_read_within_bounds [OF run] run show ?thesis by simp
qed

lemma framing_statuses: "resolve_body rfile_read q s = (Inr (Inl status), s') \<Longrightarrow> status \<in> {400, 411, 413, 417}"
  using resolve_body_cases [of rfile_read q s "Inr (Inl status)" s'] by (fastforce split: sum.splits if_splits)

lemma on_snd_result: "on_snd m (d, w) = (r, d', w') \<longleftrightarrow> d' = d \<and> m w = (r, w')"
  by (auto simp: on_snd_def split: prod.splits)

text \<open>The request carries, as its only token header, the token of exactly the node the row is for.\<close>

definition authored :: "(string \<times> string) list \<Rightarrow> parsed_request \<Rightarrow> heartbeat_row \<Rightarrow> bool" where
  "authored creds q row \<longleftrightarrow>
     (\<exists>secret. header_values (hq_headers q) token_header = [secret] \<and>
       (\<forall>m. token_for creds m = Some secret \<longleftrightarrow> m = row_node row))"

lemma dispatch_answers:
  assumes "node_credentials tokens = Inr creds"
    and "dispatch (\<lambda>n. on_snd (read n)) (heartbeat_endpoint config creds clock execute limit frames)
      (\<lambda>em. on_snd (write em)) q (db, w) = (r, db', w')"
  shows "(\<exists>e. r = Inl e \<and> db' = db) \<or>
    (\<exists>em w1. write em w1 = (r, w') \<and>
      (if em_status em = 204 then \<exists>row. db_rows db' = db_rows db @ [row] \<and> authored creds q row else db' = db))"
proof -
  obtain x db1 w1 where body: "resolve_body (\<lambda>n. on_snd (read n)) q (db, w) = (x, db1, w1)" by (rule prod_cases3)
  have db1: "db1 = db" using resolve_body_cases [OF body] by auto
  show ?thesis
  proof (cases x)
    case (Inl e)
    then show ?thesis using assms(2) body db1 by (auto simp: dispatch_def)
  next
    case (Inr resolved)
    show ?thesis
    proof (cases resolved)
      case framing: (Inl status)
      have "status \<noteq> 204" using framing_statuses [OF body [unfolded Inr framing]] by auto
      moreover have "(r, db', w') = on_snd (write (emit_b5_response status)) (db, w1)"
        using assms(2) body db1 Inr framing by (simp add: dispatch_def)
      ultimately show ?thesis by (auto intro!: exI [of _ "emit_b5_response status"] exI [of _ w1] simp: emit_b5_response_def)
    next
      case complete: (Inr payload)
      obtain y db2 w2 where call: "heartbeat_endpoint config creds clock execute limit frames (as_api_request q payload) (db, w1) =
        (y, db2, w2)" by (rule prod_cases3)
      note stored = response_matches_storage [OF assms(1) call]
      show ?thesis
      proof (cases y)
        case (Inl e)
        then have kept: "db2 = db" using stored by simp
        show ?thesis
        proof (cases "is_exception e")
          case True
          then have "write (emit_b5_response 500) w2 = (r, w')" "db' = db"
            using assms(2) body db1 Inr complete call \<open>y = Inl e\<close> kept
            by (auto simp: dispatch_def bind_io_split catch_io_split status_internal_error_def on_snd_result)
          then show ?thesis by (intro disjI2 exI [of _ "emit_b5_response 500"] exI [of _ w2])
            (simp add: emit_b5_response_def)
        next
          case False
          then show ?thesis
            using assms(2) body db1 Inr complete call \<open>y = Inl e\<close> kept
            by (auto simp: dispatch_def bind_io_split catch_io_split)
        qed
      next
        case response: (Inr resp)
        then have "write (emit_response resp) w2 = (r, w')" "db' = db2"
          using assms(2) body db1 Inr complete call
          by (auto simp: dispatch_def bind_io_split catch_io_split on_snd_result)
        moreover have "em_status (emit_response resp) = ap_status resp" by (simp add: emit_response_def Let_def)
        moreover have "well_formed_headers (as_api_request q payload) = hq_headers q"
          by (simp add: well_formed_headers_def as_api_request_def comp_def)
        ultimately show ?thesis using stored response unfolding authored_def
          by (intro disjI2 exI [of _ "emit_response resp"] exI [of _ w2]) (auto split: if_splits)
      qed
    qed
  qed
qed

text \<open>C5: the answer on the wire matches the database.  With the whole write path behind the handler, a
  request either ends in an exception of the reader, or one outside \<open>Exception\<close>, with nothing stored
  and nothing written, or exactly one response is written: 204 when exactly one row was appended, of
  the node whose token the request carries, any other status, 500 included, when nothing was.\<close>

theorem answer_matches_storage:
  assumes "node_credentials tokens = Inr creds"
    and "dispatch (\<lambda>n. on_snd (read n)) (heartbeat_endpoint config creds clock execute limit frames)
      (\<lambda>em. on_snd (write em)) q (db, w) = (r, db', w')"
  shows "(\<exists>e. r = Inl e \<and> db' = db) \<or>
    (\<exists>em w1. write em w1 = (r, w') \<and>
      (if em_status em = 204 then \<exists>row. db_rows db' = db_rows db @ [row] \<and> authored creds q row else db' = db))"
  by (rule dispatch_answers [OF assms])

theorem answer_matches_storage_witness:
  "dispatch (\<lambda>n. on_snd (\<lambda>w. (Inr [], w))) (heartbeat_endpoint sample_config [(''de'', ''k'')]
      (\<lambda>w. (Inr (PyDatetime (utc_datetime 0)), w)) (\<lambda>w. (Inr (), w)) 99 9) (\<lambda>em. on_snd (\<lambda>w. (Inr (), em # w)))
      \<lparr>hq_command = heartbeat_method, hq_path = heartbeat_path, hq_headers = []\<rparr> (empty_db, []) =
    (Inr (), empty_db, [emit_b5_response 411]) \<and>
   (\<exists>em w1. em # w1 = [emit_b5_response 411] \<and> em_status em \<noteq> 204)"
proof -
  have creds: "node_credentials (Some [(JStr ''de'', JStr ''k'')]) = Inr [(''de'', ''k'')]" by code_simp
  let ?q = "\<lparr>hq_command = heartbeat_method, hq_path = heartbeat_path, hq_headers = []\<rparr>"
  have "resolve_body (\<lambda>n. on_snd (\<lambda>w. (Inr [], w))) ?q (empty_db, []) = (Inr (Inl 411), empty_db, [] :: emission list)"
    by (simp add: resolve_body_def is_heartbeat_post_def content_length_or_none_def get_all_def
        status_length_required_def)
  then have run: "dispatch (\<lambda>n. on_snd (\<lambda>w. (Inr [], w))) (heartbeat_endpoint sample_config [(''de'', ''k'')]
      (\<lambda>w. (Inr (PyDatetime (utc_datetime 0)), w)) (\<lambda>w. (Inr (), w)) 99 9) (\<lambda>em. on_snd (\<lambda>w. (Inr (), em # w)))
      ?q (empty_db, []) = (Inr (), empty_db, [emit_b5_response 411])"
    by (simp add: dispatch_def bind_io_split on_snd_def)
  have "em_status (emit_b5_response 411) \<noteq> 204" by (simp add: emit_b5_response_def)
  moreover have "\<exists>em w1. em # w1 = [emit_b5_response 411] \<and> em_status em \<noteq> 204"
    using answer_matches_storage [OF creds run] calculation by auto
  ultimately show ?thesis using run by simp
qed

end
