(* ===== verification/Acceptance.thy ===== *)
theory Acceptance
  imports Http_Server Deadman_Size
begin

text \<open>
  The converse of what \<open>Http_Server\<close> shows of a 204: a well-formed report under its node's own token is
  accepted, through framing, request semantics, authentication, decoding and ingestion.
\<close>

section \<open>Each layer lets the report through\<close>

lemma validated_tokens_not_blank:
  "validate_tokens acc items = Inr creds \<Longrightarrow> \<forall>(n, t) \<in> set acc. strip t \<noteq> [] \<Longrightarrow> \<forall>(n, t) \<in> set creds. strip t \<noteq> []"
proof (induction acc items rule: validate_tokens.induct)
  case (2 acc node token rest)
  then show ?case by (auto split: json.splits if_splits)
qed simp

lemma token_not_blank:
  assumes "node_credentials tokens = Inr creds" "token_for creds node = Some secret"
  shows "strip secret \<noteq> []" "secret \<noteq> []"
proof -
  obtain items where "validate_tokens [] items = Inr creds"
    using assms(1) by (auto simp: node_credentials_def split: option.splits)
  from validated_tokens_not_blank [OF this] show "strip secret \<noteq> []"
    using assms(2) by (auto simp: token_for_def dest: map_of_SomeD)
  then show "secret \<noteq> []" by auto
qed

lemma node_key: "wire_require_exact_keys ps top_level_fields = Inr u \<Longrightarrow> ''node'' \<in> set (map fst ps)"
proof -
  have "''node'' \<in> set top_level_fields" by (simp add: top_level_fields_def)
  then show "wire_require_exact_keys ps top_level_fields = Inr u \<Longrightarrow> ''node'' \<in> set (map fst ps)"
    by (auto simp: wire_require_exact_keys_def Let_def)
qed

lemma decoded_claim:
  assumes "decode_heartbeat_payload payload = Inr t"
  shows "claimed_node payload = Inr (ht_host t)"
proof -
  obtain ps where ps: "payload = JObj ps"
    using assms by (cases payload) (simp_all add: decode_heartbeat_payload_def require_mapping_def)
  have decoded: "''node'' \<in> set (map fst ps) \<and> require_node (item ps ''node'') = Inr (ht_host t)"
    using assms node_key [of ps]
    by (auto simp: decode_heartbeat_payload_def ps require_mapping_def catch_res_eq_Inr simp del: set_map)
  then show ?thesis by (simp add: claimed_node_def ps require_mapping_def)
qed

lemma wire_accepts:
  assumes "node_credentials tokens = Inr creds" "token_for creds (ht_host t) = Some secret"
    and "config_host (sc_hosts config) (ht_host t) \<noteq> None"
    and "snapshot_payload frames payload = Inr snapshot" "decode_heartbeat_payload payload = Inr t"
  shows "wire_handle config creds ingestor frames payload (JStr secret) = ingestor t"
proof -
  have "snapshot = payload" using assms(4) by (rule snapshot_same)
  then show ?thesis
    using assms(2-5) token_not_blank [OF assms(1,2)] decoded_claim [OF assms(5)]
    by (elim not_None_eq [THEN iffD1, elim_format] exE) (simp add: wire_handle_def fun_eq_iff)
qed

text \<open>
  The header lines of a report: any lines with printable names and values without control characters,
  as every client adds its own (\<open>curl\<close> sends \<open>Host\<close>, \<open>User-Agent\<close> and \<open>Accept\<close>), in any order and
  spelling of the names, with the token, the JSON media type and the exact length once each.
\<close>

definition plain_line :: "string \<times> string \<Rightarrow> bool" where
  "plain_line line \<longleftrightarrow> fst line \<noteq> [] \<and> list_all (\<lambda>c. 32 < code c \<and> code c < 127) (fst line) \<and>
     list_all (\<lambda>c. code c = 9 \<or> 32 \<le> code c \<and> code c \<noteq> 127) (snd line)"

definition line_values :: "(string \<times> string) list \<Rightarrow> string \<Rightarrow> string list" where
  "line_values lines name = [v. (n, v) \<leftarrow> lines, lower n = name]"

definition carries_report :: "string \<Rightarrow> string \<Rightarrow> (string \<times> string) list \<Rightarrow> bool" where
  "carries_report secret body lines \<longleftrightarrow>
     list_all plain_line lines \<and>
     line_values lines ''content-type'' \<in> {[''application/json''], [''application/json; charset=utf-8'']} \<and>
     line_values lines ''x-sentinel-token'' = [secret] \<and>
     line_values lines ''content-length'' = [nat_text (length body)] \<and>
     line_values lines ''expect'' = [] \<and> line_values lines ''transfer-encoding'' = []"

lemma line_values_header: "header_values lines name = line_values lines name"
  by (induction lines) (auto simp: header_values_def line_values_def)

lemma line_values_get_all:
  "get_all lines name = (if line_values lines (lower name) = [] then None else Some (line_values lines (lower name)))"
  unfolding get_all_def header_values_def [symmetric] by (simp add: line_values_header)

lemma lower_names:
  "lower ''Content-Length'' = ''content-length''" "lower ''Expect'' = ''expect''"
  "lower ''Transfer-Encoding'' = ''transfer-encoding''"
  by code_simp+

lemma report_line_values:
  assumes "carries_report secret body lines"
  shows "header_values lines content_type_header \<in> {[''application/json''], [''application/json; charset=utf-8'']}"
    and "header_values lines token_header = [secret]"
    and "get_all lines ''Expect'' = None" "get_all lines ''Transfer-Encoding'' = None"
    and "get_all lines ''Content-Length'' = Some [nat_text (length body)]"
  using assms
  by (simp_all add: carries_report_def line_values_get_all line_values_header lower_names
      content_type_header_def token_header_def)

lemma digit_not_blank: "is_digit c \<Longrightarrow> c \<noteq> CHR '' '' \<and> c \<noteq> CHR 0x09"
  by (auto simp: is_digit_def digit_val_def Let_def)

lemma dropWhile_none: "\<forall>c \<in> set s. \<not> P c \<Longrightarrow> dropWhile P s = s"
  by (cases s) simp_all

lemma strip_ows_digits: "\<forall>c \<in> set s. is_digit c \<Longrightarrow> strip_ows s = s"
  using digit_not_blank by (simp add: strip_ows_def Let_def dropWhile_none)

lemma report_length:
  assumes "carries_report secret body lines" "length body \<le> max_content_length"
  shows "content_length_or_none lines = Inr (Some (length body))"
proof -
  have digits: "\<forall>c \<in> set (nat_text (length body)). is_digit c" unfolding nat_text_def by (rule digits_all)
  have "digit_count (length body) \<noteq> 0" by (simp add: digit_count.simps)
  then have "nat_text (length body) \<noteq> []" by (metis length_text length_0_conv)
  then show ?thesis
    using assms(2) digits strip_ows_digits [OF digits]
    unfolding content_length_numeric report_line_values(5) [OF assms(1)] by (simp add: list_all_iff)
qed

lemma plain_line_accepted:
  assumes "plain_line line"
  shows "\<not> is_malformed_header_name (Some (fst line))" "\<not> is_malformed_header_value (Some (snd line))"
  using assms
  by (fastforce simp: plain_line_def is_malformed_header_name_def is_malformed_header_value_def list_all_iff list_ex_iff)+

lemma api_accepts:
  assumes "decode_strict_json limit body = Inr (Some document)" "body \<noteq> []" "length body \<le> max_heartbeat_body_bytes"
    and "carries_report secret body lines"
  shows "api_handle limit wire (as_api_request \<lparr>hq_command = heartbeat_method, hq_path = heartbeat_path, hq_headers = lines\<rparr> body) s =
    catch_io (bind_io (wire document (JStr secret)) (\<lambda>_. return_io (api_response_of 204 [])))
      (\<lambda>e. e = MalformedHeartbeatPayloadError \<or> e = HeartbeatAuthenticationError)
      (\<lambda>e. return_io (api_response_of (if e = MalformedHeartbeatPayloadError then 400 else 401) [])) s"
proof -
  let ?q = "as_api_request \<lparr>hq_command = heartbeat_method, hq_path = heartbeat_path, hq_headers = lines\<rparr> body"
  have media: "content_type_rejection ''application/json'' = None"
    "content_type_rejection ''application/json; charset=utf-8'' = None"
    by code_simp+
  have "list_all plain_line lines" using assms(4) by (simp add: carries_report_def)
  then have "\<not> has_malformed_structure ?q"
    using plain_line_accepted by (auto simp: has_malformed_structure_def as_api_request_def list_all_iff list_ex_iff)
  moreover have "well_formed_headers ?q = lines"
    by (simp add: well_formed_headers_def as_api_request_def comp_def)
  ultimately show ?thesis
    using assms(1-3) media report_line_values(1,2) [OF assms(4)]
    by (auto simp: api_handle_def as_api_request_def Let_def not_less)
qed

section \<open>A concrete report, for the witness\<close>

definition report_usage :: json where
  "report_usage = JObj [(''used'', JInt 1), (''total'', JInt 4), (''percent'', JInt 25)]"

definition report_load :: json where
  "report_load = JObj [(''one'', JInt 1), (''five'', JInt 1), (''fifteen'', JInt 1)]"

definition report_document :: json where
  "report_document =
     JObj [(''node'', JStr ''de''), (''reported_at'', JStr (utc_text 60)), (''uptime_seconds'', JInt 1),
       (''load'', report_load), (''cpu_percent'', JInt 25), (''ram'', report_usage), (''swap'', report_usage),
       (''root_fs'', report_usage), (''root_inodes'', report_usage)]"

definition report_body :: string where
  "report_body = utf8_encode (json_dumps False True report_document)"

lemma small_int_bound:
  assumes "\<bar>k\<bar> < 2 ^ 7"
  shows "\<bar>k\<bar> < float_overflow_bound"
proof -
  have gap: "a < c - b" if "a < d" "d \<le> b" "2 * b \<le> c" for a b c d :: int using that by linarith
  have "(2 :: int) ^ 7 \<le> 2 ^ 970" by (rule power_increasing) simp_all
  moreover have "(2 :: int) * 2 ^ 970 \<le> 2 ^ 1024" unfolding power_Suc [symmetric] by (rule power_increasing) simp_all
  ultimately show ?thesis unfolding float_overflow_bound_def by (rule gap [OF assms])
qed
lemma float_of_small:
  assumes "\<bar>k\<bar> < 2 ^ 7" "round64 (of_int k) = Fin (of_int k)"
  shows "require_number (JInt k) = Inr (Fin (of_int k))"
  using assms by (simp add: require_number_def float_of_int_def catch_res_def small_int_bound)

lemma round_1: "round64 1 = Fin 1" by code_simp

lemma round_4: "round64 4 = Fin 4" by code_simp

lemma round_25: "round64 25 = Fin 25" by code_simp

lemma report_numbers:
  "require_number (JInt 1) = Inr (Fin 1)" "require_number (JInt 4) = Inr (Fin 4)" "require_number (JInt 25) = Inr (Fin 25)"
  using float_of_small [of 1] float_of_small [of 4] float_of_small [of 25] by (simp_all add: round_1 round_4 round_25)

lemma report_load_decodes: "decode_load report_load = Inr \<lparr>la_one = Fin 1, la_five = Fin 1, la_fifteen = Fin 1\<rparr>"
  by (simp add: decode_load_def report_load_def require_mapping_def wire_require_exact_keys_def load_fields_def
      item_def report_numbers validated_def load_average_post_init_def raise_if_def require_non_negative_def
      require_finite_def in_order.simps)

lemma report_usage_decodes: "decode_resource report_usage = Inr \<lparr>ru_used = Fin 1, ru_total = Fin 4, ru_percent = Fin 25\<rparr>"
  by (simp add: decode_resource_def report_usage_def require_mapping_def wire_require_exact_keys_def resource_fields_def
      item_def report_numbers validated_def resource_usage_post_init_def raise_if_def require_non_negative_def
      require_percent_def require_finite_def in_order.simps)

lemma report_decodes:
  "\<exists>t. decode_heartbeat_payload report_document = Inr t \<and> ht_host t = ''de'' \<and> ht_timestamp t = utc_datetime 60"
  by (simp add: decode_heartbeat_payload_def report_document_def require_mapping_def wire_require_exact_keys_def
      top_level_fields_def require_node_def item_def report_numbers report_load_decodes report_usage_decodes sample_time
      sample_node catch_res_def validated_def utc_datetime_def host_telemetry_post_init_def raise_if_def require_non_negative_def
      require_percent_def require_finite_def require_non_empty_def in_order.simps)

lemma report_snapshot: "snapshot_payload (Suc (Suc 0)) report_document = Inr report_document"
  by (simp add: report_document_def report_usage_def report_load_def)

lemma report_writable: "writable 9 report_document"
proof -
  have "digit_count 1 \<le> max_int_digits" "digit_count 4 \<le> max_int_digits" "digit_count 25 \<le> max_int_digits"
    by code_simp+
  then show ?thesis by (simp add: report_document_def report_usage_def report_load_def)
qed

lemma report_json: "decode_strict_json 9 report_body = Inr (Some report_document)"
proof -
  have "ordered False report_document = report_document"
    by (simp add: report_document_def report_usage_def report_load_def member_order_def)
  then have "json_loads strict_json_hooks 9 (json_dumps False True report_document) = Inr report_document"
    using json_loads_dumps [OF report_writable, of strict_json_hooks False True] by simp
  then show ?thesis
    by (simp add: decode_strict_json_def report_body_def del: json_dumps.simps) (simp add: report_document_def)
qed

lemma report_size: "report_body \<noteq> []" "length report_body \<le> max_content_length"
proof -
  have "utf8_encode (json_dumps False True report_document) = json_dumps False True report_document"
    by (rule utf8_encode_ascii) (use ascii_dumps [OF report_writable] in \<open>simp add: ascii_def list_all_iff\<close>)
  then have body: "report_body = json_dumps False True report_document" by (simp add: report_body_def)
  have "digit_count 1 = 1" "digit_count 4 = 1" "digit_count 25 = 2" by code_simp+
  then have "json_length True report_document \<le> 4000"
    using length_utc_text [of 60]
    by (simp add: report_document_def report_usage_def report_load_def length_plain plain_char_def length_utc_string
        length_positive)
  then show "length report_body \<le> max_content_length"
    using length_json_dumps [OF report_writable, of False True]
    by (simp add: body max_content_length_def max_heartbeat_body_bytes_def)
  show "report_body \<noteq> []" by (simp add: body report_document_def)
qed

lemma report_times:
  "serialize_timestamp (utc_datetime 60) = Inr (utc_text 60)" "serialize_timestamp (utc_datetime 61) = Inr (utc_text 61)"
  by (simp_all add: serialize_timestamp_def require_aware_timestamp_def aware_def utc_datetime_def instant_def astimezone_utc_def utc_text_def
      max_wall_def us_per_day_def)

lemma report_ingested:
  assumes "ht_host t = ''de''" "ht_timestamp t = utc_datetime 60"
  shows "\<exists>receipt db'. ingest sample_config (\<lambda>w. (Inr (PyDatetime (utc_datetime 61)), w)) (\<lambda>w. (Inr (), w)) t (empty_db, w) =
    (Inr receipt, db', w)"
proof -
  let ?r = "\<lparr>hr_telemetry = t, hr_received_at = utc_datetime 61\<rparr>"
  obtain row where row: "row_of_record ?r = Inr row"
    using assms by (simp add: row_of_record_def report_times)
  have known: "config_host (sc_hosts sample_config) ''de'' \<noteq> None" by (simp add: sample_config_def)
  have checked: "heartbeat_record_post_init ?r = Inr ()"
    using assms sample_node
    by (simp add: heartbeat_record_post_init_def require_valid_node_def require_aware_timestamp_def aware_def
        utc_datetime_def raise_if_def in_order.simps)
  show ?thesis
    using known checked row assms
    by (simp add: ingest_def bind_io_split aware_clock_result_iff insert_heartbeat_def insert_row_def empty_db_def validated_def)
qed


text \<open>The lines \<open>curl\<close> sends for the reporter script\<close>

definition curl_lines :: "string \<Rightarrow> string \<Rightarrow> (string \<times> string) list" where
  "curl_lines secret body =
     [(''Host'', ''sentinel.example''), (''User-Agent'', ''curl/8.5.0''), (''Accept'', ''*/*''),
      (''Content-Type'', ''application/json''), (''X-Sentinel-Token'', secret),
      (''Content-Length'', nat_text (length body))]"

lemma curl_line_names:
  "lower ''Host'' = ''host''" "lower ''User-Agent'' = ''user-agent''" "lower ''Accept'' = ''accept''"
  "lower ''Content-Type'' = ''content-type''" "lower ''X-Sentinel-Token'' = ''x-sentinel-token''"
  by code_simp+

lemma curl_carries_report: "carries_report ''k'' body (curl_lines ''k'' body)"
proof -
  have "48 \<le> code c \<and> code c \<le> 57" if "c \<in> set (nat_text (length body))" for c
    using digits_all [of "digit_count (length body)" "length body"] that
    by (auto simp: nat_text_def is_digit_def digit_val_def code_def Let_def split: if_splits)
  then have "list_all (\<lambda>c. code c = 9 \<or> 32 \<le> code c \<and> code c \<noteq> 127) (nat_text (length body))"
    by (fastforce simp: list_all_iff)
  then have "list_all plain_line (curl_lines ''k'' body)"
    by (simp add: curl_lines_def plain_line_def code_def)
  then show ?thesis
    by (simp add: carries_report_def line_values_def curl_lines_def curl_line_names lower_names)
qed

section \<open>Properties\<close>

text \<open>C6: a well-formed report is accepted: a POST on the heartbeat route whose header lines carry the
  report, whatever other lines the client adds, whose body decodes to telemetry of a configured node,
  with that node's own token and the exact length, is answered 204 whenever the
  telemetry can be ingested, and the one row that was added is that node's.\<close>

theorem owners_report_is_accepted:
  assumes "node_credentials tokens = Inr creds" "token_for creds (ht_host t) = Some secret"
    and "carries_report secret body lines" "config_host (sc_hosts config) (ht_host t) \<noteq> None"
    and "body \<noteq> []" "length body \<le> max_content_length" "read (length body) w = (Inr body, w1)"
    and "decode_strict_json limit body = Inr (Some document)" "decode_heartbeat_payload document = Inr t"
    and "snapshot_payload frames document = Inr snapshot"
    and "ingest config clock execute t (db, w1) = (Inr receipt, db', w2)"
  shows "\<exists>em row. em_status em = 204 \<and> db_rows db' = db_rows db @ [row] \<and> row_node row = ht_host t \<and>
    dispatch (\<lambda>n. on_snd (read n)) (heartbeat_endpoint config creds clock execute limit frames) (\<lambda>em. on_snd (put em))
      \<lparr>hq_command = heartbeat_method, hq_path = heartbeat_path, hq_headers = lines\<rparr> (db, w) =
      (fst (put em w2), db', snd (put em w2))"
proof -
  let ?q = "\<lparr>hq_command = heartbeat_method, hq_path = heartbeat_path, hq_headers = lines\<rparr>"
  have "resolve_body (\<lambda>n. on_snd (read n)) ?q (db, w) = (Inr (Inr body), db, w1)"
    using assms(5-7)
    by (simp add: resolve_body_def is_heartbeat_post_def report_line_values [OF assms(3)] report_length [OF assms(3)] bind_io_split)
  moreover have "wire_handle config creds (ingest config clock execute) frames document (JStr secret) (db, w1) =
      (Inr receipt, db', w2)"
    unfolding wire_accepts [OF assms(1,2,4,10,9)] by (rule assms(11))
  then have "heartbeat_endpoint config creds clock execute limit frames (as_api_request ?q body) (db, w1) =
      (Inr (api_response_of 204 []), db', w2)"
    unfolding heartbeat_endpoint_def api_accepts [OF assms(8,5,6) [unfolded max_content_length_def] assms(3)]
    by (simp add: catch_io_split bind_io_split)
  ultimately have "dispatch (\<lambda>n. on_snd (read n)) (heartbeat_endpoint config creds clock execute limit frames)
      (\<lambda>em. on_snd (put em)) ?q (db, w) =
    (fst (put (emit_response (api_response_of 204 [])) w2), db', snd (put (emit_response (api_response_of 204 [])) w2))"
    by (simp add: dispatch_def bind_io_split catch_io_split)
  moreover have "em_status (emit_response (api_response_of 204 [])) = 204"
    by (simp add: emit_response_def api_response_of_def Let_def)
  moreover obtain row where "db_rows db' = db_rows db @ [row]" "row_node row = ht_host t"
    using ingest_effect [OF assms(11)] by auto
  ultimately show ?thesis by blast
qed

theorem owners_report_is_accepted_witness:
  "\<exists>em w2 db' row. em_status em = 204 \<and> db_rows db' = [row] \<and> row_node row = ''de'' \<and>
    dispatch (\<lambda>n. on_snd (\<lambda>w. (Inr report_body, w)))
      (heartbeat_endpoint sample_config [(''de'', ''k'')] (\<lambda>w. (Inr (PyDatetime (utc_datetime 61)), w))
        (\<lambda>w. (Inr (), w)) 9 (Suc (Suc 0)))
      (\<lambda>em. on_snd (\<lambda>log. (Inr (), em # log)))
      \<lparr>hq_command = heartbeat_method, hq_path = heartbeat_path, hq_headers = curl_lines ''k'' report_body\<rparr>
      (empty_db, []) = (Inr (), db', em # w2)"
proof -
  obtain t where t: "decode_heartbeat_payload report_document = Inr t" "ht_host t = ''de''" "ht_timestamp t = utc_datetime 60"
    using report_decodes by blast
  obtain receipt db' where run: "ingest sample_config (\<lambda>w. (Inr (PyDatetime (utc_datetime 61)), w)) (\<lambda>w. (Inr (), w)) t
      (empty_db, [] :: emission list) = (Inr receipt, db', [])"
    using report_ingested [OF t(2,3), of "[] :: emission list"] by blast
  have creds: "node_credentials (Some [(JStr ''de'', JStr ''k'')]) = Inr [(''de'', ''k'')]"
    "token_for [(''de'', ''k'')] ''de'' = Some ''k''"
    "config_host (sc_hosts sample_config) ''de'' \<noteq> None"
    by code_simp+
  then have own: "token_for [(''de'', ''k'')] (ht_host t) = Some ''k''" "config_host (sc_hosts sample_config) (ht_host t) \<noteq> None"
    by (simp_all add: t(2))
  show ?thesis
    using owners_report_is_accepted [where read = "\<lambda>n w. (Inr report_body, w)" and put = "\<lambda>em log. (Inr (), em # log)",
        OF creds(1) own(1) curl_carries_report own(2) report_size refl report_json t(1) report_snapshot run] t(2)
    by (auto simp: empty_db_def)
qed

end
