(* ===== verification/Bot_Api.thy ===== *)
theory Bot_Api
  imports Py_Http Py_Json Io_Hoare
begin

text \<open>
  One bounded exchange with the Telegram Bot API, generic in the error class that reports its
  failures.  The central sender and the dead-man sender are separate modules with the same
  exchange; what is proved here holds for both.
\<close>

definition default_hooks :: json_hooks where
  "default_hooks = \<lparr>on_duplicate = None, on_constant = None\<rparr>"

definition response_limit :: nat where "response_limit = 8192"

text \<open>The verdict on a status and a bounded body: \<open>Some\<close> failure, or \<open>None\<close> for delivered.\<close>

definition classify_exchange :: "exn \<Rightarrow> nat \<Rightarrow> int \<Rightarrow> string \<Rightarrow> exn option res" where
  "classify_exchange err limit status raw =
     (if status \<noteq> 200 then Inr (Some err)
      else if response_limit < length raw then Inr (Some err)
      else
        bind_res
          (catch_res (map_sum id Some (bind_res (utf8_decode raw) (json_loads default_hooks limit)))
            is_value_error (\<lambda>_. Inr None)) (\<lambda>document.
        case document of
          Some (JObj ps) \<Rightarrow> Inr (if map_of ps ''ok'' = Some (JBool True) then None else Some err)
        | _ \<Rightarrow> Inr (Some err)))"

definition close_exchange :: "exn \<Rightarrow> 'w http_response \<Rightarrow> exn option \<Rightarrow> ('w, exn option) io" where
  "close_exchange err r failure =
     catch_io (bind_io (rs_close r) (\<lambda>_. return_io failure)) transport_error
       (\<lambda>_. return_io (case failure of None \<Rightarrow> Some err | Some e \<Rightarrow> Some e))"

definition raise_failure :: "exn option \<Rightarrow> ('w, unit) io" where
  "raise_failure failure = (case failure of None \<Rightarrow> return_io () | Some e \<Rightarrow> lift_io (Inl e))"

definition exchange :: "exn \<Rightarrow> nat \<Rightarrow> 'w opener \<Rightarrow> http_request \<Rightarrow> pynum \<Rightarrow> ('w, unit) io" where
  "exchange err limit opener request timeout =
     bind_io (catch_io (opener request timeout) transport_error (\<lambda>_. lift_io (Inl err))) (\<lambda>opened.
     case opened of
       RaisedHttpError _ r \<Rightarrow> bind_io (close_exchange err r (Some err)) raise_failure
     | Answered r \<Rightarrow>
         bind_io
           (catch_io
             (bind_io (rs_status r) (\<lambda>status.
              bind_io (rs_read r (response_limit + 1)) (\<lambda>raw. return_io (Inr (status, raw)))))
             transport_error (\<lambda>_. return_io (Inl err))) (\<lambda>read.
         bind_io
           (case read of
              Inl e \<Rightarrow> return_io (Some e)
            | Inr (status, raw) \<Rightarrow> lift_io (classify_exchange err limit status raw)) (\<lambda>failure.
         bind_io (close_exchange err r failure) raise_failure)))"

section \<open>What a returned exchange means\<close>

definition parsed :: "nat \<Rightarrow> string \<Rightarrow> json res" where
  "parsed limit raw = bind_res (utf8_decode raw) (json_loads default_hooks limit)"

definition confirms :: "nat \<Rightarrow> int \<Rightarrow> string \<Rightarrow> bool" where
  "confirms limit status raw \<longleftrightarrow> status = 200 \<and> length raw \<le> response_limit \<and>
     (case parsed limit raw of
        Inr (JObj ps) \<Rightarrow> map_of ps ''ok'' = Some (JBool True) | _ \<Rightarrow> False)"

lemma classify_eq:
  "classify_exchange err limit status raw =
    (if confirms limit status raw then Inr None
     else if status = 200 \<and> length raw \<le> response_limit then
       (case parsed limit raw of
          Inl e \<Rightarrow> if is_value_error e then Inr (Some err) else Inl e | Inr _ \<Rightarrow> Inr (Some err))
     else Inr (Some err))"
proof (cases "parsed limit raw")
  case (Inl e)
  then show ?thesis
    unfolding classify_exchange_def confirms_def parsed_def [symmetric] by (simp add: catch_res_def)
next
  case (Inr v)
  then show ?thesis
    unfolding classify_exchange_def confirms_def parsed_def [symmetric]
    by (cases v) (simp_all add: catch_res_def)
qed

lemma classify_None: "classify_exchange err limit status raw = Inr None \<longleftrightarrow> confirms limit status raw"
  by (auto simp: classify_eq split: sum.splits)

lemma classify_Some: "classify_exchange err limit status raw = Inr (Some e) \<Longrightarrow> e = err"
  by (auto simp: classify_eq split: if_splits sum.splits)

lemma parsed_errors:
  assumes "parsed limit raw = Inl e"
  shows "is_value_error e \<or> e = RecursionError \<or> e = outside_model"
proof (cases "utf8_decode raw")
  case (Inl x)
  then show ?thesis using assms utf8_decode_errors [OF Inl] by (auto simp: parsed_def is_value_error_def)
next
  case (Inr t)
  then have "json_loads default_hooks limit t = Inl e" using assms by (simp add: parsed_def)
  from json_loads_errors [OF this] show ?thesis by (auto simp: json_error_def default_hooks_def is_value_error_def)
qed

lemma classify_errors:
  "classify_exchange err limit status raw = Inl e \<Longrightarrow> e = RecursionError \<or> e = outside_model"
  using parsed_errors [of limit raw] by (auto simp: classify_eq split: if_splits sum.splits)

definition delivered :: "nat \<Rightarrow> 'w opened res \<times> 'w \<Rightarrow> bool" where
  "delivered limit opened \<longleftrightarrow>
     (case opened of
        (Inr (Answered r), w) \<Rightarrow>
          (let (status, w1) = rs_status r w; (raw, w2) = rs_read r (response_limit + 1) w1 in
           (case (status, raw) of (Inr s, Inr b) \<Rightarrow> confirms limit s b | _ \<Rightarrow> False) \<and>
           fst (rs_close r w2) = Inr ())
      | _ \<Rightarrow> False)"

text \<open>
  What an exchange raises when it does not return: an exception of the transport's operations that is
  none of the transport's own, or of the reading of the body, escapes; everything else is \<open>err\<close>.
\<close>

definition foreign :: "'a res \<Rightarrow> exn option" where
  "foreign r = (case r of Inl e \<Rightarrow> if transport_error e then None else Some e | Inr _ \<Rightarrow> None)"

definition unreadable :: "nat \<Rightarrow> int \<Rightarrow> string \<Rightarrow> exn option" where
  "unreadable limit status raw =
     (if status = 200 \<and> length raw \<le> response_limit
      then case parsed limit raw of Inl e \<Rightarrow> if is_value_error e then None else Some e | Inr _ \<Rightarrow> None
      else None)"

definition escaping :: "nat \<Rightarrow> 'w opened res \<times> 'w \<Rightarrow> exn option" where
  "escaping limit opened =
     (case opened of
        (Inl e, w) \<Rightarrow> foreign (Inl e :: unit res)
      | (Inr (RaisedHttpError c r), w) \<Rightarrow> foreign (fst (rs_close r w))
      | (Inr (Answered r), w) \<Rightarrow>
          (let (status, w1) = rs_status r w; (raw, w2) = rs_read r (response_limit + 1) w1 in
           case status of
             Inl e \<Rightarrow> if transport_error e then foreign (fst (rs_close r w1)) else Some e
           | Inr s \<Rightarrow>
               (case raw of
                  Inl e \<Rightarrow> if transport_error e then foreign (fst (rs_close r w2)) else Some e
                | Inr b \<Rightarrow>
                    (case unreadable limit s b of
                       Some e \<Rightarrow> Some e
                     | None \<Rightarrow> foreign (fst (rs_close r w2))))))"

lemma unreadable_errors: "unreadable limit status raw = Some e \<Longrightarrow> e = RecursionError \<or> e = outside_model"
  using parsed_errors [of limit raw] by (auto simp: unreadable_def split: if_splits sum.splits)

lemma classify_cases:
  "classify_exchange err limit status raw =
    (case unreadable limit status raw of
       Some e \<Rightarrow> Inl e | None \<Rightarrow> Inr (if confirms limit status raw then None else Some err))"
  by (auto simp: classify_eq unreadable_def confirms_def split: sum.splits)

lemma confirmed_readable: "confirms limit status raw \<Longrightarrow> unreadable limit status raw = None"
  by (auto simp: unreadable_def confirms_def split: sum.splits)

lemma exchange_outcome:
  "fst (exchange err limit opener request timeout w) =
    (if delivered limit (opener request timeout w) then Inr ()
     else Inl (case escaping limit (opener request timeout w) of Some e \<Rightarrow> e | None \<Rightarrow> err))"
proof -
  obtain a w' where a: "opener request timeout w = (a, w')" by (rule prod.exhaust)
  show ?thesis
  proof (cases a)
    case (Inl e)
    then show ?thesis
      using a by (simp add: exchange_def delivered_def escaping_def foreign_def bind_io_split catch_io_split)
  next
    case (Inr x)
    show ?thesis
    proof (cases x)
      case (RaisedHttpError c r)
      then show ?thesis
        using a Inr
        by (auto simp: exchange_def delivered_def escaping_def bind_io_split catch_io_split close_exchange_def
            raise_failure_def foreign_def split: sum.splits option.splits)
    next
      case (Answered r)
      obtain s w1 where s: "rs_status r w' = (s, w1)" by (rule prod.exhaust)
      obtain b w2 where b: "rs_read r (Suc response_limit) w1 = (b, w2)" by (rule prod.exhaust)
      obtain c w3 where c: "rs_close r w2 = (c, w3)" by (rule prod.exhaust)
      obtain c' w4 where c': "rs_close r w1 = (c', w4)" by (rule prod.exhaust)
      show ?thesis
        using a Inr Answered s b c c' confirmed_readable
        by (cases s; cases b; cases c; cases c')
          (auto simp: exchange_def delivered_def escaping_def bind_io_split catch_io_split classify_cases
            close_exchange_def raise_failure_def foreign_def split: option.splits)
    qed
  qed
qed

lemma exchange_returns:
  "fst (exchange err limit opener request timeout w) = Inr () \<longleftrightarrow>
    delivered limit (opener request timeout w)"
  by (simp add: exchange_outcome)

text \<open>No failure of the transport escapes an exchange other than as \<open>err\<close>.\<close>

lemma escaping_foreign:
  "escaping limit opened = Some e \<Longrightarrow> e = RecursionError \<or> e = outside_model \<or> \<not> transport_error e"
  by (auto simp: escaping_def foreign_def Let_def dest: unreadable_errors
      split: prod.splits sum.splits opened.splits if_splits option.splits)

definition outward :: "exn \<Rightarrow> exn \<Rightarrow> bool" where
  "outward err e \<longleftrightarrow> e = err \<or> e = RecursionError \<or> e = outside_model \<or> \<not> transport_error e"

lemma exchange_errors: "fst (exchange err limit opener request timeout w) = Inl e \<Longrightarrow> outward err e"
  using escaping_foreign [of limit "opener request timeout w"]
  by (auto simp: exchange_outcome outward_def split: if_splits option.splits)

text \<open>A body nested beyond the interpreter's limit is not a value error: it escapes.\<close>

lemma deep_value:
  "d < n \<Longrightarrow> 2 * d < fuel \<Longrightarrow> json_value h fuel d (replicate n (CHR ''['')) = Inl RecursionError"
proof (induction d arbitrary: n fuel)
  case 0
  then show ?case by (cases n; cases fuel) simp_all
next
  case (Suc d)
  obtain m f where m: "n = Suc (Suc m)" "fuel = Suc (Suc f)" "2 * d < f" "d < Suc m"
    using Suc.prems by (cases n; cases "n - 1"; cases fuel; cases "fuel - 1") auto
  have "json_value h f d (replicate (Suc m) (CHR ''['')) = Inl RecursionError"
    using Suc.IH m(3,4) by blast
  then show ?case unfolding m by (simp add: skip_space_def json_space_def)
qed

lemma deep_body:
  assumes "limit < n" "n \<le> response_limit"
  shows "classify_exchange err limit 200 (replicate n (CHR ''['')) = Inl RecursionError"
proof -
  let ?s = "replicate n (CHR ''['')"
  have "utf8_encode ?s = ?s" by (rule utf8_encode_ascii) (simp add: list_all_iff)
  then have "utf8_decode ?s = Inr ?s" by (metis utf8_decode_encode)
  moreover have "skip_space ?s = ?s" by (cases n) (simp_all add: skip_space_def json_space_def)
  ultimately have "parsed limit ?s = Inl RecursionError"
    using deep_value [of limit n "json_fuel ?s"] assms(1) by (simp add: parsed_def json_loads_def json_fuel_def)
  then show ?thesis using assms(2) by (simp add: classify_eq confirms_def is_value_error_def)
qed

end
