(* ===== verification/Telegram.thy ===== *)
theory Telegram
  imports Bot_Api Incidents Py_Iso
begin

text \<open>
  \<open>telegram.py\<close>: the central Telegram notifier: one incident, one message, one bounded attempt.
  The definitions follow the module; the lemma \<open>tg_send_exchange\<close> identifies its exchange with the
  generic one of theory \<open>Bot_Api\<close>.
\<close>

section \<open>Settings\<close>

definition tg_token_alphabet :: "string" where
  "tg_token_alphabet = ''abcdefghijklmnopqrstuvwxyzABCDEFGHIJKLMNOPQRSTUVWXYZ0123456789:-_''"

definition tg_require_positive :: "pynum \<Rightarrow> unit res" where
  "tg_require_positive v =
     bind_res (math_isfinite v) (\<lambda>finite.
       in_order [raise_if (\<not> finite) ValueError, raise_if (num_le v (PInt 0)) ValueError])"

definition tg_require_bot_token :: "string \<Rightarrow> unit res" where
  "tg_require_bot_token token =
     in_order [raise_if (token = []) ValueError,
               raise_if (\<not> set token \<subseteq> set tg_token_alphabet) ValueError]"

definition tg_require_chat_id :: "int \<Rightarrow> unit res" where
  "tg_require_chat_id chat_id = raise_if (chat_id = 0) ValueError"

definition tg_require_message_thread_id :: "int option \<Rightarrow> unit res" where
  "tg_require_message_thread_id thread_id =
     (case thread_id of None \<Rightarrow> Inr () | Some i \<Rightarrow> raise_if (i < 1) ValueError)"

record telegram_settings =
  ts_bot_token :: string
  ts_chat_id :: int
  ts_message_thread_id :: "int option"
  ts_timeout_seconds :: pynum

definition telegram_settings_post_init :: "telegram_settings \<Rightarrow> unit res" where
  "telegram_settings_post_init s =
     in_order [tg_require_bot_token (ts_bot_token s), tg_require_chat_id (ts_chat_id s),
               tg_require_message_thread_id (ts_message_thread_id s), tg_require_positive (ts_timeout_seconds s)]"

section \<open>The production opener\<close>

text \<open>\<open>_NoRedirectHandler\<close> and \<open>_StdlibHttpsOpener\<close>\<close>

definition tg_redirect_request :: "'w redirect_handler" where
  "tg_redirect_request req fp status newurl = RaiseHttpError status fp"

definition tg_stdlib_https_opener :: "'w urllib \<Rightarrow> 'w opener" where
  "tg_stdlib_https_opener ul = director_open ul tg_redirect_request"

record 'w telegram_sender =
  tg_sender_settings :: telegram_settings
  tg_sender_opener :: "'w opener"

definition telegram_sender_init :: "'w urllib \<Rightarrow> telegram_settings \<Rightarrow> 'w opener option \<Rightarrow> 'w telegram_sender" where
  "telegram_sender_init ul settings opener =
     \<lparr>tg_sender_settings = settings,
      tg_sender_opener = (case opener of Some given \<Rightarrow> given | None \<Rightarrow> tg_stdlib_https_opener ul)\<rparr>"

section \<open>Rendering\<close>

fun host_state_value :: "host_state \<Rightarrow> string" where
  "host_state_value HEALTHY = ''healthy''"
| "host_state_value DEGRADED = ''degraded''"
| "host_state_value DOWN = ''down''"

definition render_incident_message :: "incident \<Rightarrow> string" where
  "render_incident_message i =
     join_with [CHR 0x0A]
       [''Hermes Sentinel'',
        (case in_kind i of DownIncident \<Rightarrow> ''DOWN'' | RecoveredIncident \<Rightarrow> ''RECOVERED''),
        ''Host: '' @ incident_host i,
        ''State: '' @ host_state_value (incident_from_state i) @ '' -> '' @ host_state_value (incident_to_state i),
        ''At: '' @ isoformat (incident_at i)]"


definition tg_render_json_body :: "string \<Rightarrow> telegram_settings \<Rightarrow> string res" where
  "tg_render_json_body message s =
     (let document =
        [(''chat_id'', JInt (ts_chat_id s)), (''text'', JStr message)] @
        (case ts_message_thread_id s of None \<Rightarrow> [] | Some i \<Rightarrow> [(''message_thread_id'', JInt i)])
      in bind_res (json_dumps_checked False False (JObj document)) (\<lambda>t. Inr (utf8_encode t)))"

definition tg_api_origin :: string where "tg_api_origin = ''https://api.telegram.org''"

definition tg_api_method :: string where "tg_api_method = ''sendMessage''"

definition tg_build_request :: "telegram_settings \<Rightarrow> string \<Rightarrow> http_request res" where
  "tg_build_request s message =
     bind_res (tg_render_json_body message s) (\<lambda>body.
       Inr \<lparr>rq_url = tg_api_origin @ ''/bot'' @ ts_bot_token s @ ''/'' @ tg_api_method,
            rq_method = ''POST'', rq_data = Some body, rq_headers = [(''Content-Type'', ''application/json'')]\<rparr>)"

section \<open>The exchange\<close>

definition tg_response_body_limit :: nat where "tg_response_body_limit = 8192"

definition tg_close_bounded_response :: "'w http_response \<Rightarrow> exn option \<Rightarrow> ('w, exn option) io" where
  "tg_close_bounded_response r failure =
     catch_io (bind_io (rs_close r) (\<lambda>_. return_io failure)) transport_error
       (\<lambda>_. return_io (case failure of None \<Rightarrow> Some TelegramDeliveryError | Some e \<Rightarrow> Some e))"

text \<open>
  A JSON text with characters beyond U+00FF is outside the model: this raises \<open>outside_model\<close>, where the
  code decides by the member \<open>ok\<close> as for any other text.
\<close>

definition tg_classify_bounded_response :: "nat \<Rightarrow> int \<Rightarrow> string \<Rightarrow> exn option res" where
  "tg_classify_bounded_response limit status raw =
     (if status \<noteq> 200 then Inr (Some TelegramDeliveryError)
      else if tg_response_body_limit < length raw then Inr (Some TelegramDeliveryError)
      else
        bind_res
          (catch_res (map_sum id Some (bind_res (utf8_decode raw) (json_loads default_hooks limit)))
            is_value_error (\<lambda>_. Inr None)) (\<lambda>document.
        case document of
          Some (JObj ps) \<Rightarrow> Inr (if map_of ps ''ok'' = Some (JBool True) then None else Some TelegramDeliveryError)
        | _ \<Rightarrow> Inr (Some TelegramDeliveryError)))"

definition tg_send :: "nat \<Rightarrow> 'w opener \<Rightarrow> telegram_settings \<Rightarrow> incident \<Rightarrow> ('w, unit) io" where
  "tg_send limit opener s subject =
     bind_io (lift_io (tg_build_request s (render_incident_message subject))) (\<lambda>request.
     bind_io (catch_io (opener request (ts_timeout_seconds s)) transport_error
       (\<lambda>_. lift_io (Inl TelegramDeliveryError))) (\<lambda>opened.
     case opened of
       RaisedHttpError _ r \<Rightarrow>
         bind_io (tg_close_bounded_response r (Some TelegramDeliveryError)) raise_failure
     | Answered r \<Rightarrow>
         bind_io
           (catch_io
             (bind_io (rs_status r) (\<lambda>status.
              bind_io (rs_read r (tg_response_body_limit + 1)) (\<lambda>raw. return_io (Inr (status, raw)))))
             transport_error (\<lambda>_. return_io (Inl TelegramDeliveryError))) (\<lambda>read.
         bind_io
           (case read of
              Inl e \<Rightarrow> return_io (Some e)
            | Inr (status, raw) \<Rightarrow> lift_io (tg_classify_bounded_response limit status raw)) (\<lambda>failure.
         bind_io (tg_close_bounded_response r failure) raise_failure))))"

section \<open>Facts\<close>

lemma tg_exchange_parts:
  "tg_response_body_limit = response_limit"
  "tg_close_bounded_response = close_exchange TelegramDeliveryError"
  "tg_classify_bounded_response = classify_exchange TelegramDeliveryError"
  by (simp_all add: tg_response_body_limit_def response_limit_def tg_close_bounded_response_def
      close_exchange_def tg_classify_bounded_response_def classify_exchange_def fun_eq_iff)

lemma tg_send_exchange:
  "tg_send limit opener s subject =
    bind_io (lift_io (tg_build_request s (render_incident_message subject)))
      (\<lambda>request. exchange TelegramDeliveryError limit opener request (ts_timeout_seconds s))"
  unfolding tg_send_def exchange_def tg_exchange_parts ..

text \<open>The credential goes into the path of the fixed origin and nowhere else.\<close>

lemma tg_request_url:
  "tg_build_request s message = Inr request \<Longrightarrow>
    rq_url request = ''https://api.telegram.org/bot'' @ ts_bot_token s @ ''/sendMessage''"
  by (auto simp: tg_build_request_def tg_api_origin_def tg_api_method_def)

lemma tg_body_independent_of_token:
  "tg_render_json_body message (s\<lparr>ts_bot_token := t\<rparr>) = tg_render_json_body message s"
  by (simp add: tg_render_json_body_def)

definition tg_sample :: telegram_settings where
  "tg_sample = \<lparr>ts_bot_token = ''t'', ts_chat_id = 1, ts_message_thread_id = None, ts_timeout_seconds = PInt 10\<rparr>"

lemma tg_sample_builds: "\<exists>request. tg_build_request tg_sample message = Inr request"
  by (simp add: tg_sample_def tg_build_request_def tg_render_json_body_def json_dumps_checked_def
      digit_count.simps max_int_digits_def)

section \<open>Properties\<close>

text \<open>C29: a delivery is reported exactly when it was confirmed, and every other end is known: for a
  request that can be built, \<open>send\<close> returns exactly when the one opening of the connection was answered
  with status 200, a body of at most 8192 bytes that is a JSON object whose \<open>ok\<close> is true, and the
  response was closed without error; every other end is \<open>TelegramDeliveryError\<close>, except that an
  exception of an operation that is not the transport's own escapes as it is, and so does
  \<open>RecursionError\<close> of a body nested too deeply.  No failure of the transport escapes.  A body with
  characters beyond U+00FF has no verdict here: the model ends in \<open>outside_model\<close>, where the code may
  well accept it.\<close>

theorem tg_delivery_confirmed:
  assumes "tg_build_request s (render_incident_message subject) = Inr request"
  shows "fst (tg_send limit opener s subject w) =
      (if delivered limit (opener request (ts_timeout_seconds s) w) then Inr ()
       else Inl (case escaping limit (opener request (ts_timeout_seconds s) w) of
         Some e \<Rightarrow> e | None \<Rightarrow> TelegramDeliveryError)) \<and>
    (\<forall>e. fst (tg_send limit opener s subject w) = Inl e \<and> transport_error e \<longrightarrow> False)"
  using exchange_outcome [of TelegramDeliveryError limit opener request "ts_timeout_seconds s" w]
    exchange_errors [of TelegramDeliveryError limit opener request "ts_timeout_seconds s" w]
  unfolding tg_send_exchange assms bind_lift
  by (auto simp: outward_def transport_error_def is_os_error_def outside_model_def)

definition sample_incident :: incident where
  "sample_incident = \<lparr>in_kind = DownIncident, in_transition = \<lparr>tr_host = ''h'', tr_from = DEGRADED, tr_to = DOWN,
     tr_at = utc_datetime 0\<rparr>\<rparr>"

text \<open>An answer that confirms, with a given result of closing it\<close>

definition confirming :: "unit res \<Rightarrow> unit opener" where
  "confirming ending request timeout w =
     (Inr (Answered \<lparr>rs_status = (\<lambda>w. (Inr 200, w)), rs_get_all = (\<lambda>_ w. (Inr None, w)),
        rs_read = (\<lambda>n w. (Inr (json_dumps False True (JObj [(''ok'', JBool True)])), w)),
        rs_close = (\<lambda>w. (ending, w))\<rparr>), w)"

lemma confirming_confirms: "confirms 900 200 (json_dumps False True (JObj [(''ok'', JBool True)]))"
proof -
  let ?v = "JObj [(''ok'', JBool True)]"
  have "writable 900 ?v" by simp
  moreover have "utf8_decode (json_dumps False True ?v) = Inr (json_dumps False True ?v)"
  proof -
    have "ascii (json_dumps False True ?v)" by (rule ascii_dumps [of 900]) simp
    then have "utf8_encode (json_dumps False True ?v) = json_dumps False True ?v"
      by (intro utf8_encode_ascii) (simp add: ascii_def)
    then show ?thesis by (metis utf8_decode_encode)
  qed
  moreover have "length (json_dumps False True ?v) \<le> response_limit" by code_simp
  ultimately show ?thesis
    using json_loads_dumps [of 900 ?v default_hooks False True]
    by (simp add: confirms_def parsed_def member_order_def del: json_dumps.simps)
qed

lemma tg_delivery_confirmed_witness:
  "fst (tg_send 900 (confirming (Inr ())) tg_sample sample_incident ()) = Inr () \<and>
   fst (tg_send 900 (confirming (Inl TimeoutError)) tg_sample sample_incident ()) = Inl TelegramDeliveryError \<and>
   fst (tg_send 900 (confirming (Inl (ForeignBaseException 2))) tg_sample sample_incident ()) = Inl (ForeignBaseException 2) \<and>
   fst (tg_send 900 (\<lambda>_ _ w. (Inl TimeoutError, w)) tg_sample sample_incident ()) = Inl TelegramDeliveryError"
proof -
  obtain request where r: "tg_build_request tg_sample (render_incident_message sample_incident) = Inr request"
    using tg_sample_builds by blast
  have readable: "unreadable 900 200 (json_dumps False True (JObj [(''ok'', JBool True)])) = None"
    by (rule confirmed_readable [OF confirming_confirms])
  show ?thesis
    using tg_delivery_confirmed [OF r, of 900 "confirming (Inr ())" "()"]
      tg_delivery_confirmed [OF r, of 900 "confirming (Inl TimeoutError)" "()"]
      tg_delivery_confirmed [OF r, of 900 "confirming (Inl (ForeignBaseException 2))" "()"]
      tg_delivery_confirmed [OF r, of 900 "\<lambda>_ _ w. (Inl TimeoutError, w)" "()"]
    by (simp add: delivered_def escaping_def confirming_def confirming_confirms readable foreign_def transport_error_def
        is_os_error_def del: json_dumps.simps)
qed

end
