(* ===== verification/Deadman_Telegram.thy ===== *)
theory Deadman_Telegram
  imports Bot_Api Deadman
begin

text \<open>
  \<open>deadman_telegram.py\<close>: the delivery of one dead-man intent with its own credential.
  The definitions follow the module; the lemma \<open>dmt_send_exchange\<close> identifies its exchange with the
  generic one of theory \<open>Bot_Api\<close>.
\<close>

section \<open>Settings\<close>

definition dmt_token_alphabet :: "string" where
  "dmt_token_alphabet = ''abcdefghijklmnopqrstuvwxyzABCDEFGHIJKLMNOPQRSTUVWXYZ0123456789:-_''"

definition dmt_require_positive :: "pynum \<Rightarrow> unit res" where
  "dmt_require_positive v =
     bind_res (math_isfinite v) (\<lambda>finite.
       in_order [raise_if (\<not> finite) ValueError, raise_if (num_le v (PInt 0)) ValueError])"

definition dmt_require_bot_token :: "string \<Rightarrow> unit res" where
  "dmt_require_bot_token token =
     in_order [raise_if (token = []) ValueError,
               raise_if (\<not> set token \<subseteq> set dmt_token_alphabet) ValueError]"

definition dmt_require_chat_id :: "int \<Rightarrow> unit res" where
  "dmt_require_chat_id chat_id = raise_if (chat_id = 0) ValueError"

definition dmt_require_message_thread_id :: "int option \<Rightarrow> unit res" where
  "dmt_require_message_thread_id thread_id =
     (case thread_id of None \<Rightarrow> Inr () | Some i \<Rightarrow> raise_if (i < 1) ValueError)"

record dm_telegram_settings =
  dts_bot_token :: string
  dts_chat_id :: int
  dts_message_thread_id :: "int option"
  dts_timeout_seconds :: pynum

definition dm_telegram_settings_post_init :: "dm_telegram_settings \<Rightarrow> unit res" where
  "dm_telegram_settings_post_init s =
     in_order [dmt_require_bot_token (dts_bot_token s), dmt_require_chat_id (dts_chat_id s),
               dmt_require_message_thread_id (dts_message_thread_id s), dmt_require_positive (dts_timeout_seconds s)]"

section \<open>The production opener\<close>

text \<open>\<open>_NoRedirectHandler\<close> and \<open>_StdlibHttpsOpener\<close>\<close>

definition dmt_redirect_request :: "'w redirect_handler" where
  "dmt_redirect_request req fp status newurl = RaiseHttpError status fp"

definition dmt_stdlib_https_opener :: "'w urllib \<Rightarrow> 'w opener" where
  "dmt_stdlib_https_opener ul = director_open ul dmt_redirect_request"

record 'w dm_telegram_sender =
  dmt_sender_settings :: dm_telegram_settings
  dmt_sender_opener :: "'w opener"

definition dm_telegram_sender_init :: "'w urllib \<Rightarrow> dm_telegram_settings \<Rightarrow> 'w opener option \<Rightarrow> 'w dm_telegram_sender" where
  "dm_telegram_sender_init ul settings opener =
     \<lparr>dmt_sender_settings = settings,
      dmt_sender_opener = (case opener of Some given \<Rightarrow> given | None \<Rightarrow> dmt_stdlib_https_opener ul)\<rparr>"

section \<open>Rendering\<close>

definition dmt_message_title :: string where "dmt_message_title = ''Hermes Sentinel Dead-Man''"

definition render_deadman_message :: "dm_notification \<Rightarrow> string" where
  "render_deadman_message n =
     join_with [CHR 0x0A]
       [dmt_message_title,
        (case dn_kind n of DmDownKind \<Rightarrow> ''DOWN'' | DmRecoveredKind \<Rightarrow> ''RECOVERED''),
        ''At: '' @ isoformat (dn_at n)]"


definition dmt_render_json_body :: "string \<Rightarrow> dm_telegram_settings \<Rightarrow> string res" where
  "dmt_render_json_body message s =
     (let document =
        [(''chat_id'', JInt (dts_chat_id s)), (''text'', JStr message)] @
        (case dts_message_thread_id s of None \<Rightarrow> [] | Some i \<Rightarrow> [(''message_thread_id'', JInt i)])
      in bind_res (json_dumps_checked False False (JObj document)) (\<lambda>t. Inr (utf8_encode t)))"

definition dmt_api_origin :: string where "dmt_api_origin = ''https://api.telegram.org''"

definition dmt_api_method :: string where "dmt_api_method = ''sendMessage''"

definition dmt_build_request :: "dm_telegram_settings \<Rightarrow> string \<Rightarrow> http_request res" where
  "dmt_build_request s message =
     bind_res (dmt_render_json_body message s) (\<lambda>body.
       Inr \<lparr>rq_url = dmt_api_origin @ ''/bot'' @ dts_bot_token s @ ''/'' @ dmt_api_method,
            rq_method = ''POST'', rq_data = Some body, rq_headers = [(''Content-Type'', ''application/json'')]\<rparr>)"

section \<open>The exchange\<close>

definition dmt_response_body_limit :: nat where "dmt_response_body_limit = 8192"

definition dmt_close_bounded_response :: "'w http_response \<Rightarrow> exn option \<Rightarrow> ('w, exn option) io" where
  "dmt_close_bounded_response r failure =
     catch_io (bind_io (rs_close r) (\<lambda>_. return_io failure)) transport_error
       (\<lambda>_. return_io (case failure of None \<Rightarrow> Some DeadManTelegramDeliveryError | Some e \<Rightarrow> Some e))"

definition dmt_classify_bounded_response :: "nat \<Rightarrow> int \<Rightarrow> string \<Rightarrow> exn option res" where
  "dmt_classify_bounded_response limit status raw =
     (if status \<noteq> 200 then Inr (Some DeadManTelegramDeliveryError)
      else if dmt_response_body_limit < length raw then Inr (Some DeadManTelegramDeliveryError)
      else
        bind_res
          (catch_res (map_sum id Some (bind_res (utf8_decode raw) (json_loads default_hooks limit)))
            is_value_error (\<lambda>_. Inr None)) (\<lambda>document.
        case document of
          Some (JObj ps) \<Rightarrow> Inr (if map_of ps ''ok'' = Some (JBool True) then None else Some DeadManTelegramDeliveryError)
        | _ \<Rightarrow> Inr (Some DeadManTelegramDeliveryError)))"

definition dmt_send :: "nat \<Rightarrow> 'w opener \<Rightarrow> dm_telegram_settings \<Rightarrow> dm_notification \<Rightarrow> ('w, unit) io" where
  "dmt_send limit opener s subject =
     bind_io (lift_io (dmt_build_request s (render_deadman_message subject))) (\<lambda>request.
     bind_io (catch_io (opener request (dts_timeout_seconds s)) transport_error
       (\<lambda>_. lift_io (Inl DeadManTelegramDeliveryError))) (\<lambda>opened.
     case opened of
       RaisedHttpError _ r \<Rightarrow>
         bind_io (dmt_close_bounded_response r (Some DeadManTelegramDeliveryError)) raise_failure
     | Answered r \<Rightarrow>
         bind_io
           (catch_io
             (bind_io (rs_status r) (\<lambda>status.
              bind_io (rs_read r (dmt_response_body_limit + 1)) (\<lambda>raw. return_io (Inr (status, raw)))))
             transport_error (\<lambda>_. return_io (Inl DeadManTelegramDeliveryError))) (\<lambda>read.
         bind_io
           (case read of
              Inl e \<Rightarrow> return_io (Some e)
            | Inr (status, raw) \<Rightarrow> lift_io (dmt_classify_bounded_response limit status raw)) (\<lambda>failure.
         bind_io (dmt_close_bounded_response r failure) raise_failure))))"

section \<open>Facts\<close>

lemma dmt_exchange_parts:
  "dmt_response_body_limit = response_limit"
  "dmt_close_bounded_response = close_exchange DeadManTelegramDeliveryError"
  "dmt_classify_bounded_response = classify_exchange DeadManTelegramDeliveryError"
  by (simp_all add: dmt_response_body_limit_def response_limit_def dmt_close_bounded_response_def
      close_exchange_def dmt_classify_bounded_response_def classify_exchange_def fun_eq_iff)

lemma dmt_send_exchange:
  "dmt_send limit opener s subject =
    bind_io (lift_io (dmt_build_request s (render_deadman_message subject)))
      (\<lambda>request. exchange DeadManTelegramDeliveryError limit opener request (dts_timeout_seconds s))"
  unfolding dmt_send_def exchange_def dmt_exchange_parts ..

text \<open>The credential goes into the path of the fixed origin and nowhere else.\<close>

lemma dmt_request_url:
  "dmt_build_request s message = Inr request \<Longrightarrow>
    rq_url request = ''https://api.telegram.org/bot'' @ dts_bot_token s @ ''/sendMessage''"
  by (auto simp: dmt_build_request_def dmt_api_origin_def dmt_api_method_def)

lemma dmt_body_independent_of_token:
  "dmt_render_json_body message (s\<lparr>dts_bot_token := t\<rparr>) = dmt_render_json_body message s"
  by (simp add: dmt_render_json_body_def)

definition dmt_sample :: dm_telegram_settings where
  "dmt_sample = \<lparr>dts_bot_token = ''t'', dts_chat_id = 1, dts_message_thread_id = None, dts_timeout_seconds = PInt 10\<rparr>"

lemma dmt_sample_builds: "\<exists>request. dmt_build_request dmt_sample message = Inr request"
  by (simp add: dmt_sample_def dmt_build_request_def dmt_render_json_body_def json_dumps_checked_def
      digit_count.simps max_int_digits_def)

section \<open>Properties\<close>

text \<open>The same contract as the central sender's.\<close>

lemma dmt_delivery_confirmed:
  assumes "dmt_build_request s (render_deadman_message subject) = Inr request"
  shows "(fst (dmt_send limit opener s subject w) = Inr () \<longleftrightarrow>
      delivered limit (opener request (dts_timeout_seconds s) w)) \<and>
    (\<forall>e. fst (dmt_send limit opener s subject w) = Inl e \<and> transport_error e \<longrightarrow> False)"
  using exchange_returns [of DeadManTelegramDeliveryError limit opener request "dts_timeout_seconds s" w]
    exchange_errors [of DeadManTelegramDeliveryError limit opener request "dts_timeout_seconds s" w]
  unfolding dmt_send_exchange assms bind_lift
  by (auto simp: outward_def transport_error_def is_os_error_def outside_model_def)

text \<open>One way to fail is not bounded: when the response body is a JSON array nested deeper than
  the interpreter's recursion limit, although within the 8192 bytes read, \<open>send\<close> raises
  \<open>RecursionError\<close> instead of the delivery error, and leaves the response open.\<close>

theorem deep_body_escapes:
  assumes "dmt_build_request s (render_deadman_message n) = Inr request" "limit < 8192"
    and "opener request (dts_timeout_seconds s) w = (Inr (Answered r), w')"
    and "rs_status r w' = (Inr 200, w'')" "rs_read r 8193 w'' = (Inr (replicate 8192 (CHR ''['')), w3)"
  shows "dmt_send limit opener s n w = (Inl RecursionError, w3)"
  using assms(2-) deep_body [of limit 8192 DeadManTelegramDeliveryError]
  unfolding dmt_send_exchange assms(1) bind_lift
  by (simp add: exchange_def bind_io_def catch_io_def response_limit_def)

definition sample_intent :: dm_notification where
  "sample_intent = \<lparr>dn_id = 1, dn_kind = DmDownKind,
     dn_transition = \<lparr>dt_from = DmUp, dt_to = DmDown, dt_at = utc_datetime 0\<rparr>\<rparr>"

definition deep_response :: "unit http_response" where
  "deep_response =
     \<lparr>rs_status = return_io 200, rs_get_all = (\<lambda>_. return_io None),
      rs_read = (\<lambda>n. return_io (take n (replicate 8192 (CHR ''['')))), rs_close = return_io ()\<rparr>"

lemma deep_body_escapes_witness:
  "dmt_send 900 (\<lambda>_ _ w. (Inr (Answered deep_response), w)) dmt_sample sample_intent () = (Inl RecursionError, ())"
proof -
  obtain request where r: "dmt_build_request dmt_sample (render_deadman_message sample_intent) = Inr request"
    using dmt_sample_builds by blast
  show ?thesis
    by (rule deep_body_escapes [OF r, where r = deep_response and w' = "()" and w'' = "()"])
      (simp_all add: deep_response_def)
qed


end
