(* ===== verification/Runtime.thy ===== *)
theory Runtime
  imports Io_Hoare Py_Float
begin

text \<open>
  \<open>runtime.py\<close>: the single-threaded loop that interleaves monitoring cycles with heartbeat
  requests.  Server, cycle, clock and stop predicate are operations on one shared state.  The loop
  may run forever, so its result is an option: \<open>None\<close> means that it does not return.
\<close>

section \<open>The loop\<close>

definition runtime_require_positive :: "pyfloat \<Rightarrow> unit res" where
  "runtime_require_positive v =
     in_order [raise_if (\<not> flt_isfinite v) ValueError, raise_if (flt_le v (Fin 0)) ValueError]"

definition default_poll_interval :: pyfloat where "default_poll_interval = Fin (1 / 2)"

definition never_stop :: "('s, bool) io" where "never_stop = return_io False"

definition deadline_after :: "pyfloat \<Rightarrow> pyfloat \<Rightarrow> pyfloat" where
  "deadline_after completion interval =
     (let deadline = flt_add completion interval
      in if flt_le deadline completion then nextafter_up completion else deadline)"

text \<open>Python's \<open>max\<close> and \<open>min\<close> keep the first argument unless the second is beyond it.\<close>

definition py_max :: "pyfloat \<Rightarrow> pyfloat \<Rightarrow> pyfloat" where
  "py_max a b = (if flt_less a b then b else a)"

definition py_min :: "pyfloat \<Rightarrow> pyfloat \<Rightarrow> pyfloat" where
  "py_min a b = (if flt_less b a then b else a)"

record 's sentinel_runtime =
  sr_set_timeout :: "pyfloat \<Rightarrow> ('s, unit) io"
  sr_handle_request :: "('s, unit) io"
  sr_cycle :: "('s, unit) io"
  sr_monotonic :: "('s, pyfloat) io"
  sr_interval :: pyfloat
  sr_poll :: pyfloat

definition sentinel_runtime_init :: "'s sentinel_runtime \<Rightarrow> unit res" where
  "sentinel_runtime_init r =
     in_order [runtime_require_positive (sr_interval r), runtime_require_positive (sr_poll r)]"

text \<open>The body of the loop, from the stored due point to the next one.\<close>

definition iteration :: "'s sentinel_runtime \<Rightarrow> pyfloat option \<Rightarrow> ('s, pyfloat) io" where
  "iteration r next_due =
     bind_io (sr_monotonic r) (\<lambda>start.
     let due = (case next_due of None \<Rightarrow> start | Some d \<Rightarrow> d) in
     bind_io
       (if flt_le due start then
          bind_io (sr_cycle r) (\<lambda>_.
          bind_io (sr_monotonic r) (\<lambda>completion.
            return_io (completion, deadline_after completion (sr_interval r))))
        else return_io (start, due)) (\<lambda>(now, due').
     let remaining = py_max (flt_sub due' now) (Fin 0) in
     bind_io (sr_set_timeout r (py_min (sr_poll r) remaining)) (\<lambda>_.
     bind_io (sr_handle_request r) (\<lambda>_.
       return_io due'))))"

partial_function (option) serve ::
  "'s sentinel_runtime \<Rightarrow> ('s, bool) io \<Rightarrow> pyfloat option \<Rightarrow> 's \<Rightarrow> (unit res \<times> 's) option"
where
  "serve r stop next_due s =
     (case stop s of
        (Inl e, s1) \<Rightarrow> Some (Inl e, s1)
      | (Inr stopped, s1) \<Rightarrow>
          if stopped then Some (Inr (), s1)
          else (case iteration r next_due s1 of
                  (Inl e, s2) \<Rightarrow> Some (Inl e, s2)
                | (Inr due, s2) \<Rightarrow> serve r stop (Some due) s2))"

definition run_forever :: "'s sentinel_runtime \<Rightarrow> ('s, bool) io option \<Rightarrow> 's \<Rightarrow> (unit res \<times> 's) option" where
  "run_forever r should_stop s =
     serve r (case should_stop of None \<Rightarrow> never_stop | Some stop \<Rightarrow> stop) None s"

section \<open>Arithmetic of the schedule\<close>

lemma round64_not_NaN [simp]: "round64 x \<noteq> NaN"
  by (simp add: round64_def Let_def)

lemma flt_add_Fin_not_NaN: "flt_add (Fin a) (Fin b) \<noteq> NaN"
  by simp

lemma deadline_later: "flt_less (Fin c) (deadline_after (Fin c) (Fin i))"
proof (cases "flt_le (flt_add (Fin c) (Fin i)) (Fin c)")
  case True
  then show ?thesis using nextafter_up_greater by (simp add: deadline_after_def)
next
  case False
  then show ?thesis
    using flt_not_le [of "flt_add (Fin c) (Fin i)" "Fin c"] by (simp add: deadline_after_def)
qed

lemma timeout_bounds:
  assumes "poll = Fin p" "0 < p" "due \<noteq> NaN"
  shows "flt_le (Fin 0) (py_min poll (py_max (flt_sub due (Fin now)) (Fin 0))) \<and>
    flt_le (py_min poll (py_max (flt_sub due (Fin now)) (Fin 0))) poll \<and>
    flt_le (py_min poll (py_max (flt_sub due (Fin now)) (Fin 0))) (py_max (flt_sub due (Fin now)) (Fin 0))"
proof -
  have "flt_sub due (Fin now) \<noteq> NaN" using assms(3) by (cases due) (simp_all add: flt_sub_def)
  then show ?thesis
    using assms(1,2) by (cases "flt_sub due (Fin now)") (auto simp: py_min_def py_max_def)
qed

section \<open>What one iteration does\<close>

text \<open>The collaborators with a record of what was asked of them.\<close>

datatype runtime_event = ClockRead pyfloat | CycleRun | TimeoutSet pyfloat | RequestHandled

definition traced :: "('a \<Rightarrow> runtime_event) \<Rightarrow> ('s, 'a) io \<Rightarrow> (runtime_event list \<times> 's, 'a) io" where
  "traced event m ls =
     (case ls of (log', s) \<Rightarrow> case m s of
        (Inr x, s') \<Rightarrow> (Inr x, log' @ [event x], s') | (Inl e, s') \<Rightarrow> (Inl e, log', s'))"

definition traced_runtime :: "'s sentinel_runtime \<Rightarrow> (runtime_event list \<times> 's) sentinel_runtime" where
  "traced_runtime r =
     \<lparr>sr_set_timeout = (\<lambda>t. traced (\<lambda>_. TimeoutSet t) (sr_set_timeout r t)),
      sr_handle_request = traced (\<lambda>_. RequestHandled) (sr_handle_request r),
      sr_cycle = traced (\<lambda>_. CycleRun) (sr_cycle r),
      sr_monotonic = traced ClockRead (sr_monotonic r),
      sr_interval = sr_interval r, sr_poll = sr_poll r\<rparr>"

lemma traced_Inr:
  "traced event m (l, s) = (Inr x, ls) \<Longrightarrow> \<exists>s'. ls = (l @ [event x], s') \<and> m s = (Inr x, s')"
  by (auto simp: traced_def split: prod.splits sum.splits)

lemma bind_io_InrE:
  "bind_io m f s = (Inr y, s2) \<Longrightarrow> (\<And>x s1. m s = (Inr x, s1) \<Longrightarrow> f x s1 = (Inr y, s2) \<Longrightarrow> R) \<Longrightarrow> R"
  by (auto simp: bind_io_def split: prod.splits sum.splits)

text \<open>The two shapes of a returning iteration: the cycle was not due, or it ran exactly once.\<close>

definition scheduled :: "pyfloat \<Rightarrow> pyfloat option \<Rightarrow> runtime_event list \<Rightarrow> pyfloat \<Rightarrow> bool" where
  "scheduled poll next_due events due \<longleftrightarrow>
     (\<exists>now t. flt_le (Fin 0) t \<and> flt_le t poll \<and> flt_le t (py_max (flt_sub due (Fin now)) (Fin 0)) \<and>
       (events = [ClockRead (Fin now), TimeoutSet t, RequestHandled] \<and> next_due = Some due \<and> flt_less (Fin now) due \<or>
        (\<exists>start. events = [ClockRead (Fin start), CycleRun, ClockRead (Fin now), TimeoutSet t, RequestHandled] \<and>
          (\<forall>d. next_due = Some d \<longrightarrow> flt_le d (Fin start)) \<and> flt_less (Fin now) due)))"

lemma scheduled_wait:
  assumes "poll = Fin p" "0 < p" "flt_less (Fin now) due"
  shows "scheduled poll (Some due) [ClockRead (Fin now),
    TimeoutSet (py_min poll (py_max (flt_sub due (Fin now)) (Fin 0))), RequestHandled] due"
proof -
  have "due \<noteq> NaN" using assms(3) by auto
  then show ?thesis using timeout_bounds [OF assms(1,2), of due now] assms(3) unfolding scheduled_def by blast
qed

lemma scheduled_cycle:
  assumes "poll = Fin p" "0 < p" "flt_less (Fin now) due" "\<And>d. next_due = Some d \<Longrightarrow> flt_le d (Fin start)"
  shows "scheduled poll next_due [ClockRead (Fin start), CycleRun, ClockRead (Fin now),
    TimeoutSet (py_min poll (py_max (flt_sub due (Fin now)) (Fin 0))), RequestHandled] due"
proof -
  have "due \<noteq> NaN" using assms(3) by auto
  then show ?thesis using timeout_bounds [OF assms(1,2), of due now] assms(3,4) unfolding scheduled_def by blast
qed

lemma iteration_scheduled:
  assumes clock: "\<And>s x s'. sr_monotonic r s = (Inr x, s') \<Longrightarrow> \<exists>q. x = Fin q"
    and interval: "sr_interval r = Fin i" and poll: "sr_poll r = Fin p" "0 < p" and due: "next_due \<noteq> Some NaN"
    and run: "iteration (traced_runtime r) next_due (l, s) = (Inr d, ls)"
  shows "\<exists>events s'. ls = (l @ events, s') \<and> scheduled (sr_poll r) next_due events d"
proof -
  let ?m = "traced ClockRead (sr_monotonic r)"
  let ?due = "\<lambda>start. case next_due of None \<Rightarrow> start | Some d \<Rightarrow> d"
  obtain x s1 u s2 where
    start: "?m (l, s) = (Inr x, s1)" and
    branch: "(if flt_le (?due x) x then bind_io (traced (\<lambda>_. CycleRun) (sr_cycle r)) (\<lambda>_.
        bind_io ?m (\<lambda>completion. return_io (completion, deadline_after completion (Fin i))))
      else return_io (x, ?due x)) s1 = (Inr u, s2)" and
    rest: "bind_io (traced (\<lambda>_. TimeoutSet (py_min (sr_poll r) (py_max (flt_sub (snd u) (fst u)) (Fin 0))))
        (sr_set_timeout r (py_min (sr_poll r) (py_max (flt_sub (snd u) (fst u)) (Fin 0)))))
      (\<lambda>_. bind_io (traced (\<lambda>_. RequestHandled) (sr_handle_request r)) (\<lambda>_. return_io (snd u))) s2 = (Inr d, ls)"
    using run unfolding iteration_def Let_def case_prod_beta traced_runtime_def sentinel_runtime.simps interval
    apply -
    apply (erule bind_io_InrE)
    apply (erule bind_io_InrE)
    apply (rule that; assumption)
    done
  obtain q s1' where q: "x = Fin q" "s1 = (l @ [ClockRead (Fin q)], s1')"
    using traced_Inr [OF start] clock by blast
  have tail: "d = snd u \<and> (\<exists>s'. ls = (l2 @ [TimeoutSet (py_min (sr_poll r) (py_max (flt_sub (snd u) (fst u)) (Fin 0))),
      RequestHandled], s'))" if "s2 = (l2, s2')" for l2 s2'
    using rest unfolding that by (auto elim!: bind_io_InrE dest!: traced_Inr)
  show ?thesis
  proof (cases "flt_le (?due x) x")
    case True
    then obtain now s2' where u: "u = (now, deadline_after now (Fin i))" "\<exists>q. now = Fin q"
      "s2 = (l @ [ClockRead (Fin q), CycleRun, ClockRead now], s2')"
      using branch clock unfolding q by (fastforce elim!: bind_io_InrE dest!: traced_Inr)
    then obtain q2 where q2: "now = Fin q2" by blast
    have "next_due = Some d' \<Longrightarrow> flt_le d' (Fin q)" for d' using True q(1) by simp
    then have "scheduled (sr_poll r) next_due [ClockRead (Fin q), CycleRun, ClockRead (Fin q2),
        TimeoutSet (py_min (sr_poll r) (py_max (flt_sub (deadline_after (Fin q2) (Fin i)) (Fin q2)) (Fin 0))),
        RequestHandled] (deadline_after (Fin q2) (Fin i))"
      by (rule scheduled_cycle [OF poll deadline_later])
    then show ?thesis using tail [OF u(3)] u(1) by (auto simp: q2)
  next
    case False
    then have u: "u = (Fin q, ?due (Fin q))" "s2 = (l @ [ClockRead (Fin q)], s1')"
      using branch unfolding q by simp_all
    obtain d' where d': "next_due = Some d'" "flt_less (Fin q) d'"
      using False due flt_not_le [of _ "Fin q"] by (cases next_due) (auto simp: q)
    show ?thesis using tail [OF u(2)] scheduled_wait [OF poll d'(2)] u(1) d'(1) by auto
  qed
qed

lemma runtime_require_positive_eq_Inr [simp]:
  "runtime_require_positive v = Inr u \<longleftrightarrow> (\<exists>q. v = Fin q \<and> 0 < q)"
  by (cases v) (auto simp: runtime_require_positive_def)

lemma scheduled_not_NaN: "scheduled poll next_due events due \<Longrightarrow> due \<noteq> NaN"
  by (auto simp: scheduled_def)

section \<open>A whole run\<close>

inductive schedule :: "pyfloat \<Rightarrow> pyfloat option \<Rightarrow> runtime_event list \<Rightarrow> bool" where
  Stopped: "schedule poll next_due []"
| Iterated: "scheduled poll next_due events due \<Longrightarrow> schedule poll (Some due) rest \<Longrightarrow>
    schedule poll next_due (events @ rest)"

lemma serve_schedule:
  assumes clock: "\<And>s x s'. sr_monotonic r s = (Inr x, s') \<Longrightarrow> \<exists>q. x = Fin q"
    and init: "sentinel_runtime_init r = Inr ()"
    and run: "serve (traced_runtime r) (on_snd stop) next_due ls = Some (Inr (), ls')" and due: "next_due \<noteq> Some NaN"
  shows "\<exists>events. fst ls' = fst ls @ events \<and> schedule (sr_poll r) next_due events"
proof -
  obtain i p where ip: "sr_interval r = Fin i" "sr_poll r = Fin p" "0 < p"
    using init by (auto simp: sentinel_runtime_init_def)
  have "r' = traced_runtime r \<Longrightarrow> stop' = on_snd stop \<Longrightarrow> next_due \<noteq> Some NaN \<Longrightarrow> fst result = Inr () \<Longrightarrow>
      \<exists>events. fst (snd result) = fst ls @ events \<and> schedule (sr_poll r) next_due events"
    if "serve r' stop' next_due ls = Some result" for r' stop' next_due ls result
    using that
  proof (induction rule: serve.raw_induct [rotated, consumes 1, case_names 1])
    case (1 serve r' stop' next_due ls result)
    obtain l s where ls: "ls = (l, s)" by (cases ls)
    obtain stopped s1 where s1: "stop s = (Inr stopped, s1)"
      using 1 by (cases "stop s"; cases "fst (stop s)") (auto simp: ls)
    show ?case
    proof (cases stopped)
      case True
      then show ?thesis using 1 s1 by (auto simp: ls intro!: Stopped)
    next
      case False
      then obtain due ls2 where it: "iteration (traced_runtime r) next_due (l, s1) = (Inr due, ls2)"
        and again: "serve r' stop' (Some due) ls2 = Some result"
        using 1 s1 by (auto simp: ls split: prod.splits sum.splits)
      obtain events s2 where events: "ls2 = (l @ events, s2)" "scheduled (sr_poll r) next_due events due"
        using iteration_scheduled [OF _ ip 1(5) it] clock by blast
      show ?thesis
        using 1(1) [OF again 1(3,4) _ 1(6)] scheduled_not_NaN [OF events(2)] Iterated [OF events(2)]
        by (auto simp: events(1) ls)
    qed
  qed
  from this [OF run refl refl due] show ?thesis by simp
qed

text \<open>An operation that does not use up the budget of the stop predicate.\<close>

definition keeps_budget :: "('s \<Rightarrow> nat) \<Rightarrow> ('s, 'a) io \<Rightarrow> bool" where
  "keeps_budget budget m \<longleftrightarrow> (\<forall>s. budget (snd (m s)) \<le> budget s)"

lemma keeps_budget_return [intro!]: "keeps_budget b (return_io x)"
  by (simp add: keeps_budget_def)

lemma keeps_budget_bind [intro!]:
  "keeps_budget b m \<Longrightarrow> (\<And>x. keeps_budget b (f x)) \<Longrightarrow> keeps_budget b (bind_io m f)"
  unfolding keeps_budget_def bind_io_split by (simp split: sum.splits) (meson le_trans)

lemma iteration_keeps_budget:
  assumes "\<And>t. keeps_budget b (sr_set_timeout r t)" "keeps_budget b (sr_handle_request r)"
    "keeps_budget b (sr_cycle r)" "keeps_budget b (sr_monotonic r)"
  shows "keeps_budget b (iteration r next_due)"
  unfolding iteration_def Let_def case_prod_beta using assms by auto

lemma serve_returns:
  assumes step: "\<And>next_due. keeps_budget b (iteration r next_due)"
    and stop: "\<And>s s'. stop s = (Inr False, s') \<Longrightarrow> b s' < b s"
  shows "\<exists>outcome. serve r stop next_due s = Some outcome \<and>
    (fst outcome = Inr () \<longrightarrow> (\<exists>s1. stop s1 = (Inr True, snd outcome)))"
proof (induction "b s" arbitrary: s next_due rule: less_induct)
  case less
  consider (raise) e s1 where "stop s = (Inl e, s1)" | (stop) s1 where "stop s = (Inr True, s1)"
    | (serve) s1 where "stop s = (Inr False, s1)"
    by (metis (full_types) old.sum.exhaust surj_pair)
  then show ?case
  proof cases
    case raise
    then show ?thesis by (simp add: serve.simps)
  next
    case stop
    then show ?thesis by (auto simp: serve.simps)
  next
    case serve
    obtain result s2 where it: "iteration r next_due s1 = (result, s2)" by fastforce
    have "b s2 < b s"
      using assms(1) [of next_due] assms(2) [OF serve] it
      by (metis keeps_budget_def le_less_trans snd_conv)
    then show ?thesis using less [of s2] serve it by (subst serve.simps) (auto split: sum.splits)
  qed
qed

lemma serve_runs_on:
  assumes "\<And>next_due s. \<exists>d. fst (iteration r next_due s) = Inr d"
  shows "serve r never_stop next_due s = None"
proof -
  have "r' = r \<Longrightarrow> stop' = never_stop \<Longrightarrow> False" if "serve r' stop' next_due s = Some result" for r' stop' next_due s result
    using that
  proof (induction rule: serve.raw_induct [rotated, consumes 1, case_names 1])
    case (1 serve r' stop' next_due s result)
    obtain d s2 where "iteration r next_due s = (Inr d, s2)"
      using assms [of next_due s] by (metis prod.collapse)
    then have "serve r' stop' (Some d) s2 = Some result" using 1(2-4) by (auto simp: never_stop_def)
    from 1(1) [OF this 1(3,4)] show ?case .
  qed
  then show ?thesis by (cases "serve r never_stop next_due s") blast+
qed

text \<open>Without a stop predicate the loop never returns unless a collaborator raises.\<close>

theorem run_never_gives_up:
  assumes "\<And>next_due s. \<exists>d. fst (iteration r next_due s) = Inr d"
  shows "run_forever r None s = None"
  using serve_runs_on [OF assms] by (simp add: run_forever_def)

section \<open>A concrete run\<close>

text \<open>The state is the clock in seconds; handling a request takes one second.\<close>

definition ticking_runtime :: "nat sentinel_runtime" where
  "ticking_runtime =
     \<lparr>sr_set_timeout = (\<lambda>_. return_io ()), sr_handle_request = (\<lambda>n. (Inr (), n + 1)), sr_cycle = return_io (),
      sr_monotonic = (\<lambda>n. (Inr (Fin (rat_of_nat n)), n)), sr_interval = Fin 60, sr_poll = Fin (1 / 2)\<rparr>"

definition stop_at :: "nat \<Rightarrow> (nat, bool) io" where
  "stop_at k n = (Inr (k \<le> n), n)"

text \<open>The state counts the refusals the stop predicate has left.\<close>

definition counting_runtime :: "nat sentinel_runtime" where
  "counting_runtime = ticking_runtime\<lparr>sr_handle_request := return_io (), sr_monotonic := (\<lambda>n. (Inr (Fin (rat_of_nat (9 - n))), n))\<rparr>"

definition refuse :: "(nat, bool) io" where
  "refuse n = (Inr (n = 0), n - 1)"

lemma ticking_arithmetic:
  "round64 60 = Fin 60" "flt_sub (Fin 60) (Fin 0) = Fin 60"
  by code_simp+

lemma ticking_init: "sentinel_runtime_init ticking_runtime = Inr ()"
  by (auto simp: sentinel_runtime_init_def ticking_runtime_def intro: exI [of _ "1 / 2"])

lemma ticking_run:
  "run_forever (traced_runtime ticking_runtime) (Some (on_snd (stop_at 1))) ([], 0) =
    Some (Inr (), [ClockRead (Fin 0), CycleRun, ClockRead (Fin 0), TimeoutSet (Fin (1 / 2)), RequestHandled], 1)"
  by (simp add: run_forever_def serve.simps iteration_def ticking_runtime_def traced_runtime_def traced_def bind_io_def
    stop_at_def deadline_after_def Let_def ticking_arithmetic py_min_def py_max_def)

section \<open>The properties\<close>

text \<open>C16: in a run of the loop that returns, every iteration reads the clock, runs the monitoring
  cycle at most once (only when no due point is stored or the stored one is reached), schedules the next cycle strictly
  later than the clock reading that follows it, sets an accept timeout between zero and the poll
  interval that does not exceed the time left to the due point, and handles exactly one request.\<close>

theorem run_follows_schedule:
  assumes "\<And>s x s'. sr_monotonic r s = (Inr x, s') \<Longrightarrow> \<exists>q. x = Fin q"
    and "sentinel_runtime_init r = Inr ()"
    and "run_forever (traced_runtime r) (Some (on_snd stop)) ([], s) = Some (Inr (), events, s')"
  shows "schedule (sr_poll r) None events"
proof -
  have "serve (traced_runtime r) (on_snd stop) None ([], s) = Some (Inr (), events, s')"
    using assms(3) by (simp add: run_forever_def)
  from serve_schedule [OF _ assms(2) this] assms(1) show ?thesis by fastforce
qed

theorem run_follows_schedule_witness:
  "schedule (Fin (1 / 2)) None
    [ClockRead (Fin 0), CycleRun, ClockRead (Fin 0), TimeoutSet (Fin (1 / 2)), RequestHandled]"
  using run_follows_schedule [of ticking_runtime, OF _ ticking_init ticking_run]
  by (simp add: ticking_runtime_def)

text \<open>C25: when the stop predicate answers no only finitely often (a budget that every refusal uses up
  and no collaborator restores), the loop returns, and it returns without an exception only because
  the predicate answered yes last.\<close>

theorem run_returns_when_stopped:
  assumes "\<And>t. keeps_budget b (sr_set_timeout r t)" "keeps_budget b (sr_handle_request r)"
    "keeps_budget b (sr_cycle r)" "keeps_budget b (sr_monotonic r)"
    and "\<And>s s'. stop s = (Inr False, s') \<Longrightarrow> b s' < b s"
  shows "\<exists>outcome. run_forever r (Some stop) s = Some outcome \<and>
    (fst outcome = Inr () \<longrightarrow> (\<exists>s1. stop s1 = (Inr True, snd outcome)))"
  using serve_returns [OF iteration_keeps_budget [OF assms(1-4)] assms(5)] by (simp add: run_forever_def)

theorem run_returns_when_stopped_witness:
  "\<exists>outcome. run_forever counting_runtime (Some refuse) 9 = Some outcome \<and>
    (fst outcome = Inr () \<longrightarrow> (\<exists>s1. refuse s1 = (Inr True, snd outcome)))"
  by (rule run_returns_when_stopped [of "\<lambda>n. n"])
    (auto simp: keeps_budget_def counting_runtime_def ticking_runtime_def refuse_def)

end
