(* ===== verification/Io_Effect.thy ===== *)
theory Io_Effect
  imports Runtime
begin

text \<open>
  Computations that move the state only along a given relation, whether they return or raise.  The
  relation is a parameter: the application instantiates it with what a run may do to the stored rows
  and to the resources it owns.
\<close>

definition moves :: "('s \<Rightarrow> 's \<Rightarrow> bool) \<Rightarrow> ('s, 'a) io \<Rightarrow> bool" where
  "moves R m \<longleftrightarrow> (\<forall>s r s'. m s = (r, s') \<longrightarrow> R s s')"

lemma movesI: "(\<And>s r s'. m s = (r, s') \<Longrightarrow> R s s') \<Longrightarrow> moves R m"
  by (simp add: moves_def)

lemma movesD: "moves R m \<Longrightarrow> m s = (r, s') \<Longrightarrow> R s s'"
  by (simp add: moves_def)

text \<open>A runtime whose state carries one more component in front\<close>

definition lift_runtime :: "'s sentinel_runtime \<Rightarrow> ('o \<times> 's) sentinel_runtime" where
  "lift_runtime r =
     \<lparr>sr_set_timeout = (\<lambda>t. on_snd (sr_set_timeout r t)), sr_handle_request = on_snd (sr_handle_request r),
      sr_cycle = on_snd (sr_cycle r), sr_monotonic = on_snd (sr_monotonic r), sr_interval = sr_interval r,
      sr_poll = sr_poll r\<rparr>"

locale io_effect =
  fixes R :: "'s \<Rightarrow> 's \<Rightarrow> bool"
  assumes step_refl: "R s s"
    and step_trans: "R s t \<Longrightarrow> R t u \<Longrightarrow> R s u"
begin

lemma moves_return: "moves R (return_io x)"
  by (simp add: moves_def step_refl)

lemma moves_Pair: "moves R (Pair (Inr x))"
  by (simp add: moves_def step_refl)

lemma moves_lift: "moves R (lift_io x)"
  by (simp add: moves_def lift_io_def step_refl)

lemma moves_bind: "moves R m \<Longrightarrow> (\<And>x. moves R (f x)) \<Longrightarrow> moves R (bind_io m f)"
  unfolding moves_def bind_io_def using step_trans by (fastforce split: prod.splits sum.splits)

lemma moves_catch: "moves R m \<Longrightarrow> (\<And>e. moves R (h e)) \<Longrightarrow> moves R (catch_io m p h)"
  unfolding moves_def catch_io_def using step_trans by (fastforce split: prod.splits sum.splits if_splits)

lemma moves_iteration:
  assumes "moves R (sr_monotonic r)" "moves R (sr_cycle r)" "\<And>t. moves R (sr_set_timeout r t)"
    "moves R (sr_handle_request r)"
  shows "moves R (iteration r next_due)"
  unfolding iteration_def Let_def
  by (intro moves_bind) (auto intro!: moves_bind moves_return assms split: prod.splits)

lemma serve_moves:
  assumes "\<And>next_due. moves R (iteration r next_due)" "moves R stop"
    and "serve r stop next_due s = Some (x, s')"
  shows "R s s'"
proof -
  have "r' = r \<Longrightarrow> stop' = stop \<Longrightarrow> R s (snd result)" if "serve r' stop' next_due s = Some result"
    for r' stop' next_due s result
    using that
  proof (induction rule: serve.raw_induct [rotated, consumes 1, case_names 1])
    case (1 serve r' stop' next_due s result)
    obtain y s1 where s1: "stop s = (y, s1)" by fastforce
    then have polled: "R s s1" using assms(2) by (rule movesD [rotated])
    obtain z s2 where s2: "iteration r next_due s1 = (z, s2)" by fastforce
    then have "R s1 s2" using assms(1) by (rule movesD [rotated])
    with polled have moved: "R s s2" by (rule step_trans)
    show ?case
    proof (cases "\<exists>due. y = Inr False \<and> z = Inr due")
      case True
      then obtain due where "serve r' stop' (Some due) s2 = Some result" using 1 s1 s2 by auto
      from 1(1) [OF this 1(3,4)] show ?thesis by (rule step_trans [OF moved])
    next
      case False
      then show ?thesis using 1(2-4) s1 s2 polled moved by (auto split: sum.splits if_splits)
    qed
  qed
  from this [OF assms(3) refl refl] show ?thesis by simp
qed

lemma run_moves:
  assumes "moves R (sr_monotonic r)" "moves R (sr_cycle r)" "\<And>t. moves R (sr_set_timeout r t)"
    "moves R (sr_handle_request r)" "moves R stop"
    and "run_forever r (Some stop) s = Some (x, s')"
  shows "R s s'"
  using assms(6) serve_moves [OF moves_iteration [OF assms(1-4)] assms(5)] by (simp add: run_forever_def)

end

text \<open>A lifted operation leaves the new component alone.\<close>

lemma moves_on_snd: "moves Q m \<Longrightarrow> moves (\<lambda>s t. fst s = fst t \<and> Q (snd s) (snd t)) (on_snd m)"
  by (auto simp: moves_def on_snd_def split: prod.splits)

lemma moves_conj: "moves P m \<Longrightarrow> moves Q m \<Longrightarrow> moves (\<lambda>s t. P s t \<and> Q s t) m"
  by (simp add: moves_def)

lemma moves_weaken: "moves P m \<Longrightarrow> (\<And>s t. P s t \<Longrightarrow> Q s t) \<Longrightarrow> moves Q m"
  by (auto simp: moves_def)

text \<open>A run returns without an exception only from a stop predicate that answered yes.\<close>

lemma run_stopped:
  assumes "run_forever r (Some stop) s = Some (Inr (), s')"
  shows "\<exists>t. stop t = (Inr True, s')"
proof -
  have "stop' = stop \<Longrightarrow> fst result = Inr () \<Longrightarrow> \<exists>t. stop t = (Inr True, snd result)"
    if "serve r' stop' next_due s = Some result" for r' stop' next_due s result
    using that
  proof (induction rule: serve.raw_induct [rotated, consumes 1, case_names 1])
    case (1 serve r' stop' next_due s result)
    obtain stopped s1 where s1: "stop s = (Inr stopped, s1)"
      using 1 by (cases "stop s"; cases "fst (stop s)") auto
    show ?case
    proof (cases stopped)
      case True
      then show ?thesis using 1(2-4) s1 by auto
    next
      case False
      then obtain due s2 where "serve r' stop' (Some due) s2 = Some result"
        using 1(2-4) s1 by (auto split: prod.splits sum.splits)
      from 1(1) [OF this 1(3,4)] show ?thesis .
    qed
  qed
  then show ?thesis using assms by (fastforce simp: run_forever_def)
qed

end
