(* ===== verification/Transport.thy ===== *)
theory Transport
  imports Deadman_Runtime Telegram Deadman_Telegram Io_Effect
begin

text \<open>
  The three adapters with the opener they build themselves: \<open>urllib\<close>'s director with a redirect handler
  that raises.  The network is a parameter; here it is observed through the list of the requests it
  was given.
\<close>

section \<open>A director whose redirect handler raises\<close>

definition refused_answer :: "'w urllib \<Rightarrow> http_request \<Rightarrow> 'w http_answer \<Rightarrow> 'w opened res" where
  "refused_answer ul request answer =
     (let raised = Inr (RaisedHttpError (an_code answer) (an_response answer)) in
      if 200 \<le> an_code answer \<and> an_code answer < 300 then Inr (Answered (an_response answer))
      else if an_code answer \<in> set redirect_codes then
        (case an_location answer of
           None \<Rightarrow> raised
         | Some location \<Rightarrow>
             bind_res (urlsplit (ul_bracket_ok ul) location) (\<lambda>parts.
               if sp_scheme parts \<notin> {''http'', ''https'', ''ftp'', []} then raised
               else bind_res (ul_join ul (rq_url request) parts) (\<lambda>_. raised)))
      else raised)"

lemma director_refuses:
  assumes "\<And>req fp status newurl. redirect_request req fp status newurl = RaiseHttpError status fp"
  shows "director_open ul redirect_request request timeout =
    bind_io (ul_exchange ul request timeout) (\<lambda>answer. lift_io (refused_answer ul request answer))"
  by (rule ext)
    (simp add: director_open_def http_error_302_def refused_answer_def assms Let_def bind_io_split
      split: sum.splits option.splits)

lemma production_openers:
  "dp_stdlib_https_opener ul request timeout =
    bind_io (ul_exchange ul request timeout) (\<lambda>answer. lift_io (refused_answer ul request answer))"
  "tg_stdlib_https_opener ul request timeout =
    bind_io (ul_exchange ul request timeout) (\<lambda>answer. lift_io (refused_answer ul request answer))"
  "dmt_stdlib_https_opener ul request timeout =
    bind_io (ul_exchange ul request timeout) (\<lambda>answer. lift_io (refused_answer ul request answer))"
  unfolding dp_stdlib_https_opener_def tg_stdlib_https_opener_def dmt_stdlib_https_opener_def
  by (rule director_refuses; simp add: dp_redirect_request_def tg_redirect_request_def dmt_redirect_request_def)+

section \<open>The network observed\<close>

definition lift_response :: "'w http_response \<Rightarrow> ('l \<times> 'w) http_response" where
  "lift_response r =
     \<lparr>rs_status = on_snd (rs_status r), rs_get_all = (\<lambda>name. on_snd (rs_get_all r name)),
      rs_read = (\<lambda>n. on_snd (rs_read r n)), rs_close = on_snd (rs_close r)\<rparr>"

definition lift_answer :: "'w http_answer \<Rightarrow> ('l \<times> 'w) http_answer" where
  "lift_answer answer =
     \<lparr>an_code = an_code answer, an_location = an_location answer, an_response = lift_response (an_response answer)\<rparr>"

fun lift_opened :: "'w opened \<Rightarrow> ('l \<times> 'w) opened" where
  "lift_opened (Answered r) = Answered (lift_response r)"
| "lift_opened (RaisedHttpError status r) = RaisedHttpError status (lift_response r)"

definition sending :: "http_request \<Rightarrow> ('w, 'a) io \<Rightarrow> (http_request list \<times> 'w, 'a) io" where
  "sending request m = (\<lambda>(sent, w). (fst (m w), sent @ [request], snd (m w)))"

definition logged_urllib :: "'w urllib \<Rightarrow> (http_request list \<times> 'w) urllib" where
  "logged_urllib ul =
     \<lparr>ul_exchange = (\<lambda>request timeout.
        bind_io (sending request (ul_exchange ul request timeout)) (\<lambda>answer. return_io (lift_answer answer))),
      ul_bracket_ok = ul_bracket_ok ul, ul_join = ul_join ul,
      ul_follow = (\<lambda>request timeout.
        bind_io (sending request (ul_follow ul request timeout)) (\<lambda>opened. return_io (lift_opened opened)))\<rparr>"

abbreviation keeps_log :: "(http_request list \<times> 'w, 'a) io \<Rightarrow> bool" where
  "keeps_log \<equiv> moves (\<lambda>s t. fst t = fst s)"

interpretation kept: io_effect "\<lambda>s t. fst t = fst s"
  by unfold_locales simp_all

lemma kept_log:
  assumes "keeps_log m"
  shows "fst (snd (m (sent, w))) = sent"
proof -
  obtain r t where run: "m (sent, w) = (r, t)" by (rule prod.exhaust)
  show ?thesis using movesD [OF assms run] by (simp add: run)
qed

lemma kept_on_snd: "keeps_log (on_snd m)"
  by (auto simp: moves_def)

lemma lifted_keeps:
  "keeps_log (rs_status (lift_response r))" "keeps_log (rs_get_all (lift_response r) name)"
  "keeps_log (rs_read (lift_response r) n)" "keeps_log (rs_close (lift_response r))"
  by (simp_all add: lift_response_def kept_on_snd)

definition opened_once :: "http_request list \<Rightarrow> (http_request list \<times> 'w) opened res \<times> http_request list \<times> 'w \<Rightarrow> bool" where
  "opened_once sent outcome \<longleftrightarrow> fst (snd outcome) = sent \<and>
     (\<forall>opened. fst outcome = Inr opened \<longrightarrow>
       (\<exists>r status. opened = Answered (lift_response r) \<or> opened = RaisedHttpError status (lift_response r)))"

lemma opened_onceE:
  assumes "opened_once sent p"
  obtains (raises) e w' where "p = (Inl e, sent, w')"
  | (answers) r w' where "p = (Inr (Answered (lift_response r)), sent, w')"
  | (fails) status r w' where "p = (Inr (RaisedHttpError status (lift_response r)), sent, w')"
  using assms by (cases p; cases "fst p") (auto simp: opened_once_def)

lemma observed_opening:
  "opened_once (sent @ [request]) (bind_io (ul_exchange (logged_urllib ul) request timeout)
      (\<lambda>answer. lift_io (refused_answer (logged_urllib ul) request answer)) (sent, w))"
  by (auto simp: opened_once_def logged_urllib_def sending_def bind_io_split refused_answer_def lift_answer_def Let_def
      split: sum.splits option.splits if_splits)

lemma observe_and_close_keeps: "keeps_log (observe_and_close (lift_response r))"
proof -
  have classified: "keeps_log (case observed of
       None \<Rightarrow> return_io ProbeFailed
     | Some (status, allow_values, body) \<Rightarrow>
         (case validated probe_response_post_init
             \<lparr>pr_status = status, pr_allow_headers = allow_values, pr_body = body\<rparr> of
            Inl e \<Rightarrow> if is_value_error e then return_io ProbeFailed else lift_io (Inl e)
          | Inr observation \<Rightarrow> return_io (classify_deadman_probe observation)))" for observed
    by (auto simp: moves_def split: option.splits sum.splits)
  show ?thesis
    unfolding observe_and_close_def observe_def close_quietly_def
    by (intro kept.moves_bind kept.moves_catch lifted_keeps kept.moves_return classified)
qed

lemma probe_asks_once:
  assumes "opened_once sent' (opener \<lparr>rq_url = ps_url settings, rq_method = ''GET'', rq_data = None, rq_headers = []\<rparr>
    (ps_timeout_seconds settings) (sent, w))"
  shows "fst (snd (probe opener settings (sent, w))) = sent'"
  using assms
  by (cases rule: opened_onceE)
    (simp_all add: probe_def bind_io_split catch_io_split kept_log [OF observe_and_close_keeps])

lemma close_exchange_keeps: "keeps_log (bind_io (close_exchange err (lift_response r) failure) raise_failure)"
  unfolding close_exchange_def raise_failure_def
  by (intro kept.moves_bind kept.moves_catch lifted_keeps kept.moves_return)
    (auto split: option.splits intro!: kept.moves_Pair kept.moves_lift kept.moves_return)

text \<open>What an exchange does once the response is there\<close>

definition read_exchange :: "exn \<Rightarrow> nat \<Rightarrow> 'w http_response \<Rightarrow> ('w, unit) io" where
  "read_exchange err limit r =
     bind_io
       (catch_io
         (bind_io (rs_status r) (\<lambda>status.
          bind_io (rs_read r (response_limit + 1)) (\<lambda>raw. return_io (Inr (status, raw)))))
         transport_error (\<lambda>_. return_io (Inl err))) (\<lambda>read.
     bind_io
       (case read of
          Inl e \<Rightarrow> return_io (Some e)
        | Inr (status, raw) \<Rightarrow> lift_io (classify_exchange err limit status raw)) (\<lambda>failure.
     bind_io (close_exchange err r failure) raise_failure))"

lemma read_exchange_keeps: "keeps_log (read_exchange err limit (lift_response r))"
proof -
  have "keeps_log (case read of Inl e \<Rightarrow> return_io (Some e)
      | Inr (status, raw) \<Rightarrow> lift_io (classify_exchange err limit status raw))" for read
    by (cases read) (simp_all add: kept.moves_Pair kept.moves_lift kept.moves_return split: prod.split)
  then show ?thesis
    unfolding read_exchange_def
    by (intro kept.moves_bind kept.moves_catch lifted_keeps kept.moves_return close_exchange_keeps)
qed

lemma exchange_asks_once:
  assumes "opened_once sent' (opener request timeout (sent, w))"
  shows "fst (snd (exchange err limit opener request timeout (sent, w))) = sent'"
  using assms
proof (cases rule: opened_onceE)
  case (raises e w')
  then show ?thesis by (simp add: exchange_def bind_io_split catch_io_split)
next
  case (answers r w')
  have "exchange err limit opener request timeout (sent, w) = read_exchange err limit (lift_response r) (sent', w')"
    unfolding exchange_def read_exchange_def
    by (subst bind_io_Inr, simp add: catch_io_split answers, simp only: opened.case)
  then show ?thesis by (simp add: kept_log [OF read_exchange_keeps])
next
  case (fails status r w')
  have "exchange err limit opener request timeout (sent, w) =
      bind_io (close_exchange err (lift_response r) (Some err)) raise_failure (sent', w')"
    unfolding exchange_def by (subst bind_io_Inr, simp add: catch_io_split fails, simp only: opened.case)
  then show ?thesis by (simp add: kept_log [OF close_exchange_keeps])
qed

section \<open>Properties\<close>

text \<open>C26: redirects are never followed: each adapter, with the opener it builds itself, gives the network
  exactly one request, the one built from its settings, whatever the network answers; a message that
  cannot be built is not sent at all.  The credential of a sender therefore reaches only the fixed
  origin, in the path of its address.\<close>

theorem production_opener_asks_once:
  "fst (snd (probe (pb_opener (dead_man_prober_init (logged_urllib ul) target None)) target (sent, w))) =
      sent @ [\<lparr>rq_url = ps_url target, rq_method = ''GET'', rq_data = None, rq_headers = []\<rparr>] \<and>
   (case tg_build_request central (render_incident_message subject) of
      Inl e \<Rightarrow> tg_send limit (tg_sender_opener (telegram_sender_init (logged_urllib ul) central None)) central subject
          (sent, w) = (Inl e, sent, w)
    | Inr request \<Rightarrow> rq_url request = ''https://api.telegram.org/bot'' @ ts_bot_token central @ ''/sendMessage'' \<and>
        fst (snd (tg_send limit (tg_sender_opener (telegram_sender_init (logged_urllib ul) central None)) central
          subject (sent, w))) = sent @ [request]) \<and>
   (case dmt_build_request outside (render_deadman_message n) of
      Inl e \<Rightarrow> dmt_send limit (dmt_sender_opener (dm_telegram_sender_init (logged_urllib ul) outside None)) outside n
          (sent, w) = (Inl e, sent, w)
    | Inr request \<Rightarrow> rq_url request = ''https://api.telegram.org/bot'' @ dts_bot_token outside @ ''/sendMessage'' \<and>
        fst (snd (dmt_send limit (dmt_sender_opener (dm_telegram_sender_init (logged_urllib ul) outside None)) outside
          n (sent, w))) = sent @ [request])"
proof -
  have asked: "fst (snd (exchange err limit opener request timeout (sent, w))) = sent @ [request]"
    if "\<And>request timeout. opener request timeout = bind_io (ul_exchange (logged_urllib ul) request timeout)
      (\<lambda>answer. lift_io (refused_answer (logged_urllib ul) request answer))" for err opener request timeout
    by (rule exchange_asks_once) (simp only: that observed_opening)
  note sender = asked [OF production_openers(2)] asked [OF production_openers(3)]
  have probed: "fst (snd (probe (dp_stdlib_https_opener (logged_urllib ul)) target (sent, w))) =
      sent @ [\<lparr>rq_url = ps_url target, rq_method = ''GET'', rq_data = None, rq_headers = []\<rparr>]"
    by (rule probe_asks_once) (simp only: production_openers observed_opening)
  show ?thesis
    using probed
    by (auto simp: sender dead_man_prober_init_def telegram_sender_init_def dm_telegram_sender_init_def tg_send_exchange
        dmt_send_exchange tg_request_url dmt_request_url bind_io_split split: sum.splits)
qed

section \<open>A redirect that does not parse\<close>

text \<open>
  The director splits the new address before it asks the redirect handler, and the splitting raises
  \<open>ValueError\<close> for an unbalanced bracket.  None of the adapters expects that class.
\<close>

lemma unbalanced_address: "urlsplit bracket_ok ''https://['' = Inl ValueError"
  by code_simp

definition malformed_redirect :: "'w http_answer \<Rightarrow> bool" where
  "malformed_redirect answer \<longleftrightarrow> an_code answer \<in> set redirect_codes \<and> an_location answer = Some ''https://[''"

lemma malformed_redirect_refused: "malformed_redirect answer \<Longrightarrow> refused_answer ul request answer = Inl ValueError"
  by (auto simp: malformed_redirect_def refused_answer_def redirect_codes_def unbalanced_address)

lemma malformed_redirect_escapes:
  assumes "ul_exchange ul \<lparr>rq_url = ps_url settings, rq_method = ''GET'', rq_data = None, rq_headers = []\<rparr>
      (ps_timeout_seconds settings) w = (Inr answer, w')" "malformed_redirect answer"
  shows "probe (pb_opener (dead_man_prober_init ul settings None)) settings w = (Inl ValueError, w')"
  by (simp add: probe_def Let_def dead_man_prober_init_def production_openers bind_io_def catch_io_def assms(1)
      malformed_redirect_refused [OF assms(2)] transport_error_def is_os_error_def)

text \<open>A run whose probe raises stops there.\<close>

lemma raising_probe_triple:
  assumes "\<And>w. \<exists>e. fst (ce_probe env w) = Inl e"
  shows "triple (\<lambda>t. file_view (4 + extra) name t = v \<and> sent_log t = a) (deadman_run (4 + extra) name env)
    (\<lambda>_ _. False) (\<lambda>_ t. file_view (4 + extra) name t = v \<and> sent_log t = a)"
proof -
  have probe: "triple (\<lambda>t. file_view (4 + extra) name t = v \<and> sent_log t = a \<and> v = Inr x) (on_snd (on_snd (ce_probe env)))
    (\<lambda>_ _. False) (\<lambda>_ t. file_view (4 + extra) name t = v \<and> sent_log t = a)" for x
  proof (rule tripleI)
    fix t outcome t'
    assume "on_snd (on_snd (ce_probe env)) t = (Inr outcome, t')"
    moreover obtain d sent w where "t = (d, sent, w)" by (rule prod_cases3)
    ultimately show False using assms [of w] by simp
  qed auto
  show ?thesis
    unfolding deadman_run_def run_deadman_cycle_def
    by (rule triple_bind [OF state_file.load_law triple_bind [OF probe]]) (simp add: triple_def)
qed

lemma raising_probe_run:
  assumes "\<And>w. \<exists>e. fst (ce_probe env w) = Inl e"
  shows "\<exists>e. fst (deadman_run (4 + extra) name env t) = Inl e"
    "file_view (4 + extra) name (snd (deadman_run (4 + extra) name env t)) = file_view (4 + extra) name t"
    "sent_log (snd (deadman_run (4 + extra) name env t)) = sent_log t"
proof -
  obtain r t' where run: "deadman_run (4 + extra) name env t = (r, t')" by (rule prod.exhaust)
  note triple = raising_probe_triple [OF assms, of extra name "file_view (4 + extra) name t" "sent_log t"]
  show "\<exists>e. fst (deadman_run (4 + extra) name env t) = Inl e"
    using triple_Inr [OF triple, of t] run by (cases r) auto
  then show "file_view (4 + extra) name (snd (deadman_run (4 + extra) name env t)) = file_view (4 + extra) name t"
    "sent_log (snd (deadman_run (4 + extra) name env t)) = sent_log t"
    using triple_Inl [OF triple, of t] run by auto
qed

definition answers_malformed :: "'w urllib \<Rightarrow> bool" where
  "answers_malformed ul \<longleftrightarrow>
     (\<forall>request timeout w. \<exists>answer w'. ul_exchange ul request timeout w = (Inr answer, w') \<and> malformed_redirect answer)"

text \<open>C28: one answer blinds the dead-man: while its target answers with a redirect whose \<open>Location\<close> has an
  unbalanced bracket, which is no healthy signature, every run ends with an exception, and the state
  file and the alerts delivered stay what they were after any number of runs: no failure is ever
  counted, so the target is never reported down.\<close>

theorem malformed_redirect_blinds_the_deadman:
  assumes "answers_malformed ul"
    and "\<forall>env \<in> set envs. ce_probe env = probe (pb_opener (dead_man_prober_init ul settings None)) settings"
  shows "file_view (4 + extra) name (after_runs (4 + extra) name envs t) = file_view (4 + extra) name t \<and>
    sent_log (after_runs (4 + extra) name envs t) = sent_log t \<and>
    (\<forall>i < length envs. \<exists>e. fst (deadman_run (4 + extra) name (envs ! i)
      (after_runs (4 + extra) name (take i envs) t)) = Inl e)"
proof -
  have raising: "\<exists>e. fst (ce_probe env w) = Inl e" if "env \<in> set envs" for env w
    using assms that malformed_redirect_escapes unfolding answers_malformed_def by (metis fst_conv)
  show ?thesis
    using raising
  proof (induction envs arbitrary: t)
    case (Cons env envs)
    note run = raising_probe_run [OF Cons.prems [of env], simplified, of extra name t]
    show ?case
      using Cons.IH [of "snd (deadman_run (4 + extra) name env t)"] Cons.prems run
      by (auto simp: after_runs_def nth_Cons' take_Cons' less_Suc_eq_0_disj)
  qed (simp add: after_runs_def)
qed

definition hostile_urllib :: "unit urllib" where
  "hostile_urllib =
     \<lparr>ul_exchange = (\<lambda>_ _. return_io \<lparr>an_code = 302, an_location = Some ''https://['',
        an_response = \<lparr>rs_status = return_io 302, rs_get_all = (\<lambda>_. return_io None), rs_read = (\<lambda>_. return_io []),
          rs_close = return_io ()\<rparr>\<rparr>),
      ul_bracket_ok = (\<lambda>_. False), ul_join = (\<lambda>_ _. Inl ValueError), ul_follow = (\<lambda>_ _. lift_io (Inl OSError))\<rparr>"

definition blinded_env :: "unit cycle_env" where
  "blinded_env = steady_env\<lparr>ce_probe :=
     probe (pb_opener (dead_man_prober_init hostile_urllib \<lparr>ps_url = ''https://a/'', ps_timeout_seconds = PInt 10\<rparr> None))
       \<lparr>ps_url = ''https://a/'', ps_timeout_seconds = PInt 10\<rparr>\<rparr>"

theorem malformed_redirect_blinds_the_deadman_witness:
  "stored 4 ''state'' (fst (after_runs 4 ''state'' [blinded_env, blinded_env, blinded_env] (Map.empty, [], ()))) =
      Inr initial_status \<and>
   sent_log (after_runs 4 ''state'' [blinded_env, blinded_env, blinded_env] (Map.empty, [], ())) = []"
proof -
  have "answers_malformed hostile_urllib"
    by (simp add: answers_malformed_def hostile_urllib_def malformed_redirect_def redirect_codes_def)
  from malformed_redirect_blinds_the_deadman [OF this, of "[blinded_env, blinded_env, blinded_env]"
      "\<lparr>ps_url = ''https://a/'', ps_timeout_seconds = PInt 10\<rparr>" 0 "''state''" "(Map.empty, [], ())"]
  show ?thesis by (simp add: blinded_env_def stored_def)
qed

end
