(* ===== verification/Schema.thy ===== *)
theory Schema
  imports Io_Hoare Py_Http
begin

text \<open>
  \<open>persistence/schema.py\<close>: the fail-closed bootstrap of the SQLite schema.  A database is its
  \<open>user_version\<close> and its catalogue of tables, views and indexes; a connection adds the snapshot
  of an open transaction.  Names are compared as SQLite does, without regard to ASCII case, except
  where the program compares them itself.  Whether a statement fails for outside reasons (a locked
  file, a full disk) is the parameter \<open>fault\<close>.
\<close>

section \<open>Catalogue and connection\<close>

record column =
  cl_name :: string
  cl_type :: string
  cl_notnull :: int
  cl_pk :: int

text \<open>An index knows its table and its key columns; a key that is an expression has no name.\<close>

datatype catalogue_object =
    TableObject "column list"
  | ViewObject "column list"
  | IndexObject string "string option list"

record schema =
  sc_version :: int
  sc_objects :: "(string \<times> catalogue_object) list"

record connection =
  cx_schema :: schema
  cx_before :: "schema option"

definition sqlite_error :: exn where "sqlite_error = ForeignException 1"

definition same_name :: "string \<Rightarrow> string \<Rightarrow> bool" where
  "same_name a b \<longleftrightarrow> map ascii_lower a = map ascii_lower b"

fun is_index :: "catalogue_object \<Rightarrow> bool" where
  "is_index (IndexObject _ _) = True"
| "is_index _ = False"

fun is_table :: "catalogue_object \<Rightarrow> bool" where
  "is_table (TableObject _) = True"
| "is_table _ = False"

definition find_relation :: "string \<Rightarrow> schema \<Rightarrow> (string \<times> catalogue_object) option" where
  "find_relation name s = find (\<lambda>(n, obj). same_name n name \<and> \<not> is_index obj) (sc_objects s)"

definition find_index :: "string \<Rightarrow> schema \<Rightarrow> (string \<times> catalogue_object) option" where
  "find_index name s = find (\<lambda>(n, obj). same_name n name \<and> is_index obj) (sc_objects s)"

section \<open>Constants\<close>

definition schema_version_1 :: int where "schema_version_1 = 1"

definition table_name :: string where "table_name = ''heartbeat_observation''"

definition index_name :: string where "index_name = ''idx_heartbeat_node_received''"

definition real_column :: "string \<Rightarrow> column" where
  "real_column n = \<lparr>cl_name = n, cl_type = ''REAL'', cl_notnull = 1, cl_pk = 0\<rparr>"

definition text_column :: "string \<Rightarrow> column" where
  "text_column n = \<lparr>cl_name = n, cl_type = ''TEXT'', cl_notnull = 1, cl_pk = 0\<rparr>"

definition canonical_columns :: "column list" where
  "canonical_columns =
     [\<lparr>cl_name = ''id'', cl_type = ''INTEGER'', cl_notnull = 0, cl_pk = 1\<rparr>,
      text_column ''node'', text_column ''reported_at'', text_column ''received_at'',
      real_column ''uptime_seconds'', real_column ''load_one'', real_column ''load_five'',
      real_column ''load_fifteen'', real_column ''cpu_percent'', real_column ''ram_used'',
      real_column ''ram_total'', real_column ''ram_percent'', real_column ''swap_used'',
      real_column ''swap_total'', real_column ''swap_percent'', real_column ''root_fs_used'',
      real_column ''root_fs_total'', real_column ''root_fs_percent'', real_column ''root_inode_used'',
      real_column ''root_inode_total'', real_column ''root_inode_percent'']"

text \<open>The columns the \<open>CREATE TABLE\<close> statement declares, as \<open>PRAGMA table_info\<close> reports them.\<close>

definition create_heartbeat_table :: "column list" where
  "create_heartbeat_table =
     [\<lparr>cl_name = ''id'', cl_type = ''INTEGER'', cl_notnull = 0, cl_pk = 1\<rparr>] @
     map text_column [''node'', ''reported_at'', ''received_at''] @
     map real_column [''uptime_seconds'', ''load_one'', ''load_five'', ''load_fifteen'', ''cpu_percent'',
       ''ram_used'', ''ram_total'', ''ram_percent'', ''swap_used'', ''swap_total'', ''swap_percent'',
       ''root_fs_used'', ''root_fs_total'', ''root_fs_percent'', ''root_inode_used'', ''root_inode_total'',
       ''root_inode_percent'']"

definition canonical_index_columns :: "string list" where
  "canonical_index_columns = [''node'', ''received_at'', ''id'']"

section \<open>Statements\<close>

datatype sql =
    ReadUserVersion | CountTable | TableInfo | IndexList | IndexInfo
  | Begin | CreateTable | CreateIndex | SetUserVersion | Commit | Rollback
  | OpenDatabase | CloseDatabase

definition run_sql ::
  "(sql \<Rightarrow> ('w, unit) io) \<Rightarrow> sql \<Rightarrow> (connection \<Rightarrow> 'a res \<times> connection) \<Rightarrow> (connection \<times> 'w, 'a) io" where
  "run_sql fault stmt effect cw =
     (case cw of (cx, w) \<Rightarrow> case fault stmt w of
        (Inl e, w') \<Rightarrow> (Inl e, cx, w')
      | (Inr _, w') \<Rightarrow> (case effect cx of (r, cx') \<Rightarrow> (r, cx', w')))"

definition query :: "(schema \<Rightarrow> 'a) \<Rightarrow> connection \<Rightarrow> 'a res \<times> connection" where
  "query f cx = (Inr (f (cx_schema cx)), cx)"

definition sql_begin :: "connection \<Rightarrow> unit res \<times> connection" where
  "sql_begin cx =
     (if cx_before cx \<noteq> None then (Inl sqlite_error, cx)
      else (Inr (), cx\<lparr>cx_before := Some (cx_schema cx)\<rparr>))"

definition sql_commit :: "connection \<Rightarrow> unit res \<times> connection" where
  "sql_commit cx = (Inr (), cx\<lparr>cx_before := None\<rparr>)"

definition sql_rollback :: "connection \<Rightarrow> unit res \<times> connection" where
  "sql_rollback cx =
     (Inr (), case cx_before cx of None \<Rightarrow> cx | Some s \<Rightarrow> \<lparr>cx_schema = s, cx_before = None\<rparr>)"

definition add_object :: "string \<times> catalogue_object \<Rightarrow> connection \<Rightarrow> connection" where
  "add_object new cx =
     cx\<lparr>cx_schema := (cx_schema cx)\<lparr>sc_objects := sc_objects (cx_schema cx) @ [new]\<rparr>\<rparr>"

text \<open>\<open>CREATE TABLE IF NOT EXISTS\<close>: a table or view of that name makes it a no-op.  The
  table \<open>sqlite_sequence\<close> that SQLite itself keeps for \<open>AUTOINCREMENT\<close> is not in the catalogue, as the code never asks for it.\<close>

definition sql_create_table :: "connection \<Rightarrow> unit res \<times> connection" where
  "sql_create_table cx =
     (if find_relation table_name (cx_schema cx) \<noteq> None then (Inr (), cx)
      else if find_index table_name (cx_schema cx) \<noteq> None then (Inl sqlite_error, cx)
      else (Inr (), add_object (table_name, TableObject create_heartbeat_table) cx))"

text \<open>
  \<open>CREATE INDEX IF NOT EXISTS\<close>: the table must exist, a table or view of the index's name is an
  error, an index of that name on any table makes it a no-op, and the columns must exist.
\<close>

definition sql_create_index :: "connection \<Rightarrow> unit res \<times> connection" where
  "sql_create_index cx =
     (case find_relation table_name (cx_schema cx) of
        Some (stored_name, TableObject columns) \<Rightarrow>
          if find_relation index_name (cx_schema cx) \<noteq> None then (Inl sqlite_error, cx)
          else if find_index index_name (cx_schema cx) \<noteq> None then (Inr (), cx)
          else let keys = map (\<lambda>k. find (same_name k) (map cl_name columns)) canonical_index_columns
            in if None \<in> set keys then (Inl sqlite_error, cx)
               else (Inr (), add_object (index_name, IndexObject stored_name keys) cx)
      | _ \<Rightarrow> (Inl sqlite_error, cx))"

definition sql_set_user_version :: "connection \<Rightarrow> unit res \<times> connection" where
  "sql_set_user_version cx =
     (Inr (), cx\<lparr>cx_schema := (cx_schema cx)\<lparr>sc_version := schema_version_1\<rparr>\<rparr>)"

text \<open>What the introspection queries report.\<close>

definition relation_columns :: "catalogue_object \<Rightarrow> column list" where
  "relation_columns obj = (case obj of TableObject cs \<Rightarrow> cs | ViewObject cs \<Rightarrow> cs | _ \<Rightarrow> [])"

definition count_tables :: "schema \<Rightarrow> nat" where
  "count_tables s = length (filter (\<lambda>(n, obj). n = table_name \<and> is_table obj) (sc_objects s))"

definition table_info :: "schema \<Rightarrow> column list" where
  "table_info s = (case find_relation table_name s of None \<Rightarrow> [] | Some (_, obj) \<Rightarrow> relation_columns obj)"

definition index_list :: "schema \<Rightarrow> string list" where
  "index_list s =
     map fst (filter (\<lambda>(n, obj). case obj of IndexObject t _ \<Rightarrow> same_name t table_name | _ \<Rightarrow> False) (sc_objects s))"

definition index_info :: "schema \<Rightarrow> string option list" where
  "index_info s = (case find_index index_name s of Some (_, IndexObject _ keys) \<Rightarrow> keys | _ \<Rightarrow> [])"

section \<open>The program\<close>

definition schema_version :: "(sql \<Rightarrow> ('w, unit) io) \<Rightarrow> (connection \<times> 'w, int) io" where
  "schema_version fault = run_sql fault ReadUserVersion (query sc_version)"

definition heartbeat_table_exists :: "(sql \<Rightarrow> ('w, unit) io) \<Rightarrow> (connection \<times> 'w, bool) io" where
  "heartbeat_table_exists fault =
     bind_io (run_sql fault CountTable (query count_tables)) (\<lambda>n. return_io (n = 1))"

text \<open>\<open>str.upper\<close> on Latin-1; the two letters whose capital lies outside stay as they are, which no
  comparison with an ASCII text notices.\<close>

definition upper_char :: "char \<Rightarrow> string" where
  "upper_char c =
     (let k = (of_char c :: nat) in
      if k = 223 then ''SS''
      else if 97 \<le> k \<and> k \<le> 122 \<or> 224 \<le> k \<and> k \<le> 254 \<and> k \<noteq> 247 then [char_of (k - 32)] else [c])"

definition observed_column :: "column \<Rightarrow> column" where
  "observed_column c = c\<lparr>cl_type := concat (map upper_char (cl_type c))\<rparr>"

definition observed_columns :: "(sql \<Rightarrow> ('w, unit) io) \<Rightarrow> (connection \<times> 'w, column list) io" where
  "observed_columns fault =
     bind_io (run_sql fault TableInfo (query table_info)) (\<lambda>rows. return_io (map observed_column rows))"

definition index_on_table :: "(sql \<Rightarrow> ('w, unit) io) \<Rightarrow> (connection \<times> 'w, bool) io" where
  "index_on_table fault =
     bind_io (run_sql fault IndexList (query index_list)) (\<lambda>rows. return_io (index_name \<in> set rows))"

definition index_column_text :: "string option \<Rightarrow> string" where
  "index_column_text k = (case k of None \<Rightarrow> ''None'' | Some n \<Rightarrow> n)"

definition index_columns :: "(sql \<Rightarrow> ('w, unit) io) \<Rightarrow> (connection \<times> 'w, string list) io" where
  "index_columns fault =
     bind_io (run_sql fault IndexInfo (query index_info)) (\<lambda>rows. return_io (map index_column_text rows))"

definition create_missing :: "(sql \<Rightarrow> ('w, unit) io) \<Rightarrow> bool \<Rightarrow> bool \<Rightarrow> (connection \<times> 'w, unit) io" where
  "create_missing fault table_present index_present =
     bind_io
       (catch_io
         (bind_io (run_sql fault Begin sql_begin) (\<lambda>_.
          bind_io (if \<not> table_present then run_sql fault CreateTable sql_create_table else return_io ()) (\<lambda>_.
          bind_io (if \<not> index_present then run_sql fault CreateIndex sql_create_index else return_io ()) (\<lambda>_.
            run_sql fault SetUserVersion sql_set_user_version))))
         (\<lambda>_. True)
         (\<lambda>e. bind_io (run_sql fault Rollback sql_rollback) (\<lambda>_. lift_io (Inl e)))) (\<lambda>_.
     run_sql fault Commit sql_commit)"

definition initialize_schema :: "(sql \<Rightarrow> ('w, unit) io) \<Rightarrow> (connection \<times> 'w, unit) io" where
  "initialize_schema fault =
     bind_io (schema_version fault) (\<lambda>version.
     if version > schema_version_1 then lift_io (Inl UnsupportedSchemaVersionError) else
     bind_io (heartbeat_table_exists fault) (\<lambda>table_present.
     bind_io
       (if table_present then bind_io (observed_columns fault) (\<lambda>cs. return_io (cs \<noteq> canonical_columns))
        else return_io False) (\<lambda>columns_differ.
     if columns_differ then lift_io (Inl SchemaCompatibilityError) else
     bind_io (if table_present then index_on_table fault else return_io False) (\<lambda>index_present.
     bind_io
       (if index_present then bind_io (index_columns fault) (\<lambda>cs. return_io (cs \<noteq> canonical_index_columns))
        else return_io False) (\<lambda>index_differs.
     if index_differs then lift_io (Inl SchemaCompatibilityError) else
     if version = schema_version_1 then
       (if \<not> table_present \<or> \<not> index_present then lift_io (Inl SchemaCompatibilityError) else return_io ())
     else
       create_missing fault table_present index_present)))))"

text \<open>\<open>repository.connect\<close>, and the bootstrap in the repository's constructor.\<close>

definition connect :: "(sql \<Rightarrow> ('w, unit) io) \<Rightarrow> (connection \<times> 'w, unit) io" where
  "connect fault =
     bind_io (run_sql fault OpenDatabase (\<lambda>cx. (Inr (), cx))) (\<lambda>_.
       catch_io (initialize_schema fault) (\<lambda>_. True)
         (\<lambda>e. bind_io (run_sql fault CloseDatabase sql_rollback) (\<lambda>_. lift_io (Inl e))))"

definition heartbeat_repository_init :: "(sql \<Rightarrow> ('w, unit) io) \<Rightarrow> (connection \<times> 'w, unit) io" where
  "heartbeat_repository_init fault = initialize_schema fault"

section \<open>Atomicity\<close>

text \<open>What another process would read from the file.\<close>

definition durable :: "connection \<Rightarrow> schema" where
  "durable cx = (case cx_before cx of None \<Rightarrow> cx_schema cx | Some s \<Rightarrow> s)"

text \<open>Objects are only added, and only the canonical two.\<close>

definition canonical_object :: "string \<times> catalogue_object \<Rightarrow> bool" where
  "canonical_object x \<longleftrightarrow> x = (table_name, TableObject create_heartbeat_table) \<or>
     fst x = index_name \<and> (\<exists>t keys. snd x = IndexObject t keys \<and> None \<notin> set keys \<and>
       list_all2 (\<lambda>k key. same_name k (the key)) canonical_index_columns keys)"

definition extended :: "schema \<Rightarrow> schema \<Rightarrow> bool" where
  "extended s s' \<longleftrightarrow> sc_version s' = schema_version_1 \<and>
     (\<exists>new. sc_objects s' = sc_objects s @ new \<and> list_all canonical_object new)"

lemma create_heartbeat_table_canonical: "create_heartbeat_table = canonical_columns"
  by (simp add: create_heartbeat_table_def canonical_columns_def)

text \<open>A statement that fails leaves the connection as it was.\<close>

lemma run_sql_triple:
  assumes "\<And>e c'. effect c = (Inl e, c') \<Longrightarrow> c' = c"
  shows "triple (\<lambda>(cx, w). cx = c) (run_sql fault stmt effect) (\<lambda>r (cx, w). effect c = (Inr r, cx))
    (\<lambda>e (cx, w). cx = c)"
  unfolding triple_def run_sql_def by (auto split: prod.splits sum.splits dest: assms)

lemma run_sql_rule:
  assumes "\<And>c r c'. P c \<Longrightarrow> effect c = (Inr r, c') \<Longrightarrow> Q r c'" "\<And>c. P c \<Longrightarrow> E c"
    "\<And>c e c'. effect c = (Inl e, c') \<Longrightarrow> c' = c"
  shows "triple (\<lambda>(cx, w). P cx) (run_sql fault stmt effect) (\<lambda>r (cx, w). Q r cx) (\<lambda>_ (cx, w). E cx)"
proof (rule tripleI)
  fix s r s'
  assume *: "case s of (cx, w) \<Rightarrow> P cx" "run_sql fault stmt effect s = (Inr r, s')"
  then obtain cx w where "s = (cx, w)" "P cx" by (cases s) auto
  with * show "case s' of (cx, w) \<Rightarrow> Q r cx"
    using assms(1) [of cx r] by (auto simp: run_sql_def split: prod.splits sum.splits)
next
  fix s e s'
  assume *: "case s of (cx, w) \<Rightarrow> P cx" "run_sql fault stmt effect s = (Inl e, s')"
  then obtain cx w where "s = (cx, w)" "P cx" by (cases s) auto
  with * show "case s' of (cx, w) \<Rightarrow> E cx"
    using assms(2) [of cx] by (auto simp: run_sql_def split: prod.splits sum.splits dest!: assms(3))
qed

lemma query_triple [intro]:
  "triple (\<lambda>(cx, w). cx = c) (run_sql fault stmt (query f)) (\<lambda>x (cx, w). cx = c \<and> x = f (cx_schema c))
    (\<lambda>e (cx, w). cx = c)"
  by (rule triple_conseq [OF run_sql_triple]) (auto simp: query_def)

lemma failed_statements:
  "sql_create_table c = (Inl e, c') \<Longrightarrow> c' = c" "sql_create_index c = (Inl e, c') \<Longrightarrow> c' = c"
  "sql_begin c = (Inl e, c') \<Longrightarrow> c' = c" "sql_set_user_version c = (Inl e, c') \<Longrightarrow> c' = c"
  "sql_commit c = (Inl e, c') \<Longrightarrow> c' = c" "sql_rollback c = (Inl e, c') \<Longrightarrow> c' = c"
  by (auto simp: sql_create_table_def sql_create_index_def sql_begin_def sql_set_user_version_def sql_commit_def
      sql_rollback_def Let_def split: if_splits option.splits catalogue_object.splits prod.splits)

definition begun :: "schema \<Rightarrow> connection" where
  "begun s = \<lparr>cx_schema = s, cx_before = Some s\<rparr>"

lemma open_snapshot:
  "sql_create_table c = (Inr u, c') \<Longrightarrow> cx_before c' = cx_before c"
  "sql_create_index c = (Inr u, c') \<Longrightarrow> cx_before c' = cx_before c"
  by (auto simp: sql_create_table_def sql_create_index_def add_object_def Let_def
      split: if_splits option.splits catalogue_object.splits prod.splits)

text \<open>The transaction as a relation between the schema before and after.\<close>

definition transaction :: "bool \<Rightarrow> bool \<Rightarrow> schema \<Rightarrow> schema \<Rightarrow> bool" where
  "transaction table_present index_present s s' \<longleftrightarrow>
     (\<exists>c1 c2. (if table_present then c1 = begun s else sql_create_table (begun s) = (Inr (), c1)) \<and>
       (if index_present then c2 = c1 else sql_create_index c1 = (Inr (), c2)) \<and>
       s' = (cx_schema c2)\<lparr>sc_version := schema_version_1\<rparr>)"

lemma create_missing_triple:
  assumes "cx_before c = None"
  shows "triple (\<lambda>(cx, w). cx = c) (create_missing fault p i)
    (\<lambda>_ (cx, w). cx_before cx = None \<and> transaction p i (cx_schema c) (cx_schema cx))
    (\<lambda>_ (cx, w). durable cx = cx_schema c)"
proof -
  let ?s = "cx_schema c"
  let ?E = "\<lambda>cx. cx = c \<or> cx_before cx = Some ?s"
  let ?C1 = "\<lambda>c1. if p then c1 = begun ?s else sql_create_table (begun ?s) = (Inr (), c1)"
  let ?C2 = "\<lambda>c2. \<exists>c1. ?C1 c1 \<and> (if i then c2 = c1 else sql_create_index c1 = (Inr (), c2))"
  let ?C3 = "\<lambda>c3. cx_before c3 = Some ?s \<and> transaction p i ?s (cx_schema c3)"
  have snapshot1: "?C1 c1 \<Longrightarrow> cx_before c1 = Some ?s" for c1
    using open_snapshot(1) [of "begun ?s" "()" c1] by (auto simp: begun_def split: if_splits)
  have snapshot2: "?C2 c2 \<Longrightarrow> cx_before c2 = Some ?s" for c2
    using snapshot1 open_snapshot(2) by (auto split: if_splits)
  have start: "triple (\<lambda>(cx, w). cx = c) (run_sql fault Begin sql_begin)
      (\<lambda>_ (cx, w). cx = begun ?s) (\<lambda>_ (cx, w). ?E cx)"
    by (rule run_sql_rule [OF _ _ failed_statements(3)])
      (use assms in \<open>auto simp: sql_begin_def begun_def split: if_splits\<close>)
  have table: "triple (\<lambda>(cx, w). cx = begun ?s)
      (if \<not> p then run_sql fault CreateTable sql_create_table else return_io ())
      (\<lambda>_ (cx, w). ?C1 cx) (\<lambda>_ (cx, w). ?E cx)"
    by (rule triple_if, rule run_sql_rule [OF _ _ failed_statements(1)])
      (auto simp: begun_def intro: triple_return)
  have index: "triple (\<lambda>(cx, w). ?C1 cx)
      (if \<not> i then run_sql fault CreateIndex sql_create_index else return_io ())
      (\<lambda>_ (cx, w). ?C2 cx) (\<lambda>_ (cx, w). ?E cx)"
    by (rule triple_if, rule run_sql_rule [OF _ _ failed_statements(2)])
      (auto dest: snapshot1 intro: triple_return)
  have version: "triple (\<lambda>(cx, w). ?C2 cx) (run_sql fault SetUserVersion sql_set_user_version)
      (\<lambda>_ (cx, w). ?C3 cx) (\<lambda>_ (cx, w). ?E cx)"
  proof (rule run_sql_rule [OF _ _ failed_statements(4)])
    show "?C2 c2 \<Longrightarrow> ?E c2" for c2 using snapshot2 by blast
    fix c2 r c3
    assume c2: "?C2 c2" and set: "sql_set_user_version c2 = (Inr r, c3)"
    then obtain c1 where c1: "?C1 c1" "if i then c2 = c1 else sql_create_index c1 = (Inr (), c2)" by blast
    have "transaction p i ?s ((cx_schema c2)\<lparr>sc_version := schema_version_1\<rparr>)"
      unfolding transaction_def by (rule exI, rule exI, rule conjI [OF c1(1) conjI [OF c1(2) refl]])
    then show "?C3 c3" using snapshot2 [OF c2] set by (auto simp: sql_set_user_version_def)
  qed
  have undo: "triple (\<lambda>(cx, w). ?E cx) (bind_io (run_sql fault Rollback sql_rollback) (\<lambda>_. lift_io (Inl e)))
      (\<lambda>_ (cx, w). ?C3 cx) (\<lambda>_ (cx, w). durable cx = ?s)" for e
    by (rule triple_bind [OF run_sql_rule [where Q = "\<lambda>_ cx. durable cx = ?s", OF _ _ failed_statements(6)]])
      (use assms in \<open>auto simp: sql_rollback_def durable_def intro!: triple_lift\<close>)
  have commit: "triple (\<lambda>(cx, w). ?C3 cx) (run_sql fault Commit sql_commit)
      (\<lambda>_ (cx, w). cx_before cx = None \<and> transaction p i ?s (cx_schema cx)) (\<lambda>_ (cx, w). durable cx = ?s)"
    by (rule run_sql_rule [OF _ _ failed_statements(5)]) (auto simp: sql_commit_def durable_def)
  show ?thesis
    unfolding create_missing_def
    by (rule triple_bind [OF triple_catch [OF triple_bind [OF start triple_bind [OF table
            triple_bind [OF index version]]] undo] commit]) simp
qed

section \<open>Validation\<close>

text \<open>An operation that only reads, and what it returns.\<close>

definition reads :: "connection \<Rightarrow> (connection \<times> 'w, 'a) io \<Rightarrow> 'a \<Rightarrow> bool" where
  "reads c m v \<longleftrightarrow> triple (\<lambda>(cx, w). cx = c) m (\<lambda>x (cx, w). cx = c \<and> x = v) (\<lambda>_ (cx, w). cx = c)"

lemma reads_query [intro]: "reads c (run_sql fault stmt (query f)) (f (cx_schema c))"
  unfolding reads_def by (rule query_triple)

lemma reads_return [intro]: "reads c (return_io v) v"
  unfolding reads_def by (rule triple_return) auto

lemma reads_triple_bind:
  assumes "reads c m v" "triple (\<lambda>(cx, w). cx = c) (f v) Q E" "\<And>e w. E e (c, w)"
  shows "triple (\<lambda>(cx, w). cx = c) (bind_io m f) Q E"
proof (rule triple_bind_pre [OF assms(1) [unfolded reads_def]])
  show "triple (\<lambda>(cx, w). cx = c \<and> x = v) (f x) Q E" for x
  proof (cases "x = v")
    case True
    then show ?thesis using assms(2) by simp
  next
    case False
    then show ?thesis by (simp add: triple_def split_beta)
  qed
qed (use assms(3) in auto)

lemma reads_bind: "reads c m v \<Longrightarrow> reads c (f v) u \<Longrightarrow> reads c (bind_io m f) u"
  unfolding reads_def [of c "bind_io m f"] by (rule reads_triple_bind) (simp_all add: reads_def)

definition table_present :: "schema \<Rightarrow> bool" where
  "table_present s \<longleftrightarrow> count_tables s = 1"

definition index_present :: "schema \<Rightarrow> bool" where
  "index_present s \<longleftrightarrow> table_present s \<and> index_name \<in> set (index_list s)"

definition compatible :: "schema \<Rightarrow> bool" where
  "compatible s \<longleftrightarrow>
     (table_present s \<longrightarrow> map observed_column (table_info s) = canonical_columns) \<and>
     (index_present s \<longrightarrow> map index_column_text (index_info s) = canonical_index_columns)"

definition accepted :: "schema \<Rightarrow> bool" where
  "accepted s \<longleftrightarrow> sc_version s = schema_version_1 \<and> index_present s \<and> compatible s"

lemma program_reads:
  "reads c (schema_version fault) (sc_version (cx_schema c))"
  "reads c (heartbeat_table_exists fault) (table_present (cx_schema c))"
  "reads c (if table_present (cx_schema c)
     then bind_io (observed_columns fault) (\<lambda>cs. return_io (cs \<noteq> canonical_columns)) else return_io False)
     (table_present (cx_schema c) \<and> map observed_column (table_info (cx_schema c)) \<noteq> canonical_columns)"
  "reads c (if table_present (cx_schema c) then index_on_table fault else return_io False) (index_present (cx_schema c))"
  "reads c (if index_present (cx_schema c)
     then bind_io (index_columns fault) (\<lambda>cs. return_io (cs \<noteq> canonical_index_columns)) else return_io False)
     (index_present (cx_schema c) \<and> map index_column_text (index_info (cx_schema c)) \<noteq> canonical_index_columns)"
  unfolding schema_version_def heartbeat_table_exists_def table_present_def [symmetric] observed_columns_def
    index_on_table_def index_columns_def
  by (auto simp: index_present_def table_present_def intro!: reads_bind [OF reads_query] reads_bind [OF reads_bind [OF reads_query reads_return]]
      intro: reads_return)

lemma initialize_schema_triple:
  assumes "cx_before c = None"
  shows "triple (\<lambda>(cx, w). cx = c) (initialize_schema fault)
    (\<lambda>_ (cx, w). cx_before cx = None \<and>
      (accepted (cx_schema c) \<and> cx = c \<or>
       sc_version (cx_schema c) < schema_version_1 \<and> compatible (cx_schema c) \<and>
       transaction (table_present (cx_schema c)) (index_present (cx_schema c)) (cx_schema c) (cx_schema cx)))
    (\<lambda>_ (cx, w). durable cx = cx_schema c)"
proof -
  have same: "durable c = cx_schema c" using assms by (simp add: durable_def)
  have raise: "triple (\<lambda>(cx, w). cx = c) (lift_io (Inl e)) Q (\<lambda>_ (cx, w). durable cx = cx_schema c)" for e Q
    using same by (auto intro!: triple_lift)
  show ?thesis
    unfolding initialize_schema_def
    apply (rule reads_triple_bind [OF program_reads(1)], rule triple_if, rule raise)
     apply (rule reads_triple_bind [OF program_reads(2)])
      apply (rule reads_triple_bind [OF program_reads(3)], rule triple_if, rule raise)
       apply (rule reads_triple_bind [OF program_reads(4)])
        apply (rule reads_triple_bind [OF program_reads(5)], rule triple_if, rule raise)
         apply (rule triple_if, rule triple_if, rule raise)
          apply (rule triple_return, use assms in \<open>auto simp: accepted_def compatible_def index_present_def\<close>)[1]
         apply (rule triple_conseq [OF create_missing_triple [OF assms]])
           apply (use same in \<open>auto simp: compatible_def\<close>)
    done
qed

section \<open>What a transaction builds\<close>

lemma find_app: "find P (xs @ ys) = (case find P xs of None \<Rightarrow> find P ys | Some x \<Rightarrow> Some x)"
  by (induction xs) auto

lemma sql_create_table_cases:
  "sql_create_table c = (Inr u, c') \<Longrightarrow> c' = c \<and> find_relation table_name (cx_schema c) \<noteq> None \<or>
    c' = add_object (table_name, TableObject create_heartbeat_table) c \<and>
    find_relation table_name (cx_schema c) = None"
  by (cases "find_relation table_name (cx_schema c)") (auto simp: sql_create_table_def split: if_splits)

lemma sql_create_index_cases:
  "sql_create_index c = (Inr u, c') \<Longrightarrow> c' = c \<and> find_index index_name (cx_schema c) \<noteq> None \<or>
    (\<exists>stored columns keys. find_relation table_name (cx_schema c) = Some (stored, TableObject columns) \<and>
      keys = map (\<lambda>k. find (same_name k) (map cl_name columns)) canonical_index_columns \<and> None \<notin> set keys \<and>
      c' = add_object (index_name, IndexObject stored keys) c)"
  by (auto simp: sql_create_index_def Let_def split: if_splits option.splits catalogue_object.splits)

lemma index_object_canonical:
  assumes "keys = map (\<lambda>k. find (same_name k) names) canonical_index_columns" "None \<notin> set keys"
  shows "canonical_object (index_name, IndexObject t keys)"
proof -
  have "same_name k (the (find (same_name k) names))" if "k \<in> set canonical_index_columns" for k
  proof (cases "find (same_name k) names")
    case None
    then have "None \<in> set keys" using that assms(1) by (auto simp: image_iff intro!: bexI [of _ k])
    then show ?thesis using assms(2) by contradiction
  next
    case (Some n)
    then show ?thesis using find_SomeD [OF Some] by simp
  qed
  then show ?thesis
    using assms by (simp add: canonical_object_def list_all2_conv_all_nth)
qed

lemma transaction_extended: "transaction p i s s' \<Longrightarrow> extended s s'"
proof -
  assume "transaction p i s s'"
  then obtain c1 c2 where c1: "if p then c1 = begun s else sql_create_table (begun s) = (Inr (), c1)"
    and c2: "if i then c2 = c1 else sql_create_index c1 = (Inr (), c2)"
    and s': "s' = (cx_schema c2)\<lparr>sc_version := schema_version_1\<rparr>"
    unfolding transaction_def by blast
  have "\<exists>new. sc_objects (cx_schema c1) = sc_objects s @ new \<and> list_all canonical_object new"
    using c1 by (auto simp: begun_def add_object_def canonical_object_def split: if_splits dest!: sql_create_table_cases)
  moreover have "\<exists>new. sc_objects (cx_schema c2) = sc_objects (cx_schema c1) @ new \<and> list_all canonical_object new"
    using c2 by (auto simp: add_object_def split: if_splits dest!: sql_create_index_cases
        intro!: index_object_canonical [OF refl])
  ultimately show ?thesis unfolding extended_def s' by force
qed

text \<open>
  A catalogue as SQLite keeps it (one object per name, indexes on existing tables) in which the two
  canonical names are either free or used for their purpose.
\<close>

definition wf_catalogue :: "schema \<Rightarrow> bool" where
  "wf_catalogue s \<longleftrightarrow> distinct (map (map ascii_lower \<circ> fst) (sc_objects s)) \<and>
     (\<forall>(n, obj) \<in> set (sc_objects s). case obj of
        IndexObject t _ \<Rightarrow> list_ex (\<lambda>(m, table). same_name m t \<and> is_table table) (sc_objects s) | _ \<Rightarrow> True)"

definition names_free :: "schema \<Rightarrow> bool" where
  "names_free s \<longleftrightarrow> (\<forall>(n, obj) \<in> set (sc_objects s).
     (same_name n table_name \<longrightarrow> n = table_name \<and> is_table obj) \<and>
     (same_name n index_name \<longrightarrow> n = index_name \<and>
       (case obj of IndexObject t _ \<Rightarrow> same_name t table_name | _ \<Rightarrow> False)))"

lemma same_name_refl [simp]: "same_name n n"
  by (simp add: same_name_def)

lemma canonical_names_differ [simp]: "\<not> same_name table_name index_name" "\<not> same_name index_name table_name"
    "table_name \<noteq> index_name" "index_name \<noteq> table_name"
  by code_simp+

lemma canonical_observed [simp]: "map observed_column create_heartbeat_table = canonical_columns"
  by code_simp

lemma canonical_keys [simp]:
  "map (\<lambda>k. find (same_name k) (map cl_name canonical_columns)) canonical_index_columns = map Some canonical_index_columns"
  by code_simp

lemma index_column_text_Some [simp]: "index_column_text (Some k) = k" "map (index_column_text \<circ> Some) ks = ks"
  by (simp_all add: index_column_text_def comp_def)

lemma no_table:
  assumes "wf_catalogue s" "names_free s" "\<not> table_present s" "(n, obj) \<in> set (sc_objects s)"
  shows "\<not> same_name n table_name"
proof
  assume same: "same_name n table_name"
  then have n: "n = table_name" "is_table obj" using assms(2,4) by (auto simp: names_free_def)
  obtain as bs where objs: "sc_objects s = as @ (n, obj) # bs" using assms(4) by (meson split_list)
  have "m \<noteq> table_name" if "(m, other) \<in> set as \<union> set bs" for m other
    using that assms(1) unfolding wf_catalogue_def objs n(1) by (auto simp: image_iff)
  then have "filter (\<lambda>(n, obj). n = table_name \<and> is_table obj) as = []"
    "filter (\<lambda>(n, obj). n = table_name \<and> is_table obj) bs = []" by (auto simp: filter_empty_conv)
  then have "table_present s" using n by (simp add: table_present_def count_tables_def objs)
  then show False using assms(3) by contradiction
qed

lemma wf_indexed:
  assumes "wf_catalogue s" "(n, IndexObject t keys) \<in> set (sc_objects s)"
  shows "\<exists>m table. (m, table) \<in> set (sc_objects s) \<and> same_name m t"
proof -
  have "list_ex (\<lambda>(m, table). same_name m t \<and> is_table table) (sc_objects s)"
    using assms unfolding wf_catalogue_def by force
  then show ?thesis by (auto simp: list_ex_iff)
qed

lemma no_index:
  assumes "wf_catalogue s" "names_free s" "\<not> index_present s" "(n, obj) \<in> set (sc_objects s)"
  shows "\<not> same_name n index_name"
proof
  assume same: "same_name n index_name"
  then obtain t keys where n: "n = index_name" "obj = IndexObject t keys" "same_name t table_name"
    using bspec [OF assms(2) [unfolded names_free_def] assms(4)] by (cases obj) auto
  obtain m table where table: "(m, table) \<in> set (sc_objects s)" "same_name m t"
    using wf_indexed [OF assms(1)] assms(4) n by blast
  then have "same_name m table_name" using n(3) by (simp add: same_name_def)
  then have "table_present s" using no_table [OF assms(1,2) _ table(1)] by blast
  moreover have "index_name \<in> set (index_list s)" using assms(4) n by (force simp: index_list_def)
  ultimately show False using assms(3) by (simp add: index_present_def)
qed

lemma find_none: "(\<And>n obj. (n, obj) \<in> set (sc_objects s) \<Longrightarrow> \<not> same_name n name) \<Longrightarrow>
    find_relation name s = None \<and> find_index name s = None"
  by (auto simp: find_relation_def find_index_def find_None_iff)

lemma find_table:
  assumes "names_free s" "table_present s"
  shows "\<exists>columns. find_relation table_name s = Some (table_name, TableObject columns)"
proof -
  have "filter (\<lambda>(n, obj). n = table_name \<and> is_table obj) (sc_objects s) \<noteq> []"
    using assms(2) by (auto simp: table_present_def count_tables_def)
  then obtain obj where obj: "(table_name, obj) \<in> set (sc_objects s)" "is_table obj"
    by (auto simp: filter_empty_conv)
  then have "find_relation table_name s \<noteq> None"
    by (cases obj) (auto simp: find_relation_def find_None_iff intro!: exI [of _ table_name] exI [of _ obj])
  then obtain n other where *: "find_relation table_name s = Some (n, other)" by (cases "find_relation table_name s") auto
  then have "(n, other) \<in> set (sc_objects s)" "same_name n table_name"
    unfolding find_relation_def by (auto dest: find_SomeD)
  then have "n = table_name" "is_table other" using assms(1) by (auto simp: names_free_def)
  then show ?thesis using * by (cases other) auto
qed

lemma version_irrelevant [simp]:
  "table_present (s\<lparr>sc_version := v\<rparr>) = table_present s" "table_info (s\<lparr>sc_version := v\<rparr>) = table_info s"
  "index_list (s\<lparr>sc_version := v\<rparr>) = index_list s" "index_info (s\<lparr>sc_version := v\<rparr>) = index_info s"
  "find_relation name (s\<lparr>sc_version := v\<rparr>) = find_relation name s"
  "find_index name (s\<lparr>sc_version := v\<rparr>) = find_index name s"
  by (simp_all add: table_present_def count_tables_def table_info_def index_list_def index_info_def find_relation_def
      find_index_def)

definition with_table :: "schema \<Rightarrow> schema" where
  "with_table s = s\<lparr>sc_objects := sc_objects s @ [(table_name, TableObject create_heartbeat_table)]\<rparr>"

definition with_index :: "schema \<Rightarrow> schema" where
  "with_index s = s\<lparr>sc_objects := sc_objects s @ [(index_name, IndexObject table_name (map Some canonical_index_columns))]\<rparr>"

lemma with_table_facts:
  assumes "find_relation table_name s = None"
  shows "table_present (with_table s)" "find_relation table_name (with_table s) = Some (table_name, TableObject create_heartbeat_table)"
    "table_info (with_table s) = create_heartbeat_table"
    "find_index index_name (with_table s) = find_index index_name s"
    "find_relation index_name (with_table s) = find_relation index_name s"
proof -
  have "\<not> (n = table_name \<and> is_table obj)" if "(n, obj) \<in> set (sc_objects s)" for n obj
    using assms that by (cases obj) (force simp: find_relation_def find_None_iff)+
  then have "filter (\<lambda>(n, obj). n = table_name \<and> is_table obj) (sc_objects s) = []"
    by (auto simp: filter_empty_conv)
  then show "table_present (with_table s)" by (simp add: table_present_def count_tables_def with_table_def)
  show relation: "find_relation table_name (with_table s) = Some (table_name, TableObject create_heartbeat_table)"
    using assms by (simp add: find_relation_def with_table_def find_app)
  then show "table_info (with_table s) = create_heartbeat_table"
    by (simp add: table_info_def relation_columns_def)
  show "find_index index_name (with_table s) = find_index index_name s"
    "find_relation index_name (with_table s) = find_relation index_name s"
    by (simp_all add: find_index_def find_relation_def with_table_def find_app split: option.splits)
qed

lemma with_index_facts:
  assumes "find_index index_name s = None"
  shows "table_present (with_index s) = table_present s" "table_info (with_index s) = table_info s"
    "index_name \<in> set (index_list (with_index s))"
    "map index_column_text (index_info (with_index s)) = canonical_index_columns"
proof -
  show "table_present (with_index s) = table_present s"
    by (simp add: table_present_def count_tables_def with_index_def)
  show "table_info (with_index s) = table_info s"
    by (simp add: table_info_def find_relation_def with_index_def find_app split: option.splits)
  show "index_name \<in> set (index_list (with_index s))"
    by (simp add: index_list_def with_index_def)
  show "map index_column_text (index_info (with_index s)) = canonical_index_columns"
    using assms by (simp add: index_info_def find_index_def with_index_def find_app)
qed

lemma accepted_with_index:
  assumes "find_index index_name s = None" "table_present s" "map observed_column (table_info s) = canonical_columns"
  shows "accepted ((with_index s)\<lparr>sc_version := schema_version_1\<rparr>)"
  using with_index_facts [OF assms(1)] assms(2,3) by (simp add: accepted_def compatible_def index_present_def)

lemma observed_names: "map cl_name (map observed_column cs) = map cl_name cs"
  by (simp add: observed_column_def)

lemma create_index_result:
  assumes "find_relation table_name (cx_schema c) = Some (table_name, TableObject columns)"
    "map observed_column columns = canonical_columns"
    "find_relation index_name (cx_schema c) = None" "find_index index_name (cx_schema c) = None"
  shows "sql_create_index c = (Inr (), c\<lparr>cx_schema := with_index (cx_schema c)\<rparr>)"
proof -
  have "map cl_name columns = map cl_name canonical_columns" using observed_names [of columns] assms(2) by simp
  then have keys: "map (\<lambda>k. find (same_name k) (map cl_name columns)) canonical_index_columns = map Some canonical_index_columns"
    by simp
  show ?thesis unfolding sql_create_index_def assms(1) option.case prod.case catalogue_object.case keys
    using assms(3,4) by (auto simp: add_object_def with_index_def)
qed

lemma transaction_accepted:
  assumes wf: "wf_catalogue s" "names_free s" and compat: "compatible s"
    and t: "transaction (table_present s) (index_present s) s s'"
  shows "accepted s'"
proof -
  obtain c1 c2 where c1: "if table_present s then c1 = begun s else sql_create_table (begun s) = (Inr (), c1)"
    and c2: "if index_present s then c2 = c1 else sql_create_index c1 = (Inr (), c2)"
    and s': "s' = (cx_schema c2)\<lparr>sc_version := schema_version_1\<rparr>"
    using t unfolding transaction_def by blast
  show ?thesis
  proof (cases "index_present s")
    case True
    then have "s' = s\<lparr>sc_version := schema_version_1\<rparr>"
      using c1 c2 s' by (simp add: index_present_def begun_def)
    then show ?thesis using True compat by (simp add: accepted_def compatible_def index_present_def)
  next
    case False
    have free: "find_relation index_name s = None" "find_index index_name s = None"
      using find_none [of s index_name] no_index [OF wf False] by blast+
    show ?thesis
    proof (cases "table_present s")
      case True
      then obtain columns where columns: "find_relation table_name s = Some (table_name, TableObject columns)"
        using find_table [OF wf(2)] by blast
      then have observed: "map observed_column columns = canonical_columns"
        using compat True by (simp add: compatible_def table_info_def relation_columns_def)
      have "sql_create_index (begun s) = (Inr (), (begun s)\<lparr>cx_schema := with_index s\<rparr>)"
        using create_index_result [of "begun s" columns] columns observed free by (simp add: begun_def)
      then have "s' = (with_index s)\<lparr>sc_version := schema_version_1\<rparr>"
        using c1 c2 s' True False by auto
      then show ?thesis
        using accepted_with_index [OF free(2) True] compat True by (simp add: compatible_def)
    next
      case False
      then have free_table: "find_relation table_name s = None" "find_index table_name s = None"
        using find_none [of s table_name] no_table [OF wf False] by blast+
      then have c1': "c1 = (begun s)\<lparr>cx_schema := with_table s\<rparr>"
        using c1 False by (simp add: sql_create_table_def begun_def add_object_def with_table_def)
      note facts = with_table_facts [OF free_table(1)]
      have "sql_create_index c1 = (Inr (), c1\<lparr>cx_schema := with_index (with_table s)\<rparr>)"
        using create_index_result [of c1 create_heartbeat_table] facts free by (simp add: c1')
      then have "s' = (with_index (with_table s))\<lparr>sc_version := schema_version_1\<rparr>"
        using c2 s' \<open>\<not> index_present s\<close> by auto
      then show ?thesis
        using accepted_with_index [of "with_table s"] facts free by simp
    qed
  qed
qed

section \<open>The properties\<close>

lemma initialize_schema_outcome:
  assumes "cx_before c = None" "initialize_schema fault (c, w) = (r, c', w')"
  shows "case r of Inr _ \<Rightarrow> cx_before c' = None \<and>
      (accepted (cx_schema c) \<and> c' = c \<or>
       sc_version (cx_schema c) < schema_version_1 \<and> compatible (cx_schema c) \<and>
       transaction (table_present (cx_schema c)) (index_present (cx_schema c)) (cx_schema c) (cx_schema c'))
    | Inl _ \<Rightarrow> durable c' = cx_schema c"
  using initialize_schema_triple [OF assms(1), of fault] assms(2)
  by (cases r) (fastforce dest: triple_Inr triple_Inl)+

lemma accepted_again:
  assumes "accepted (cx_schema c)" "cx_before c = None" "\<And>stmt w. fault stmt w = (Inr (), w)"
  shows "initialize_schema fault (c, w) = (Inr (), c, w)"
  using assms unfolding accepted_def index_present_def compatible_def table_present_def
  by (simp add: initialize_schema_def schema_version_def heartbeat_table_exists_def observed_columns_def
      index_on_table_def index_columns_def bind_io_def run_sql_def query_def schema_version_1_def)

text \<open>C22: the bootstrap is all or nothing.  If it raises, whatever statement failed, the database file
  is what it was; if it returns, no transaction is open and either an accepted database was left
  alone, or an older one now carries version 1 and has gained at most the canonical table and index.\<close>

theorem bootstrap_is_atomic:
  assumes "cx_before c = None" "initialize_schema fault (c, w) = (r, c', w')"
  shows "case r of
      Inr _ \<Rightarrow> cx_before c' = None \<and>
        (c' = c \<and> accepted (cx_schema c) \<or>
         sc_version (cx_schema c) < schema_version_1 \<and> extended (cx_schema c) (cx_schema c'))
    | Inl _ \<Rightarrow> durable c' = cx_schema c"
  using initialize_schema_outcome [OF assms] transaction_extended by (auto split: sum.splits)

definition fresh_connection :: connection where
  "fresh_connection = \<lparr>cx_schema = \<lparr>sc_version = 0, sc_objects = []\<rparr>, cx_before = None\<rparr>"

text \<open>A disk that is full when the index is created.\<close>

definition full_disk :: "sql \<Rightarrow> (unit, unit) io" where
  "full_disk stmt w = (if stmt = CreateIndex then Inl sqlite_error else Inr (), w)"

definition no_fault :: "sql \<Rightarrow> (unit, unit) io" where
  "no_fault stmt w = (Inr (), w)"

lemma fresh_run:
  "initialize_schema full_disk (fresh_connection, ()) = (Inl sqlite_error, fresh_connection, ())"
  "initialize_schema no_fault (fresh_connection, ()) =
    (Inr (), \<lparr>cx_schema = (with_index (with_table (cx_schema fresh_connection)))\<lparr>sc_version := schema_version_1\<rparr>,
      cx_before = None\<rparr>, ())"
  by code_simp+

theorem bootstrap_is_atomic_witness:
  "durable fresh_connection = cx_schema fresh_connection"
  using bootstrap_is_atomic [OF _ fresh_run(1)] by (simp add: fresh_connection_def)

text \<open>C35: when the two canonical names are free or used for their purpose, a bootstrap that returns has
  made the database one that every later start accepts without writing.\<close>

theorem bootstrap_is_idempotent:
  assumes "wf_catalogue (cx_schema c)" "names_free (cx_schema c)" "cx_before c = None"
    and "initialize_schema fault (c, w) = (Inr (), c', w')"
    and "\<And>stmt w. again stmt w = (Inr (), w)"
  shows "accepted (cx_schema c') \<and> initialize_schema again (c', w2) = (Inr (), c', w2)"
proof -
  have "accepted (cx_schema c')" "cx_before c' = None"
    using initialize_schema_outcome [OF assms(3,4)] transaction_accepted [OF assms(1,2)] by auto
  then show ?thesis using accepted_again [of c' again] assms(5) by blast
qed

theorem bootstrap_is_idempotent_witness:
  "\<exists>c'. initialize_schema no_fault (fresh_connection, ()) = (Inr (), c', ()) \<and>
    initialize_schema no_fault (c', ()) = (Inr (), c', ())"
proof -
  have "wf_catalogue (cx_schema fresh_connection)" "names_free (cx_schema fresh_connection)"
    "cx_before fresh_connection = None"
    by (simp_all add: fresh_connection_def wf_catalogue_def names_free_def)
  from bootstrap_is_idempotent [OF this fresh_run(2), of no_fault "()"] fresh_run(2)
  show ?thesis by (simp add: no_fault_def)
qed

text \<open>
  The condition on the names matters: an index of the canonical name on another table makes
  \<open>CREATE INDEX IF NOT EXISTS\<close> a no-op, the version is stamped, and every later start is refused.
  A negative version is stamped over as if the database were unversioned.
\<close>

definition archive_schema :: schema where
  "archive_schema =
     \<lparr>sc_version = 0, sc_objects =
       [(''archive'', TableObject [text_column ''node'']), (index_name, IndexObject ''archive'' [Some ''node''])]\<rparr>"

theorem foreign_index_bricks_the_database:
  "case initialize_schema no_fault (\<lparr>cx_schema = archive_schema, cx_before = None\<rparr>, ()) of
    (r, c, _) \<Rightarrow> r = Inr () \<and> sc_version (durable c) = 1 \<and>
      fst (initialize_schema no_fault (c, ())) = Inl SchemaCompatibilityError"
  by code_simp

theorem negative_version_is_stamped:
  "fst (initialize_schema no_fault (\<lparr>cx_schema = \<lparr>sc_version = - 5, sc_objects = []\<rparr>, cx_before = None\<rparr>, ())) = Inr ()"
  by code_simp

text \<open>A commit that fails is outside the guarded block: the transaction stays open on the connection.\<close>

theorem failed_commit_leaves_transaction_open:
  "case initialize_schema (\<lambda>stmt w. (if stmt = Commit then Inl sqlite_error else Inr (), w)) (fresh_connection, ()) of
    (r, c, _) \<Rightarrow> r = Inl sqlite_error \<and> cx_before c \<noteq> None \<and> durable c = cx_schema fresh_connection"
  by code_simp

end
