(* ===== verification/Env_Settings.thy ===== *)
theory Env_Settings
  imports Py_Json Py_Text
begin

text \<open>
  What the two settings loaders share: a read-only environment, strict decimal texts and the hand
  over to a validating constructor.  Both modules contain the same helpers with their own error
  class, so the class is an argument here.
\<close>

section \<open>The environment\<close>

datatype env_value = EnvStr string | EnvOther

type_synonym environment = "string \<Rightarrow> env_value option"

text \<open>\<open>dict(env)\<close>: copying the caller's mapping may raise.\<close>

definition take_snapshot :: "exn \<Rightarrow> environment res \<Rightarrow> environment res" where
  "take_snapshot err env = catch_res env is_exception (\<lambda>_. Inl err)"

definition env_required :: "exn \<Rightarrow> environment \<Rightarrow> string \<Rightarrow> string res" where
  "env_required err env variable =
     (case env variable of
        None \<Rightarrow> Inl err
      | Some EnvOther \<Rightarrow> Inl err
      | Some (EnvStr v) \<Rightarrow> if strip v = [] then Inl err else Inr v)"

definition env_optional :: "exn \<Rightarrow> environment \<Rightarrow> string \<Rightarrow> string option res" where
  "env_optional err env variable =
     (case env variable of
        None \<Rightarrow> Inr None
      | Some EnvOther \<Rightarrow> Inl err
      | Some (EnvStr v) \<Rightarrow> Inr (Some v))"

section \<open>Decimal texts\<close>

definition split_sign :: "string \<Rightarrow> bool \<times> string" where
  "split_sign s =
     (case s of
        [] \<Rightarrow> (False, [])
      | c # r \<Rightarrow> if c = CHR ''-'' then (True, r) else if c = CHR ''+'' then (False, r) else (False, s))"

text \<open>\<open>[+-]?[0-9]+\Z\<close>\<close>

definition signed_decimal_integer :: "string \<Rightarrow> bool" where
  "signed_decimal_integer raw =
     (let (neg, ds) = split_sign raw in ds \<noteq> [] \<and> list_all is_digit ds)"

text \<open>\<open>int(raw)\<close> on such a text: CPython refuses more digits than its conversion limit.\<close>

definition int_of_text :: "string \<Rightarrow> int res" where
  "int_of_text raw =
     (let (neg, ds) = split_sign raw in
      if max_int_digits < length ds then Inl ValueError
      else Inr (let n = int (the (num_of 0 ds)) in if neg then - n else n))"

definition env_decimal_int :: "exn \<Rightarrow> string \<Rightarrow> int res" where
  "env_decimal_int err raw =
     (if \<not> signed_decimal_integer raw then Inl err
      else catch_res (int_of_text raw) is_value_error (\<lambda>_. Inl err))"

text \<open>
  \<open>[+-]?(?:[0-9]+(?:\.[0-9]+)?|\.[0-9]+)(?:[eE][+-]?[0-9]+)?\Z\<close> with the value \<open>float\<close> gives such a
  text: the nearest double of the exact decimal.
\<close>

definition decimal_number :: "string \<Rightarrow> pyfloat option" where
  "decimal_number raw =
     (let (neg, s) = split_sign raw; (ip, s1) = digit_run s;
          (fr, s2) = number_fraction s1; (e, s3) = number_exponent s2
      in if (ip = [] \<and> fr = []) \<or> s3 \<noteq> [] then None
         else Some (round64 (number_value neg ip fr (case e of None \<Rightarrow> 0 | Some k \<Rightarrow> k))))"

definition env_decimal_float :: "exn \<Rightarrow> string \<Rightarrow> pyfloat res" where
  "env_decimal_float err raw =
     (case decimal_number raw of
        None \<Rightarrow> Inl err
      | Some v \<Rightarrow> if \<not> flt_isfinite v then Inl err else Inr v)"

definition env_positive_float :: "exn \<Rightarrow> string \<Rightarrow> pyfloat res" where
  "env_positive_float err raw =
     bind_res (env_decimal_float err raw) (\<lambda>v. if flt_le v (Fin 0) then Inl err else Inr v)"

section \<open>Validating constructors\<close>

definition construction_failure :: "exn \<Rightarrow> bool" where
  "construction_failure e \<longleftrightarrow> e = TypeError \<or> is_value_error e \<or> e = OverflowError"

definition env_accepted :: "exn \<Rightarrow> 'a res \<Rightarrow> 'a res" where
  "env_accepted err build = catch_res build construction_failure (\<lambda>_. Inl err)"

section \<open>Facts\<close>

text \<open>A computation whose only exception is the boundary error.\<close>

definition bounded :: "exn \<Rightarrow> 'a res \<Rightarrow> bool" where
  "bounded err m \<longleftrightarrow> (\<forall>e. m = Inl e \<longrightarrow> e = err)"

lemma bounded_simps [simp]: "bounded err (Inr x)" "bounded err (Inl e) \<longleftrightarrow> e = err"
  by (auto simp: bounded_def)

lemma bounded_bind [intro]: "bounded err m \<Longrightarrow> (\<And>x. m = Inr x \<Longrightarrow> bounded err (f x)) \<Longrightarrow> bounded err (bind_res m f)"
  by (cases m) (auto simp: bounded_def)

lemma bounded_env [intro]:
  "bounded err (env_required err env v)" "bounded err (env_optional err env v)"
  "bounded err (env_decimal_int err raw)" "bounded err (env_decimal_float err raw)"
  "bounded err (env_positive_float err raw)"
proof -
  show float: "bounded err (env_decimal_float err raw)"
    by (simp add: env_decimal_float_def split: option.splits)
  show "bounded err (env_positive_float err raw)"
    unfolding env_positive_float_def by (rule bounded_bind [OF float]) auto
  show "bounded err (env_required err env v)" "bounded err (env_optional err env v)"
    by (simp_all add: env_required_def env_optional_def split: option.splits env_value.splits)
  show "bounded err (env_decimal_int err raw)"
    by (auto simp: bounded_def env_decimal_int_def int_of_text_def catch_res_def is_value_error_def Let_def
        split: if_splits prod.splits)
qed

lemma bounded_accepted:
  "(\<And>e. build = Inl e \<Longrightarrow> construction_failure e) \<Longrightarrow> bounded err (env_accepted err build)"
  by (cases build) (auto simp: env_accepted_def catch_res_def bounded_def)

lemma env_accepted_eq_Inr [simp]: "env_accepted err build = Inr x \<longleftrightarrow> build = Inr x"
  by (auto simp: env_accepted_def catch_res_eq_Inr)

lemma env_positive_float_eq_Inr:
  "env_positive_float err raw = Inr v \<Longrightarrow> \<exists>q > 0. v = Fin q"
  by (cases v) (auto simp: env_positive_float_def env_decimal_float_def split: option.splits if_splits)

lemma math_isfinite_error: "math_isfinite v = Inl e \<Longrightarrow> e = OverflowError"
  by (cases v) (auto split: if_splits)

lemma construction_failure_simps [simp]:
  "construction_failure ValueError" "construction_failure OverflowError" "construction_failure TypeError"
  by (simp_all add: construction_failure_def is_value_error_def)

lemma positive_check_error:
  "bind_res (math_isfinite v) (\<lambda>finite. in_order [raise_if (\<not> finite) ValueError, raise_if c ValueError]) = Inl e \<Longrightarrow>
    construction_failure e"
  by (auto simp: bind_res_eq_Inl dest!: in_order_raises math_isfinite_error)

lemma bounded_map_sum [intro]: "bounded err m \<Longrightarrow> bounded err (map_sum id f m)"
  by (cases m) (auto simp: bounded_def)

lemma env_required_eq_Inr: "env_required err env v = Inr x \<Longrightarrow> env v = Some (EnvStr x) \<and> strip x \<noteq> []"
  by (auto simp: env_required_def split: option.splits env_value.splits if_splits)

end
