(* ===== verification/Deadman_Config.thy ===== *)
theory Deadman_Config
  imports Env_Settings Deadman_Probe Deadman_Telegram
begin

text \<open>
  \<open>deadman_config.py\<close>: the dead-man's settings from one environment mapping.  \<open>pathlib.Path(raw)\<close>
  accepts every text and is represented by that text; the state store holds nothing but its path.
\<close>

section \<open>Variables and helpers\<close>

definition dmc_probe_url_var :: string where "dmc_probe_url_var = ''HERMES_SENTINEL_DEADMAN_PROBE_URL''"
definition dmc_state_path_var :: string where "dmc_state_path_var = ''HERMES_SENTINEL_DEADMAN_STATE_PATH''"
definition dmc_bot_token_var :: string where
  "dmc_bot_token_var = ''HERMES_SENTINEL_DEADMAN_TELEGRAM_BOT_TOKEN''"
definition dmc_chat_id_var :: string where "dmc_chat_id_var = ''HERMES_SENTINEL_DEADMAN_TELEGRAM_CHAT_ID''"
definition dmc_thread_id_var :: string where
  "dmc_thread_id_var = ''HERMES_SENTINEL_DEADMAN_TELEGRAM_THREAD_ID''"
definition dmc_probe_timeout_var :: string where
  "dmc_probe_timeout_var = ''HERMES_SENTINEL_DEADMAN_PROBE_TIMEOUT_SECONDS''"
definition dmc_telegram_timeout_var :: string where
  "dmc_telegram_timeout_var = ''HERMES_SENTINEL_DEADMAN_TELEGRAM_TIMEOUT_SECONDS''"

definition dmc_accepted :: "'a res \<Rightarrow> 'a res" where
  "dmc_accepted = env_accepted DeadManSettingsError"

definition dmc_required_non_empty_string :: "environment \<Rightarrow> string \<Rightarrow> string res" where
  "dmc_required_non_empty_string = env_required DeadManSettingsError"

definition dmc_optional_string :: "environment \<Rightarrow> string \<Rightarrow> string option res" where
  "dmc_optional_string = env_optional DeadManSettingsError"

definition dmc_parse_decimal_int :: "string \<Rightarrow> int res" where
  "dmc_parse_decimal_int = env_decimal_int DeadManSettingsError"

definition dmc_parse_positive_float :: "string \<Rightarrow> pyfloat res" where
  "dmc_parse_positive_float = env_positive_float DeadManSettingsError"

section \<open>The loader\<close>

record deadman_runtime_settings =
  drs_probe :: probe_settings
  drs_state_path :: string
  drs_store :: string
  drs_telegram :: dm_telegram_settings

text \<open>\<open>DeadManProbeSettings\<close> and \<open>DeadManTelegramSettings\<close> with their default timeouts.\<close>

definition default_timeout :: pynum where "default_timeout = PFlt (Fin 10)"

definition dmc_load_probe_settings :: "(string \<Rightarrow> bool) \<Rightarrow> environment \<Rightarrow> probe_settings res" where
  "dmc_load_probe_settings bracket_ok env =
     bind_res (dmc_required_non_empty_string env dmc_probe_url_var) (\<lambda>url.
     bind_res (dmc_optional_string env dmc_probe_timeout_var) (\<lambda>timeout_raw.
     case timeout_raw of
       None \<Rightarrow> dmc_accepted (validated (probe_settings_post_init bracket_ok)
         \<lparr>ps_url = url, ps_timeout_seconds = default_timeout\<rparr>)
     | Some raw \<Rightarrow>
         bind_res (dmc_parse_positive_float raw) (\<lambda>timeout.
           dmc_accepted (validated (probe_settings_post_init bracket_ok)
             \<lparr>ps_url = url, ps_timeout_seconds = PFlt timeout\<rparr>))))"

definition dmc_load_store :: "environment \<Rightarrow> (string \<times> string) res" where
  "dmc_load_store env =
     bind_res (dmc_required_non_empty_string env dmc_state_path_var) (\<lambda>raw.
     bind_res (dmc_accepted (Inr raw)) (\<lambda>path.
     bind_res (dmc_accepted (Inr path)) (\<lambda>store. Inr (path, store))))"

definition dmc_load_telegram_settings :: "environment \<Rightarrow> dm_telegram_settings res" where
  "dmc_load_telegram_settings env =
     bind_res (dmc_required_non_empty_string env dmc_bot_token_var) (\<lambda>bot_token.
     bind_res (dmc_required_non_empty_string env dmc_chat_id_var) (\<lambda>chat_raw.
     bind_res (dmc_parse_decimal_int chat_raw) (\<lambda>chat_id.
     bind_res (dmc_optional_string env dmc_thread_id_var) (\<lambda>thread_raw.
     bind_res (case thread_raw of None \<Rightarrow> Inr None | Some raw \<Rightarrow> map_sum id Some (dmc_parse_decimal_int raw)) (\<lambda>thread_id.
     bind_res (dmc_optional_string env dmc_telegram_timeout_var) (\<lambda>timeout_raw.
     bind_res (case timeout_raw of None \<Rightarrow> Inr default_timeout
               | Some raw \<Rightarrow> map_sum id PFlt (dmc_parse_positive_float raw)) (\<lambda>timeout.
       dmc_accepted (validated dm_telegram_settings_post_init
         \<lparr>dts_bot_token = bot_token, dts_chat_id = chat_id, dts_message_thread_id = thread_id,
          dts_timeout_seconds = timeout\<rparr>))))))))"

definition load_deadman_settings :: "(string \<Rightarrow> bool) \<Rightarrow> environment res \<Rightarrow> deadman_runtime_settings res" where
  "load_deadman_settings bracket_ok env =
     bind_res (take_snapshot DeadManSettingsError env) (\<lambda>snapshot.
     bind_res (dmc_load_probe_settings bracket_ok snapshot) (\<lambda>probe_part.
     bind_res (dmc_load_store snapshot) (\<lambda>(state_path, store).
     bind_res (dmc_load_telegram_settings snapshot) (\<lambda>telegram.
       Inr \<lparr>drs_probe = probe_part, drs_state_path = state_path, drs_store = store, drs_telegram = telegram\<rparr>))))"

section \<open>Facts\<close>

lemmas dmc_helpers = dmc_accepted_def dmc_required_non_empty_string_def dmc_optional_string_def
  dmc_parse_decimal_int_def dmc_parse_positive_float_def

lemma urlsplit_error: "urlsplit bracket_ok url = Inl e \<Longrightarrow> e = ValueError"
  by (simp add: urlsplit_def Let_def split: prod.splits if_splits)

lemma port_check_error: "port_check n = Inl e \<Longrightarrow> e = ValueError"
  by (simp add: port_check_def split: option.splits)

lemma require_https_url_error:
  "require_https_url bracket_ok url = Inl e \<Longrightarrow> e = ValueError"
  by (auto simp: require_https_url_def bind_res_eq_Inl dest!: in_order_raises urlsplit_error dest: port_check_error)

lemma probe_settings_error:
  "validated (probe_settings_post_init bracket_ok) s = Inl e \<Longrightarrow> construction_failure e"
  by (auto simp: validated_def probe_settings_post_init_def probe_require_positive_def split: sum.splits
      dest!: in_order_raises require_https_url_error positive_check_error)

lemma dm_telegram_settings_error:
  "validated dm_telegram_settings_post_init s = Inl e \<Longrightarrow> construction_failure e"
  by (auto simp: validated_def dm_telegram_settings_post_init_def dmt_require_bot_token_def dmt_require_chat_id_def
      dmt_require_message_thread_id_def dmt_require_positive_def split: sum.splits option.splits
      dest!: in_order_raises positive_check_error)

lemma deadman_loader_bounded:
  "bounded DeadManSettingsError (dmc_load_probe_settings bracket_ok env)"
  "bounded DeadManSettingsError (dmc_load_store env)"
  "bounded DeadManSettingsError (dmc_load_telegram_settings env)"
proof -
  note probe_ok = bounded_accepted [OF probe_settings_error]
  note telegram_ok = bounded_accepted [OF dm_telegram_settings_error]
  show "bounded DeadManSettingsError (dmc_load_probe_settings bracket_ok env)"
    unfolding dmc_load_probe_settings_def dmc_helpers
    by (intro bounded_bind bounded_env) (auto split: option.splits intro!: bounded_bind bounded_env probe_ok)
  show "bounded DeadManSettingsError (dmc_load_store env)"
    unfolding dmc_load_store_def dmc_helpers
    by (intro bounded_bind bounded_env) (auto simp: env_accepted_def catch_res_def)
  show "bounded DeadManSettingsError (dmc_load_telegram_settings env)"
    unfolding dmc_load_telegram_settings_def dmc_helpers
    by (intro bounded_bind bounded_env telegram_ok; auto split: option.splits)
qed

lemma probe_part_valid:
  "dmc_load_probe_settings bracket_ok env = Inr s \<Longrightarrow> probe_settings_post_init bracket_ok s = Inr ()"
  by (auto simp: dmc_load_probe_settings_def dmc_helpers split: option.splits)

lemma store_part_valid: "dmc_load_store env = Inr (p, q) \<Longrightarrow> q = p \<and> strip p \<noteq> []"
  by (auto simp: dmc_load_store_def dmc_helpers dest: env_required_eq_Inr)

lemma telegram_part_valid:
  "dmc_load_telegram_settings env = Inr s \<Longrightarrow> dm_telegram_settings_post_init s = Inr ()"
  by (auto simp: dmc_load_telegram_settings_def dmc_helpers)

text \<open>C36: the loader is total up to the mapping itself: it returns settings that both validating
  constructors accept, with a non-blank state path, or raises exactly the bounded settings error; the
  only other exception is one outside \<open>Exception\<close> raised by reading the mapping.\<close>

theorem deadman_settings_are_valid:
  "case load_deadman_settings bracket_ok env of
     Inr s \<Rightarrow> probe_settings_post_init bracket_ok (drs_probe s) = Inr () \<and>
       dm_telegram_settings_post_init (drs_telegram s) = Inr () \<and>
       drs_store s = drs_state_path s \<and> strip (drs_state_path s) \<noteq> []
   | Inl e \<Rightarrow> e = DeadManSettingsError \<or> (env = Inl e \<and> \<not> is_exception e)"
proof (cases "load_deadman_settings bracket_ok env")
  case (Inr s)
  then obtain snapshot where
    "dmc_load_probe_settings bracket_ok snapshot = Inr (drs_probe s)"
    "dmc_load_store snapshot = Inr (drs_state_path s, drs_store s)"
    "dmc_load_telegram_settings snapshot = Inr (drs_telegram s)"
    by (auto simp: load_deadman_settings_def)
  then show ?thesis using Inr by (simp add: probe_part_valid store_part_valid telegram_part_valid)
next
  case (Inl e)
  have "e = DeadManSettingsError \<or> take_snapshot DeadManSettingsError env = Inl e"
    using Inl deadman_loader_bounded(1) [of bracket_ok] deadman_loader_bounded(2,3)
    by (auto simp: load_deadman_settings_def bind_res_eq_Inl bounded_def)
  then show ?thesis
    using Inl by (auto simp: take_snapshot_def catch_res_def split: sum.splits if_splits)
qed

end
