(* ===== verification/Deadman_Process.thy ===== *)
theory Deadman_Process
  imports Deadman_Config Deadman_Runtime
begin

text \<open>
  \<open>deadman_process.py\<close>: one dead-man cycle as a process.  The state file of a path, the production
  adapters and the clock are parameters; the result is the exit code with the line written to
  stdout (a completed cycle) or stderr.
\<close>

datatype process_report =
    ConfigurationError
  | SetupFailed exn
  | StateStoreFailure
  | DeliveryFailure
  | RuntimeFailure
  | UnexpectedFailure exn
  | CycleCompleted deadman_state nat

record 's process_seams =
  sm_open_store :: "string \<Rightarrow> ('s, dm_status) io \<times> (dm_status \<Rightarrow> ('s, unit) io)"
  sm_new_prober :: "probe_settings \<Rightarrow> ('s, probe_outcome) io res"
  sm_new_sender :: "dm_telegram_settings \<Rightarrow> (dm_notification \<Rightarrow> ('s, unit) io) res"
  sm_utc_now :: "('s, pyvalue) io"

text \<open>The clauses around the cycle, in their order.\<close>

definition cycle_failure_report :: "exn \<Rightarrow> process_report" where
  "cycle_failure_report e =
     (if e = DeadManStateStoreError then StateStoreFailure
      else if e = DeadManTelegramDeliveryError then DeliveryFailure
      else if e = DeadManRuntimeError then RuntimeFailure
      else UnexpectedFailure e)"

definition run_deadman_process ::
  "(string \<Rightarrow> bool) \<Rightarrow> 's process_seams \<Rightarrow> environment res \<Rightarrow> ('s, probe_outcome) io option \<Rightarrow>
    (dm_notification \<Rightarrow> ('s, unit) io) option \<Rightarrow> ('s, pyvalue) io option \<Rightarrow> ('s, int \<times> process_report) io" where
  "run_deadman_process bracket_ok seams env prober sender clock =
     (case load_deadman_settings bracket_ok env of
        Inl e \<Rightarrow> if e = DeadManSettingsError then return_io (1, ConfigurationError) else lift_io (Inl e)
      | Inr settings \<Rightarrow>
          (case bind_res (case prober of Some p \<Rightarrow> Inr p | None \<Rightarrow> sm_new_prober seams (drs_probe settings)) (\<lambda>p.
                bind_res (case sender of Some q \<Rightarrow> Inr q | None \<Rightarrow> sm_new_sender seams (drs_telegram settings)) (\<lambda>q.
                  Inr (p, q))) of
             Inl e \<Rightarrow> if is_exception e then return_io (1, SetupFailed e) else lift_io (Inl e)
           | Inr (effective_prober, effective_sender) \<Rightarrow>
               let effective_clock = (case clock of Some c \<Rightarrow> c | None \<Rightarrow> sm_utc_now seams);
                   (load, save) = sm_open_store seams (drs_store settings)
               in catch_io
                    (bind_io (run_deadman_cycle load save effective_prober effective_sender effective_clock)
                      (\<lambda>result. return_io (0, CycleCompleted (cr_state result) (cr_pending_count result))))
                    is_exception (\<lambda>e. return_io (1, cycle_failure_report e))))"

definition deadman_process_main ::
  "(string \<Rightarrow> bool) \<Rightarrow> 's process_seams \<Rightarrow> environment res \<Rightarrow> ('s, int \<times> process_report) io" where
  "deadman_process_main bracket_ok seams os_environ = run_deadman_process bracket_ok seams os_environ None None None"

text \<open>The exit code is 0 exactly when the settings loaded and the one cycle returned, and then the
  line written reports that cycle's state and backlog; every other ending inside \<open>Exception\<close> is exit
  code 1 with its category, and nothing inside \<open>Exception\<close> escapes.\<close>

theorem exit_code_reports_the_cycle:
  assumes "run_deadman_process bracket_ok seams env (Some p) (Some q) (Some c) s = (r, s')"
  shows "case load_deadman_settings bracket_ok env of
      Inl e \<Rightarrow> s' = s \<and> r = (if e = DeadManSettingsError then Inr (1, ConfigurationError) else Inl e)
    | Inr settings \<Rightarrow>
        (case run_deadman_cycle (fst (sm_open_store seams (drs_store settings)))
                (snd (sm_open_store seams (drs_store settings))) p q c s of
           (Inr x, t) \<Rightarrow> r = Inr (0, CycleCompleted (cr_state x) (cr_pending_count x)) \<and> s' = t
         | (Inl e, t) \<Rightarrow> s' = t \<and>
             r = (if is_exception e then Inr (1, cycle_failure_report e) else Inl e))"
proof (cases "load_deadman_settings bracket_ok env")
  case (Inl e)
  then show ?thesis using assms by (auto simp: run_deadman_process_def split: if_splits)
next
  case (Inr settings)
  obtain load save where store: "sm_open_store seams (drs_store settings) = (load, save)" by fastforce
  obtain x t where cycle: "run_deadman_cycle load save p q c s = (x, t)" by fastforce
  show ?thesis
    using assms Inr store cycle
    by (auto simp: run_deadman_process_def catch_io_split bind_io_split split: sum.splits if_splits)
qed

text \<open>A fresh dead-man that sees a healthy target; the state is the last status saved.\<close>

definition sample_environment :: environment where
  "sample_environment =
     [dmc_probe_url_var \<mapsto> EnvStr ''https://sentinel/v1'', dmc_state_path_var \<mapsto> EnvStr ''/var/state'',
      dmc_bot_token_var \<mapsto> EnvStr ''1:a'', dmc_chat_id_var \<mapsto> EnvStr ''-42'',
      dmc_probe_timeout_var \<mapsto> EnvStr ''2.5'']"

definition sample_seams :: "dm_status process_seams" where
  "sample_seams =
     \<lparr>sm_open_store = (\<lambda>_. (\<lambda>s. (Inr s, s), \<lambda>x s. (Inr (), x))), sm_new_prober = (\<lambda>_. Inl OSError),
      sm_new_sender = (\<lambda>_. Inl OSError), sm_utc_now = return_io PyOther\<rparr>"

definition sample_now :: pyvalue where
  "sample_now = PyDatetime \<lparr>wall = 63902736000000000, tz = TzFixed 0\<rparr>"

lemmas deadman_variables = dmc_probe_url_var_def dmc_state_path_var_def dmc_bot_token_var_def dmc_chat_id_var_def
  dmc_thread_id_var_def dmc_probe_timeout_var_def dmc_telegram_timeout_var_def

lemma sample_lookups:
  "sample_environment dmc_probe_url_var = Some (EnvStr ''https://sentinel/v1'')"
  "sample_environment dmc_state_path_var = Some (EnvStr ''/var/state'')"
  "sample_environment dmc_bot_token_var = Some (EnvStr ''1:a'')"
  "sample_environment dmc_chat_id_var = Some (EnvStr ''-42'')"
  "sample_environment dmc_probe_timeout_var = Some (EnvStr ''2.5'')"
  "sample_environment dmc_thread_id_var = None" "sample_environment dmc_telegram_timeout_var = None"
  by (simp_all add: sample_environment_def deadman_variables)

lemma sample_values:
  "strip ''https://sentinel/v1'' \<noteq> []" "strip ''/var/state'' \<noteq> []" "strip ''1:a'' \<noteq> []" "strip ''-42'' \<noteq> []"
  "env_positive_float DeadManSettingsError ''2.5'' = Inr (Fin (5 / 2))"
  "env_decimal_int DeadManSettingsError ''-42'' = Inr (-42)"
  by code_simp+

lemma sample_probe:
  "probe_settings_post_init (\<lambda>_. False)
    \<lparr>ps_url = ''https://sentinel/v1'', ps_timeout_seconds = PFlt (Fin (5 / 2))\<rparr> = Inr ()"
  by code_simp

lemma sample_telegram:
  "dm_telegram_settings_post_init \<lparr>dts_bot_token = ''1:a'', dts_chat_id = -42, dts_message_thread_id = None,
    dts_timeout_seconds = default_timeout\<rparr> = Inr ()"
  by code_simp

lemma sample_settings:
  "load_deadman_settings (\<lambda>_. False) (Inr sample_environment) =
    Inr \<lparr>drs_probe = \<lparr>ps_url = ''https://sentinel/v1'', ps_timeout_seconds = PFlt (Fin (5 / 2))\<rparr>,
      drs_state_path = ''/var/state'', drs_store = ''/var/state'',
      drs_telegram = \<lparr>dts_bot_token = ''1:a'', dts_chat_id = -42, dts_message_thread_id = None,
        dts_timeout_seconds = default_timeout\<rparr>\<rparr>"
  by (simp add: load_deadman_settings_def take_snapshot_def catch_res_def dmc_load_probe_settings_def
      dmc_load_store_def dmc_load_telegram_settings_def dmc_helpers env_required_def env_optional_def
      env_accepted_def validated_def sample_lookups sample_values sample_probe sample_telegram)

lemma sample_cycle:
  "run_deadman_cycle (\<lambda>s. (Inr s, s)) (\<lambda>x s. (Inr (), x)) (return_io ProbeHealthy) (\<lambda>_. return_io ())
    (return_io sample_now) initial_status =
    (Inr \<lparr>cr_state = DmUp, cr_pending_count = 0, cr_delivered = None, cr_acknowledged = None\<rparr>,
     initial_status\<lparr>ds_state := DmUp, ds_changed_at := Some (clock_datetime sample_now)\<rparr>)"
  by code_simp

theorem exit_code_reports_the_cycle_witness:
  "fst (run_deadman_process (\<lambda>_. False) sample_seams (Inr sample_environment) (Some (return_io ProbeHealthy))
      (Some (\<lambda>_. return_io ())) (Some (return_io sample_now)) initial_status) =
    Inr (0, CycleCompleted DmUp 0)"
  using exit_code_reports_the_cycle [of "\<lambda>_. False" sample_seams "Inr sample_environment" "return_io ProbeHealthy"
      "\<lambda>_. return_io ()" "return_io sample_now" initial_status, OF prod.collapse [symmetric]]
  by (simp add: sample_settings sample_cycle) (simp add: sample_seams_def sample_cycle)

end
