(* ===== verification/Settings.thy ===== *)
theory Settings
  imports Env_Settings Config Telegram Wire
begin

text \<open>
  \<open>settings.py\<close>: the central settings from one environment mapping.  The helpers it has in common
  with the dead-man loader come from theory \<open>Env_Settings\<close>; the field paths of the messages are not
  modelled.  The JSON recursion limit is the argument \<open>limit\<close>.
\<close>

section \<open>Variables, field names and helpers\<close>

definition cs_database_path_var :: string where "cs_database_path_var = ''SENTINEL_DATABASE_PATH''"
definition cs_listen_host_var :: string where "cs_listen_host_var = ''SENTINEL_LISTEN_HOST''"
definition cs_listen_port_var :: string where "cs_listen_port_var = ''SENTINEL_LISTEN_PORT''"
definition cs_monitor_interval_var :: string where
  "cs_monitor_interval_var = ''SENTINEL_MONITOR_INTERVAL_SECONDS''"
definition cs_poll_interval_var :: string where "cs_poll_interval_var = ''SENTINEL_POLL_INTERVAL_SECONDS''"
definition cs_hosts_json_var :: string where "cs_hosts_json_var = ''SENTINEL_HOSTS_JSON''"
definition cs_node_tokens_json_var :: string where "cs_node_tokens_json_var = ''SENTINEL_NODE_TOKENS_JSON''"
definition cs_bot_token_var :: string where "cs_bot_token_var = ''SENTINEL_TELEGRAM_BOT_TOKEN''"
definition cs_chat_id_var :: string where "cs_chat_id_var = ''SENTINEL_TELEGRAM_CHAT_ID''"
definition cs_thread_id_var :: string where "cs_thread_id_var = ''SENTINEL_TELEGRAM_MESSAGE_THREAD_ID''"
definition cs_timeout_var :: string where "cs_timeout_var = ''SENTINEL_TELEGRAM_TIMEOUT_SECONDS''"

definition host_required_fields :: "string list" where
  "host_required_fields = [''name'', ''heartbeat'', ''external'']"
definition host_optional_fields :: "string list" where "host_optional_fields = [''thresholds'', ''services'']"
definition heartbeat_fields :: "string list" where
  "heartbeat_fields = [''expected_interval_seconds'', ''stale_after_seconds'']"
definition external_required_fields :: "string list" where
  "external_required_fields = [''tcp_host'', ''tcp_port'']"
definition external_optional_fields :: "string list" where
  "external_optional_fields = [''timeout_seconds'', ''down_confirmations'', ''recovery_confirmations'']"
definition thresholds_fields :: "string list" where
  "thresholds_fields =
     [''cpu_percent'', ''ram_percent'', ''swap_percent'', ''disk_percent'', ''inode_percent'', ''load5_max'']"

definition cs_accepted :: "'a res \<Rightarrow> 'a res" where "cs_accepted = env_accepted CentralSettingsError"

definition cs_required_non_empty_string :: "environment \<Rightarrow> string \<Rightarrow> string res" where
  "cs_required_non_empty_string = env_required CentralSettingsError"

definition cs_optional_string :: "environment \<Rightarrow> string \<Rightarrow> string option res" where
  "cs_optional_string = env_optional CentralSettingsError"

definition cs_parse_decimal_int :: "string \<Rightarrow> int res" where
  "cs_parse_decimal_int = env_decimal_int CentralSettingsError"

definition cs_parse_decimal_float :: "string \<Rightarrow> pyfloat res" where
  "cs_parse_decimal_float = env_decimal_float CentralSettingsError"

section \<open>Strict JSON\<close>

text \<open>\<open>_reject_duplicate_keys\<close> and \<open>_reject_non_finite_constant\<close>\<close>

definition cs_json_hooks :: json_hooks where
  "cs_json_hooks = \<lparr>on_duplicate = Some JSONRejected, on_constant = Some JSONRejected\<rparr>"

definition load_json_document :: "nat \<Rightarrow> string \<Rightarrow> json res" where
  "load_json_document limit raw =
     catch_res (json_loads cs_json_hooks limit raw)
       (\<lambda>e. e = JSONRejected \<or> is_value_error e \<or> e = RecursionError) (\<lambda>_. Inl CentralSettingsError)"

definition cs_json_object :: "json \<Rightarrow> (string \<times> json) list res" where
  "cs_json_object v = (case v of JObj ps \<Rightarrow> Inr ps | _ \<Rightarrow> Inl CentralSettingsError)"

definition cs_json_array :: "json \<Rightarrow> json list res" where
  "cs_json_array v = (case v of JArr xs \<Rightarrow> Inr xs | _ \<Rightarrow> Inl CentralSettingsError)"

definition cs_json_string :: "json \<Rightarrow> string res" where
  "cs_json_string v = (case v of JStr s \<Rightarrow> Inr s | _ \<Rightarrow> Inl CentralSettingsError)"

definition cs_json_number :: "json \<Rightarrow> pynum res" where
  "cs_json_number v =
     (case v of
        JInt i \<Rightarrow> Inr (PInt i)
      | JFloat x \<Rightarrow> if \<not> flt_isfinite x then Inl CentralSettingsError else Inr (PFlt x)
      | _ \<Rightarrow> Inl CentralSettingsError)"

definition cs_json_int :: "json \<Rightarrow> int res" where
  "cs_json_int v = (case v of JInt i \<Rightarrow> Inr i | _ \<Rightarrow> Inl CentralSettingsError)"

definition require_known_keys :: "(string \<times> json) list \<Rightarrow> string list \<Rightarrow> string list \<Rightarrow> unit res" where
  "require_known_keys mapping required optional =
     (let present = set (map fst mapping) in
      in_order
        [raise_if (\<not> set required \<subseteq> present) CentralSettingsError,
         raise_if (\<not> present \<subseteq> set required \<union> set optional) CentralSettingsError])"

text \<open>A field that keeps its default when the key is absent\<close>

definition optional_field :: "(string \<times> json) list \<Rightarrow> string \<Rightarrow> (json \<Rightarrow> 'a res) \<Rightarrow> 'a \<Rightarrow> 'a res" where
  "optional_field mapping key parse initial =
     (case map_of mapping key of None \<Rightarrow> Inr initial | Some v \<Rightarrow> parse v)"

section \<open>Hosts\<close>

definition parse_heartbeat :: "json \<Rightarrow> heartbeat_settings res" where
  "parse_heartbeat v =
     bind_res (cs_json_object v) (\<lambda>mapping.
     bind_res (require_known_keys mapping heartbeat_fields []) (\<lambda>_.
     bind_res (cs_json_number (item mapping ''expected_interval_seconds'')) (\<lambda>expected.
     bind_res (cs_json_number (item mapping ''stale_after_seconds'')) (\<lambda>stale_after.
       cs_accepted (validated heartbeat_settings_post_init
         \<lparr>hb_expected_interval_seconds = expected, hb_stale_after_seconds = stale_after\<rparr>)))))"

definition parse_external :: "json \<Rightarrow> external_check_settings res" where
  "parse_external v =
     bind_res (cs_json_object v) (\<lambda>mapping.
     bind_res (require_known_keys mapping external_required_fields external_optional_fields) (\<lambda>_.
     bind_res (cs_json_string (item mapping ''tcp_host'')) (\<lambda>tcp_host.
     bind_res (cs_json_int (item mapping ''tcp_port'')) (\<lambda>tcp_port.
     let initial = default_external tcp_host tcp_port in
     bind_res (optional_field mapping ''timeout_seconds'' cs_json_number (ec_timeout_seconds initial)) (\<lambda>timeout.
     bind_res (optional_field mapping ''down_confirmations'' cs_json_int (ec_down_confirmations initial)) (\<lambda>down.
     bind_res (optional_field mapping ''recovery_confirmations'' cs_json_int (ec_recovery_confirmations initial))
       (\<lambda>recovery.
       cs_accepted (validated external_check_settings_post_init
         \<lparr>ec_tcp_host = tcp_host, ec_tcp_port = tcp_port, ec_timeout_seconds = timeout,
          ec_down_confirmations = down, ec_recovery_confirmations = recovery\<rparr>))))))))"

definition parse_load_max :: "json \<Rightarrow> pynum option res" where
  "parse_load_max v = (case v of JNull \<Rightarrow> Inr None | _ \<Rightarrow> bind_res (cs_json_number v) (\<lambda>n. Inr (Some n)))"

definition parse_thresholds :: "json \<Rightarrow> thresholds res" where
  "parse_thresholds v =
     bind_res (cs_json_object v) (\<lambda>mapping.
     bind_res (require_known_keys mapping [] thresholds_fields) (\<lambda>_.
     bind_res (optional_field mapping ''cpu_percent'' cs_json_number (th_cpu_percent default_thresholds)) (\<lambda>cpu.
     bind_res (optional_field mapping ''ram_percent'' cs_json_number (th_ram_percent default_thresholds)) (\<lambda>ram.
     bind_res (optional_field mapping ''swap_percent'' cs_json_number (th_swap_percent default_thresholds)) (\<lambda>swap.
     bind_res (optional_field mapping ''disk_percent'' cs_json_number (th_disk_percent default_thresholds)) (\<lambda>disk.
     bind_res (optional_field mapping ''inode_percent'' cs_json_number (th_inode_percent default_thresholds)) (\<lambda>inode.
     bind_res (optional_field mapping ''load5_max'' parse_load_max (th_load5_max default_thresholds)) (\<lambda>load5_max.
       cs_accepted (validated thresholds_post_init
         \<lparr>th_cpu_percent = cpu, th_ram_percent = ram, th_swap_percent = swap, th_disk_percent = disk,
          th_inode_percent = inode, th_load5_max = load5_max\<rparr>)))))))))"

text \<open>\<open>tuple(parse(item) for item in items)\<close>: the first failure wins\<close>

fun parse_each :: "('a \<Rightarrow> 'b res) \<Rightarrow> 'a list \<Rightarrow> 'b list res" where
  "parse_each parse [] = Inr []"
| "parse_each parse (x # xs) = bind_res (parse x) (\<lambda>y. bind_res (parse_each parse xs) (\<lambda>ys. Inr (y # ys)))"

definition parse_services :: "json \<Rightarrow> string list res" where
  "parse_services v = bind_res (cs_json_array v) (parse_each cs_json_string)"

definition parse_host :: "json \<Rightarrow> host_config res" where
  "parse_host v =
     bind_res (cs_json_object v) (\<lambda>mapping.
     bind_res (require_known_keys mapping host_required_fields host_optional_fields) (\<lambda>_.
     bind_res (cs_json_string (item mapping ''name'')) (\<lambda>name.
     bind_res (parse_heartbeat (item mapping ''heartbeat'')) (\<lambda>heartbeat.
     bind_res (parse_external (item mapping ''external'')) (\<lambda>external.
     bind_res (optional_field mapping ''thresholds'' parse_thresholds default_thresholds) (\<lambda>thresholds.
     bind_res (optional_field mapping ''services'' parse_services []) (\<lambda>services.
       cs_accepted (validated host_config_post_init
         \<lparr>hc_name = name, hc_heartbeat = heartbeat, hc_external = external, hc_thresholds = thresholds,
          hc_services = services\<rparr>))))))))"

section \<open>The loader\<close>

record central_settings =
  cn_config :: sentinel_config
  cn_credentials :: "(string \<times> string) list"
  cn_telegram :: telegram_settings
  cn_database_path :: string
  cn_listen_host :: string
  cn_listen_port :: int
  cn_monitor_interval_seconds :: pyfloat
  cn_poll_interval_seconds :: pyfloat

definition load_config :: "nat \<Rightarrow> environment \<Rightarrow> sentinel_config res" where
  "load_config limit env =
     bind_res (cs_required_non_empty_string env cs_hosts_json_var) (\<lambda>raw.
     bind_res (load_json_document limit raw) (\<lambda>document.
     bind_res (cs_json_array document) (\<lambda>entries.
     bind_res (parse_each parse_host entries) (\<lambda>hosts.
       cs_accepted (validated sentinel_config_post_init \<lparr>sc_hosts = hosts\<rparr>)))))"

definition load_credentials :: "nat \<Rightarrow> environment \<Rightarrow> sentinel_config \<Rightarrow> (string \<times> string) list res" where
  "load_credentials limit env config =
     bind_res (cs_required_non_empty_string env cs_node_tokens_json_var) (\<lambda>raw.
     bind_res (load_json_document limit raw) (\<lambda>document.
     bind_res (cs_json_object document) (\<lambda>mapping.
     bind_res (raise_if (list_ex (\<lambda>(_, token). case token of JStr _ \<Rightarrow> False | _ \<Rightarrow> True) mapping) CentralSettingsError) (\<lambda>_.
     let configured = set (map hc_name (sc_hosts config)); credential_nodes = set (map fst mapping) in
     bind_res (raise_if (configured - credential_nodes \<noteq> {} \<or> credential_nodes - configured \<noteq> {})
       CentralSettingsError) (\<lambda>_.
       cs_accepted (node_credentials (Some (map (\<lambda>(n, t). (JStr n, t)) mapping))))))))"

definition load_listen_port :: "environment \<Rightarrow> int res" where
  "load_listen_port env =
     bind_res (cs_required_non_empty_string env cs_listen_port_var) (\<lambda>raw.
     bind_res (cs_parse_decimal_int raw) (\<lambda>port.
       if \<not> (1 \<le> port \<and> port \<le> 65535) then Inl CentralSettingsError else Inr port))"

definition load_positive_interval :: "environment \<Rightarrow> string \<Rightarrow> pyfloat res" where
  "load_positive_interval env variable =
     bind_res (cs_required_non_empty_string env variable) (\<lambda>raw.
     bind_res (cs_parse_decimal_float raw) (\<lambda>v.
       if flt_le v (Fin 0) then Inl CentralSettingsError else Inr v))"

definition cs_default_timeout :: pynum where "cs_default_timeout = PFlt (Fin 10)"

definition load_telegram :: "environment \<Rightarrow> telegram_settings res" where
  "load_telegram env =
     bind_res (cs_required_non_empty_string env cs_bot_token_var) (\<lambda>bot_token.
     bind_res (cs_required_non_empty_string env cs_chat_id_var) (\<lambda>chat_raw.
     bind_res (cs_parse_decimal_int chat_raw) (\<lambda>chat_id.
     bind_res (cs_optional_string env cs_thread_id_var) (\<lambda>thread_raw.
     bind_res (case thread_raw of None \<Rightarrow> Inr None | Some raw \<Rightarrow> bind_res (cs_parse_decimal_int raw) (\<lambda>i. Inr (Some i)))
       (\<lambda>thread_id.
     bind_res (cs_optional_string env cs_timeout_var) (\<lambda>timeout_raw.
     bind_res (case timeout_raw of
         None \<Rightarrow> Inr cs_default_timeout
       | Some raw \<Rightarrow> bind_res (cs_parse_decimal_float raw) (\<lambda>timeout.
           if flt_le timeout (Fin 0) then Inl CentralSettingsError else Inr (PFlt timeout))) (\<lambda>timeout.
       cs_accepted (validated telegram_settings_post_init
         \<lparr>ts_bot_token = bot_token, ts_chat_id = chat_id, ts_message_thread_id = thread_id,
          ts_timeout_seconds = timeout\<rparr>))))))))"

definition load_central_settings :: "nat \<Rightarrow> environment res \<Rightarrow> central_settings res" where
  "load_central_settings limit env =
     bind_res (take_snapshot CentralSettingsError env) (\<lambda>snapshot.
     bind_res (cs_required_non_empty_string snapshot cs_database_path_var) (\<lambda>database_path.
     bind_res (cs_required_non_empty_string snapshot cs_listen_host_var) (\<lambda>listen_host.
     bind_res (load_listen_port snapshot) (\<lambda>listen_port.
     bind_res (load_positive_interval snapshot cs_monitor_interval_var) (\<lambda>monitor.
     bind_res (load_positive_interval snapshot cs_poll_interval_var) (\<lambda>poll.
     bind_res (load_config limit snapshot) (\<lambda>config.
     bind_res (load_telegram snapshot) (\<lambda>telegram.
     bind_res (load_credentials limit snapshot config) (\<lambda>credentials.
       Inr \<lparr>cn_config = config, cn_credentials = credentials, cn_telegram = telegram,
            cn_database_path = database_path, cn_listen_host = listen_host, cn_listen_port = listen_port,
            cn_monitor_interval_seconds = monitor, cn_poll_interval_seconds = poll\<rparr>)))))))))"

section \<open>Which exceptions leave the loader\<close>

text \<open>The bounded error, and \<open>outside_model\<close> for a document with characters beyond Latin-1.\<close>

definition settings_failure :: "exn \<Rightarrow> bool" where
  "settings_failure e \<longleftrightarrow> e = CentralSettingsError \<or> e = outside_model"

lemmas cs_helpers = cs_accepted_def cs_required_non_empty_string_def cs_optional_string_def
  cs_parse_decimal_int_def cs_parse_decimal_float_def

lemma fails_simps [simp]: "raises_only settings_failure (Inr x)" "raises_only settings_failure (Inl CentralSettingsError)"
  by (simp_all add: raises_only_def settings_failure_def)

lemma fails_raise_if [simp]: "raises_only settings_failure (raise_if c CentralSettingsError)"
  by (simp add: raises_only_def settings_failure_def)

lemma fails_bounded: "bounded CentralSettingsError m \<Longrightarrow> raises_only settings_failure m"
  by (auto simp: bounded_def raises_only_def settings_failure_def)

lemma fails_env [simp]:
  "raises_only settings_failure (cs_required_non_empty_string env v)"
  "raises_only settings_failure (cs_optional_string env v)"
  "raises_only settings_failure (cs_parse_decimal_int raw)" "raises_only settings_failure (cs_parse_decimal_float raw)"
  unfolding cs_helpers by (rule fails_bounded, rule bounded_env)+

lemma fails_accepted:
  "(\<And>e. build = Inl e \<Longrightarrow> construction_failure e) \<Longrightarrow> raises_only settings_failure (cs_accepted build)"
  unfolding cs_accepted_def by (rule fails_bounded) (rule bounded_accepted)

lemma require_positive_error: "require_positive v = Inl e \<Longrightarrow> construction_failure e"
  unfolding require_positive_def by (rule positive_check_error)

lemma require_open_percent_error: "require_open_percent v = Inl e \<Longrightarrow> construction_failure e"
  unfolding require_open_percent_def by (rule positive_check_error)

lemma require_non_empty_error: "require_non_empty s = Inl e \<Longrightarrow> e = ValueError"
  by (auto simp: require_non_empty_def)

lemma post_init_errors:
  "heartbeat_settings_post_init h = Inl e \<Longrightarrow> construction_failure e"
  "external_check_settings_post_init x = Inl e \<Longrightarrow> construction_failure e"
  "thresholds_post_init t = Inl e \<Longrightarrow> construction_failure e"
  "host_config_post_init c = Inl e \<Longrightarrow> construction_failure e"
  "sentinel_config_post_init s = Inl e \<Longrightarrow> construction_failure e"
  "telegram_settings_post_init g = Inl e \<Longrightarrow> construction_failure e"
proof -
  show "heartbeat_settings_post_init h = Inl e \<Longrightarrow> construction_failure e"
    by (auto simp: heartbeat_settings_post_init_def dest!: in_order_raises require_positive_error)
  show "external_check_settings_post_init x = Inl e \<Longrightarrow> construction_failure e"
    by (auto simp: external_check_settings_post_init_def require_positive_int_def
        dest!: in_order_raises require_positive_error require_non_empty_error)
  show "thresholds_post_init t = Inl e \<Longrightarrow> construction_failure e"
    by (auto simp: thresholds_post_init_def split: option.splits
        dest!: in_order_raises require_positive_error require_open_percent_error)
  show "host_config_post_init c = Inl e \<Longrightarrow> construction_failure e"
    by (auto simp: host_config_post_init_def list_ex_iff eq_commute [of "Inl e"] dest!: in_order_raises require_non_empty_error)
  show "sentinel_config_post_init s = Inl e \<Longrightarrow> construction_failure e"
    by (auto simp: sentinel_config_post_init_def Let_def)
  show "telegram_settings_post_init g = Inl e \<Longrightarrow> construction_failure e"
    by (auto simp: telegram_settings_post_init_def tg_require_bot_token_def tg_require_chat_id_def
        tg_require_message_thread_id_def tg_require_positive_def split: option.splits
        dest!: in_order_raises positive_check_error)
qed

lemma validate_tokens_error: "validate_tokens acc items = Inl e \<Longrightarrow> construction_failure e"
  by (induction acc items rule: validate_tokens.induct)
    (auto simp: construction_failure_def is_value_error_def split: json.splits if_splits)

lemma node_credentials_error: "node_credentials ts = Inl e \<Longrightarrow> construction_failure e"
  by (auto simp: node_credentials_def split: option.splits dest: validate_tokens_error)

lemma fails_json [simp]:
  "raises_only settings_failure (cs_json_object v)" "raises_only settings_failure (cs_json_array v)"
  "raises_only settings_failure (cs_json_string v)" "raises_only settings_failure (cs_json_number v)"
  "raises_only settings_failure (cs_json_int v)" "raises_only settings_failure (require_known_keys m r p)"
  by (auto simp: cs_json_object_def cs_json_array_def cs_json_string_def cs_json_number_def cs_json_int_def
      require_known_keys_def raises_only_def settings_failure_def Let_def split: json.splits dest!: in_order_raises)

lemma fails_document [simp]: "raises_only settings_failure (load_json_document limit raw)"
  by (auto simp: load_json_document_def raises_only_def settings_failure_def catch_res_def cs_json_hooks_def
      json_error_def is_value_error_def split: sum.splits if_splits dest!: json_loads_errors)

lemma fails_optional [intro]:
  "(\<And>v. raises_only settings_failure (parse v)) \<Longrightarrow> raises_only settings_failure (optional_field m k parse d)"
  by (simp add: optional_field_def split: option.splits)

lemma fails_each: "(\<And>v. raises_only settings_failure (parse v)) \<Longrightarrow> raises_only settings_failure (parse_each parse vs)"
  by (induction vs) (auto intro!: raises_only_bind)

lemma fails_constructed [simp]:
  "raises_only settings_failure (cs_accepted (validated heartbeat_settings_post_init h))"
  "raises_only settings_failure (cs_accepted (validated external_check_settings_post_init x))"
  "raises_only settings_failure (cs_accepted (validated thresholds_post_init t))"
  "raises_only settings_failure (cs_accepted (validated host_config_post_init c))"
  "raises_only settings_failure (cs_accepted (validated sentinel_config_post_init s))"
  "raises_only settings_failure (cs_accepted (validated telegram_settings_post_init g))"
  "raises_only settings_failure (cs_accepted (node_credentials ts))"
  by (rule fails_accepted, simp add: validated_eq_Inl post_init_errors node_credentials_error)+

lemma fails_parts [simp]:
  "raises_only settings_failure (parse_heartbeat v)" "raises_only settings_failure (parse_external v)"
  unfolding parse_heartbeat_def parse_external_def Let_def
  by (intro raises_only_bind fails_optional; simp)+

lemma fails_items [simp]:
  "raises_only settings_failure (parse_load_max v)" "raises_only settings_failure (parse_services v)"
  by (cases v; auto simp: parse_load_max_def intro!: raises_only_bind)
    (auto simp: parse_services_def intro!: raises_only_bind fails_each)

lemma fails_thresholds [simp]: "raises_only settings_failure (parse_thresholds v)"
  unfolding parse_thresholds_def by (intro raises_only_bind fails_optional) auto

lemma fails_host [simp]: "raises_only settings_failure (parse_host v)"
  unfolding parse_host_def by (intro raises_only_bind fails_optional) auto

lemma fails_loaders [simp]:
  "raises_only settings_failure (load_config limit env)"
  "raises_only settings_failure (load_credentials limit env config)"
  "raises_only settings_failure (load_listen_port env)"
  "raises_only settings_failure (load_positive_interval env variable)"
  "raises_only settings_failure (load_telegram env)"
  unfolding load_config_def load_credentials_def load_listen_port_def load_positive_interval_def load_telegram_def Let_def
  by (intro raises_only_bind fails_each; auto intro!: raises_only_bind split: option.splits)+

section \<open>What loaded settings satisfy\<close>

lemma cs_accepted_eq_Inr [simp]: "cs_accepted build = Inr x \<longleftrightarrow> build = Inr x"
  by (simp add: cs_accepted_def)

lemma host_valid: "parse_host v = Inr h \<Longrightarrow> host_config_ok h"
proof -
  have heartbeat: "parse_heartbeat v = Inr x \<Longrightarrow> heartbeat_settings_post_init x = Inr ()" for v x
    by (auto simp: parse_heartbeat_def)
  have external: "parse_external v = Inr x \<Longrightarrow> external_check_settings_post_init x = Inr ()" for v x
    by (auto simp: parse_external_def Let_def)
  have "thresholds_post_init default_thresholds = Inr ()" by code_simp
  then have thresholds: "optional_field m k parse_thresholds default_thresholds = Inr x \<Longrightarrow> thresholds_post_init x = Inr ()"
    for m k x
    by (auto simp: optional_field_def parse_thresholds_def split: option.splits)
  show "parse_host v = Inr h \<Longrightarrow> host_config_ok h"
    unfolding parse_host_def host_config_ok_def
    by (auto simp del: in_order_eq_Inr dest: heartbeat external thresholds)
qed

lemma parse_each_all: "parse_each parse xs = Inr ys \<Longrightarrow> list_all2 (\<lambda>x y. parse x = Inr y) xs ys"
  by (induction xs arbitrary: ys) auto

lemma config_valid: "load_config limit env = Inr config \<Longrightarrow> config_ok config"
proof -
  assume "load_config limit env = Inr config"
  then obtain entries where e: "parse_each parse_host entries = Inr (sc_hosts config)"
    "sentinel_config_post_init config = Inr ()"
    by (auto simp: load_config_def)
  have "\<exists>v. parse_host v = Inr h" if "h \<in> set (sc_hosts config)" for h
    using parse_each_all [OF e(1)] that by (fastforce simp: list_all2_conv_all_nth in_set_conv_nth)
  then show "config_ok config" using e(2) host_valid by (auto simp: config_ok_def)
qed

lemma validate_tokens_items:
  "validate_tokens acc items = Inr creds \<Longrightarrow>
    map (\<lambda>(n, t). (JStr n, JStr t)) creds = map (\<lambda>(n, t). (JStr n, JStr t)) acc @ items"
  by (induction acc items rule: validate_tokens.induct) (auto split: json.splits if_splits)

lemma credentials_valid:
  assumes "load_credentials limit env config = Inr creds"
  shows "set (map fst creds) = set (map hc_name (sc_hosts config))" "distinct (map fst creds)" "distinct (map snd creds)"
    "list_all (\<lambda>(n, t). strip n \<noteq> [] \<and> strip t \<noteq> []) creds"
    "node_credentials (Some (map (\<lambda>(n, t). (JStr n, JStr t)) creds)) = Inr creds"
proof -
  obtain raw mapping where m: "set (map fst mapping) = set (map hc_name (sc_hosts config))"
    "validate_tokens [] (map (\<lambda>(n, t). (JStr n, t)) mapping) = Inr creds"
    "load_json_document limit raw = Inr (JObj mapping)"
  proof -
    have object: "cs_json_object v = Inr mapping \<longleftrightarrow> v = JObj mapping" for v mapping
      by (cases v) (auto simp: cs_json_object_def)
    show thesis
      using assms that by (auto simp: load_credentials_def Let_def node_credentials_def object)
  qed
  have items: "map (\<lambda>(n, t). (JStr n, JStr t)) creds = map (\<lambda>(n, t). (JStr n, t)) mapping"
    using validate_tokens_items [OF m(2)] by simp
  then have "map (JStr \<circ> fst) creds = map (JStr \<circ> fst) mapping"
    by (auto dest!: arg_cong [where f = "map fst"] simp: comp_def case_prod_beta)
  then have names: "map fst creds = map fst mapping"
    by (auto dest: arg_cong [where f = "map (\<lambda>j. case j of JStr n \<Rightarrow> n)"] simp: comp_def)
  then show "set (map fst creds) = set (map hc_name (sc_hosts config))" using m(1) by simp
  have "json_loads cs_json_hooks limit raw = Inr (JObj mapping)"
    using m(3) by (auto simp: load_json_document_def catch_res_eq_Inr)
  from object_keys_distinct [OF this] show "distinct (map fst creds)" by (simp add: names cs_json_hooks_def)
  show "distinct (map snd creds)" using validate_tokens_distinct [OF m(2)] by simp
  show "node_credentials (Some (map (\<lambda>(n, t). (JStr n, JStr t)) creds)) = Inr creds"
    using m(2) by (simp add: node_credentials_def items)
  have "list_all (\<lambda>(n, t). strip n \<noteq> [] \<and> strip t \<noteq> []) acc \<Longrightarrow> validate_tokens acc xs = Inr cs \<Longrightarrow>
      list_all (\<lambda>(n, t). strip n \<noteq> [] \<and> strip t \<noteq> []) cs" for acc xs cs
    by (induction acc xs rule: validate_tokens.induct) (auto split: json.splits if_splits)
  from this [OF _ m(2)] show "list_all (\<lambda>(n, t). strip n \<noteq> [] \<and> strip t \<noteq> []) creds" by simp
qed

lemma load_positive_interval_eq:
  "load_positive_interval env variable =
    bind_res (cs_required_non_empty_string env variable) (env_positive_float CentralSettingsError)"
  by (simp add: load_positive_interval_def cs_parse_decimal_float_def env_positive_float_def [abs_def])

lemma loaded_credentials:
  "load_central_settings limit env = Inr s \<Longrightarrow> \<exists>tokens. node_credentials tokens = Inr (cn_credentials s)"
  by (auto simp: load_central_settings_def load_credentials_def Let_def)

lemma interval_valid: "load_positive_interval env variable = Inr v \<Longrightarrow> \<exists>q > 0. v = Fin q"
  using env_positive_float_eq_Inr by (auto simp: load_positive_interval_eq)

lemma telegram_valid: "load_telegram env = Inr s \<Longrightarrow> telegram_settings_post_init s = Inr ()"
  unfolding load_telegram_def bind_res_eq_Inr cs_accepted_eq_Inr validated_eq_Inr by blast

lemma listen_port_valid: "load_listen_port env = Inr port \<Longrightarrow> 1 \<le> port \<and> port \<le> 65535"
  by (auto simp: load_listen_port_def split: if_splits)

lemma required_valid: "cs_required_non_empty_string env v = Inr x \<Longrightarrow> strip x \<noteq> []"
  by (simp add: cs_required_non_empty_string_def env_required_eq_Inr)

text \<open>C19: the central loader returns a configuration that every validating constructor accepts, credentials
  that the constructor \<open>NodeCredentials\<close> accepts, with exactly one for every configured host and none
  for another, no blank token and no token twice, a listen port in
  range, positive finite intervals and non-blank texts; otherwise it raises the bounded settings error,
  apart from an exception outside \<open>Exception\<close> of the mapping itself and documents outside the model.\<close>

theorem central_settings_are_valid:
  "case load_central_settings limit env of
     Inr s \<Rightarrow> config_ok (cn_config s) \<and> telegram_settings_post_init (cn_telegram s) = Inr () \<and>
       node_credentials (Some (map (\<lambda>(n, t). (JStr n, JStr t)) (cn_credentials s))) = Inr (cn_credentials s) \<and>
       set (map fst (cn_credentials s)) = set (map hc_name (sc_hosts (cn_config s))) \<and>
       distinct (map fst (cn_credentials s)) \<and> distinct (map snd (cn_credentials s)) \<and>
       list_all (\<lambda>(n, t). strip n \<noteq> [] \<and> strip t \<noteq> []) (cn_credentials s) \<and>
       1 \<le> cn_listen_port s \<and> cn_listen_port s \<le> 65535 \<and>
       (\<exists>q > 0. cn_monitor_interval_seconds s = Fin q) \<and> (\<exists>q > 0. cn_poll_interval_seconds s = Fin q) \<and>
       strip (cn_database_path s) \<noteq> [] \<and> strip (cn_listen_host s) \<noteq> []
   | Inl e \<Rightarrow> e = CentralSettingsError \<or> e = outside_model \<or> (env = Inl e \<and> \<not> is_exception e)"
proof (cases "load_central_settings limit env")
  case (Inr s)
  then obtain snapshot where parts:
    "cs_required_non_empty_string snapshot cs_database_path_var = Inr (cn_database_path s)"
    "cs_required_non_empty_string snapshot cs_listen_host_var = Inr (cn_listen_host s)"
    "load_listen_port snapshot = Inr (cn_listen_port s)"
    "load_positive_interval snapshot cs_monitor_interval_var = Inr (cn_monitor_interval_seconds s)"
    "load_positive_interval snapshot cs_poll_interval_var = Inr (cn_poll_interval_seconds s)"
    "load_config limit snapshot = Inr (cn_config s)" "load_telegram snapshot = Inr (cn_telegram s)"
    "load_credentials limit snapshot (cn_config s) = Inr (cn_credentials s)"
    by (auto simp: load_central_settings_def)
  show ?thesis
    using Inr config_valid [OF parts(6)] telegram_valid [OF parts(7)] credentials_valid [OF parts(8)]
      listen_port_valid [OF parts(3)] interval_valid [OF parts(4)] interval_valid [OF parts(5)]
      required_valid [OF parts(1)] required_valid [OF parts(2)] by simp
next
  case (Inl e)
  have "take_snapshot CentralSettingsError env = Inl e \<or>
      (\<exists>snapshot. take_snapshot CentralSettingsError env = Inr snapshot \<and> settings_failure e)"
  proof (cases "take_snapshot CentralSettingsError env")
    case (Inr snapshot)
    have "raises_only settings_failure (load_central_settings limit env)"
      unfolding load_central_settings_def Inr by (intro raises_only_bind) simp_all
    then show ?thesis using Inl Inr by (simp add: raises_only_def)
  qed (use Inl in \<open>simp add: load_central_settings_def\<close>)
  then show ?thesis
    using Inl by (auto simp: settings_failure_def take_snapshot_def catch_res_def split: sum.splits if_splits)
qed

section \<open>Every valid configuration can be written\<close>

text \<open>The shortest document of a host: a member with its default value is left out.\<close>

definition number_document :: "pynum \<Rightarrow> json" where
  "number_document v = (case v of PInt i \<Rightarrow> JInt i | PFlt x \<Rightarrow> JFloat x)"

definition load_max_document :: "pynum option \<Rightarrow> json" where
  "load_max_document v = (case v of None \<Rightarrow> JNull | Some n \<Rightarrow> number_document n)"

definition opt_member :: "string \<Rightarrow> ('a \<Rightarrow> json) \<Rightarrow> 'a \<Rightarrow> 'a \<Rightarrow> (string \<times> json) list" where
  "opt_member key document initial v = (if v = initial then [] else [(key, document v)])"

definition heartbeat_document :: "heartbeat_settings \<Rightarrow> json" where
  "heartbeat_document h = JObj
     [(''expected_interval_seconds'', number_document (hb_expected_interval_seconds h)),
      (''stale_after_seconds'', number_document (hb_stale_after_seconds h))]"

definition external_document :: "external_check_settings \<Rightarrow> json" where
  "external_document e = (let initial = default_external (ec_tcp_host e) (ec_tcp_port e) in JObj
     ([(''tcp_host'', JStr (ec_tcp_host e)), (''tcp_port'', JInt (ec_tcp_port e))] @
      opt_member ''timeout_seconds'' number_document (ec_timeout_seconds initial) (ec_timeout_seconds e) @
      opt_member ''down_confirmations'' JInt (ec_down_confirmations initial) (ec_down_confirmations e) @
      opt_member ''recovery_confirmations'' JInt (ec_recovery_confirmations initial) (ec_recovery_confirmations e)))"

definition thresholds_document :: "thresholds \<Rightarrow> json" where
  "thresholds_document t = JObj
     (opt_member ''cpu_percent'' number_document (th_cpu_percent default_thresholds) (th_cpu_percent t) @
      opt_member ''ram_percent'' number_document (th_ram_percent default_thresholds) (th_ram_percent t) @
      opt_member ''swap_percent'' number_document (th_swap_percent default_thresholds) (th_swap_percent t) @
      opt_member ''disk_percent'' number_document (th_disk_percent default_thresholds) (th_disk_percent t) @
      opt_member ''inode_percent'' number_document (th_inode_percent default_thresholds) (th_inode_percent t) @
      opt_member ''load5_max'' load_max_document (th_load5_max default_thresholds) (th_load5_max t))"

definition host_document :: "host_config \<Rightarrow> json" where
  "host_document h = JObj
     ([(''name'', JStr (hc_name h)), (''heartbeat'', heartbeat_document (hc_heartbeat h)),
       (''external'', external_document (hc_external h))] @
      opt_member ''thresholds'' thresholds_document default_thresholds (hc_thresholds h) @
      opt_member ''services'' (\<lambda>names. JArr (map JStr names)) [] (hc_services h))"

lemma map_of_opt_member:
  "map_of (opt_member key document initial v @ ms) key' =
    (if v \<noteq> initial \<and> key = key' then Some (document v) else map_of ms key')"
  by (simp add: opt_member_def)

lemma map_of_opt_member_last:
  "map_of (opt_member key document initial v) key' = (if v \<noteq> initial \<and> key = key' then Some (document v) else None)"
  by (simp add: opt_member_def)

lemmas map_of_opt_members = map_of_opt_member map_of_opt_member_last

lemma optional_field_reads:
  assumes "map_of m k = (if v \<noteq> initial then Some (document v) else None)" "parse (document v) = Inr v"
  shows "optional_field m k parse initial = Inr v"
  using assms by (simp add: optional_field_def)

lemma known_keys:
  "set r \<subseteq> fst ` set m \<Longrightarrow> fst ` set m \<subseteq> set r \<union> set p \<Longrightarrow> require_known_keys m r p = Inr ()"
  by (auto simp: require_known_keys_def Let_def)

lemma number_reads: "math_isfinite v = Inr True \<Longrightarrow> cs_json_number (number_document v) = Inr v"
  by (cases v) (auto simp: number_document_def cs_json_number_def)

lemma load_max_reads: "(\<And>n. v = Some n \<Longrightarrow> math_isfinite n = Inr True) \<Longrightarrow> parse_load_max (load_max_document v) = Inr v"
  by (cases v; cases "the v")
    (auto simp: parse_load_max_def load_max_document_def number_document_def cs_json_number_def)

lemma heartbeat_reads:
  "heartbeat_settings_post_init h = Inr () \<Longrightarrow> parse_heartbeat (heartbeat_document h) = Inr h"
  by (simp add: parse_heartbeat_def heartbeat_document_def cs_json_object_def known_keys heartbeat_fields_def item_def
      number_reads heartbeat_settings_post_init_def)

lemma external_reads:
  assumes "external_check_settings_post_init e = Inr ()"
  shows "parse_external (external_document e) = Inr e"
proof -
  let ?initial = "default_external (ec_tcp_host e) (ec_tcp_port e)"
  let ?m = "[(''tcp_host'', JStr (ec_tcp_host e)), (''tcp_port'', JInt (ec_tcp_port e))] @
      opt_member ''timeout_seconds'' number_document (ec_timeout_seconds ?initial) (ec_timeout_seconds e) @
      opt_member ''down_confirmations'' JInt (ec_down_confirmations ?initial) (ec_down_confirmations e) @
      opt_member ''recovery_confirmations'' JInt (ec_recovery_confirmations ?initial) (ec_recovery_confirmations e)"
  have "math_isfinite (ec_timeout_seconds e) = Inr True"
    using assms by (simp add: external_check_settings_post_init_def)
  then have "optional_field ?m ''timeout_seconds'' cs_json_number (ec_timeout_seconds ?initial) = Inr (ec_timeout_seconds e)"
    by (intro optional_field_reads [where document = number_document] number_reads)
      (simp_all add: map_of_opt_members del: map_of_append)
  moreover have "optional_field ?m ''down_confirmations'' cs_json_int (ec_down_confirmations ?initial) =
      Inr (ec_down_confirmations e)"
    by (intro optional_field_reads [where document = JInt])
      (simp_all add: map_of_opt_members cs_json_int_def del: map_of_append)
  moreover have "optional_field ?m ''recovery_confirmations'' cs_json_int (ec_recovery_confirmations ?initial) =
      Inr (ec_recovery_confirmations e)"
    by (intro optional_field_reads [where document = JInt])
      (simp_all add: map_of_opt_members cs_json_int_def del: map_of_append)
  moreover have "require_known_keys ?m external_required_fields external_optional_fields = Inr ()"
    by (rule known_keys) (auto simp: external_required_fields_def external_optional_fields_def opt_member_def)
  ultimately show ?thesis using assms
    by (cases e) (simp add: parse_external_def external_document_def cs_json_object_def item_def Let_def cs_json_string_def
        cs_json_int_def del: in_order_eq_Inr)
qed

lemma thresholds_reads:
  assumes "thresholds_post_init t = Inr ()"
  shows "parse_thresholds (thresholds_document t) = Inr t"
proof -
  let ?m = "opt_member ''cpu_percent'' number_document (th_cpu_percent default_thresholds) (th_cpu_percent t) @
      opt_member ''ram_percent'' number_document (th_ram_percent default_thresholds) (th_ram_percent t) @
      opt_member ''swap_percent'' number_document (th_swap_percent default_thresholds) (th_swap_percent t) @
      opt_member ''disk_percent'' number_document (th_disk_percent default_thresholds) (th_disk_percent t) @
      opt_member ''inode_percent'' number_document (th_inode_percent default_thresholds) (th_inode_percent t) @
      opt_member ''load5_max'' load_max_document (th_load5_max default_thresholds) (th_load5_max t)"
  have percent: "require_open_percent v = Inr () \<Longrightarrow> math_isfinite v = Inr True" for v
    by (auto simp: require_open_percent_def)
  have finite: "math_isfinite (th_cpu_percent t) = Inr True" "math_isfinite (th_ram_percent t) = Inr True"
    "math_isfinite (th_swap_percent t) = Inr True" "math_isfinite (th_disk_percent t) = Inr True"
    "math_isfinite (th_inode_percent t) = Inr True" "th_load5_max t = Some n \<Longrightarrow> math_isfinite n = Inr True" for n
    using assms by (auto simp: thresholds_post_init_def intro: percent)
  have "require_known_keys ?m [] thresholds_fields = Inr ()"
    by (rule known_keys) (auto simp: thresholds_fields_def opt_member_def)
  moreover have
    "optional_field ?m ''cpu_percent'' cs_json_number (th_cpu_percent default_thresholds) = Inr (th_cpu_percent t)"
    "optional_field ?m ''ram_percent'' cs_json_number (th_ram_percent default_thresholds) = Inr (th_ram_percent t)"
    "optional_field ?m ''swap_percent'' cs_json_number (th_swap_percent default_thresholds) = Inr (th_swap_percent t)"
    "optional_field ?m ''disk_percent'' cs_json_number (th_disk_percent default_thresholds) = Inr (th_disk_percent t)"
    "optional_field ?m ''inode_percent'' cs_json_number (th_inode_percent default_thresholds) = Inr (th_inode_percent t)"
    by (rule optional_field_reads [where document = number_document],
      simp add: map_of_opt_members del: map_of_append, rule number_reads, rule finite)+
  moreover have "optional_field ?m ''load5_max'' parse_load_max (th_load5_max default_thresholds) = Inr (th_load5_max t)"
    by (rule optional_field_reads [where document = load_max_document],
      simp add: map_of_opt_members del: map_of_append, rule load_max_reads, rule finite)
  ultimately show ?thesis using assms
    by (cases t) (simp add: parse_thresholds_def thresholds_document_def cs_json_object_def del: in_order_eq_Inr)
qed

lemma parse_each_map: "(\<And>x. x \<in> set xs \<Longrightarrow> parse (document x) = Inr x) \<Longrightarrow> parse_each parse (map document xs) = Inr xs"
  by (induction xs) simp_all

lemma host_reads:
  assumes "host_config_ok h"
  shows "parse_host (host_document h) = Inr h"
proof -
  let ?m = "[(''name'', JStr (hc_name h)), (''heartbeat'', heartbeat_document (hc_heartbeat h)),
       (''external'', external_document (hc_external h))] @
      opt_member ''thresholds'' thresholds_document default_thresholds (hc_thresholds h) @
      opt_member ''services'' (\<lambda>names. JArr (map JStr names)) [] (hc_services h)"
  have ok: "host_config_post_init h = Inr ()" "parse_heartbeat (heartbeat_document (hc_heartbeat h)) = Inr (hc_heartbeat h)"
    "parse_external (external_document (hc_external h)) = Inr (hc_external h)"
    "parse_thresholds (thresholds_document (hc_thresholds h)) = Inr (hc_thresholds h)"
    using assms heartbeat_reads external_reads thresholds_reads by (simp_all add: host_config_ok_def)
  have "require_known_keys ?m host_required_fields host_optional_fields = Inr ()"
    by (rule known_keys) (auto simp: host_required_fields_def host_optional_fields_def opt_member_def)
  moreover have "optional_field ?m ''thresholds'' parse_thresholds default_thresholds = Inr (hc_thresholds h)"
    by (rule optional_field_reads [where document = thresholds_document])
      (simp_all add: map_of_opt_members ok del: map_of_append)
  moreover have "optional_field ?m ''services'' parse_services [] = Inr (hc_services h)"
    by (rule optional_field_reads [where document = "\<lambda>names. JArr (map JStr names)"])
      (simp_all add: map_of_opt_members parse_services_def cs_json_array_def cs_json_string_def parse_each_map
        del: map_of_append)
  ultimately show ?thesis using ok
    by (cases h) (simp add: parse_host_def host_document_def cs_json_object_def cs_json_string_def item_def del: in_order_eq_Inr)
qed

lemma written_configuration_loads:
  assumes "config_ok config" "env cs_hosts_json_var = Some (EnvStr raw)" "strip raw \<noteq> []"
    and "json_loads cs_json_hooks limit raw = Inr (JArr (map host_document (sc_hosts config)))"
  shows "load_config limit env = Inr config"
proof -
  have "parse_each parse_host (map host_document (sc_hosts config)) = Inr (sc_hosts config)"
    using assms(1) by (intro parse_each_map host_reads) (simp add: config_ok_def)
  moreover have "sentinel_config_post_init config = Inr ()" using assms(1) by (simp add: config_ok_def)
  moreover have "cs_required_non_empty_string env cs_hosts_json_var = Inr raw"
    using assms(2,3) by (simp add: cs_required_non_empty_string_def env_required_def)
  ultimately show ?thesis
    using assms(4) by (cases config) (simp add: load_config_def load_json_document_def catch_res_def cs_json_array_def)
qed


abbreviation sample_document :: json where
  "sample_document \<equiv> JArr (map host_document (sc_hosts sample_config))"

lemma sample_document_facts:
  "strip (json_dumps False False sample_document) \<noteq> []"
  "json_loads cs_json_hooks 9 (json_dumps False False sample_document) = Inr sample_document"
  "config_ok sample_config"
proof -
  have doc: "sample_document = JArr [JObj [(''name'', JStr ''de''),
      (''heartbeat'', JObj [(''expected_interval_seconds'', JInt 60), (''stale_after_seconds'', JInt 180)]),
      (''external'', JObj [(''tcp_host'', JStr ''de.example''), (''tcp_port'', JInt 443)])]]"
    by (simp add: sample_config_def host_document_def heartbeat_document_def external_document_def number_document_def
        opt_member_def Let_def default_external_def)
  have "writable 9 sample_document" unfolding doc by (simp add: digit_count.simps max_int_digits_def)
  moreover have "ordered False sample_document = sample_document" unfolding doc by (simp add: member_order_def)
  ultimately show "json_loads cs_json_hooks 9 (json_dumps False False sample_document) = Inr sample_document"
    using json_loads_dumps [of 9 sample_document cs_json_hooks False False] by simp
  show "strip (json_dumps False False sample_document) \<noteq> []" unfolding doc by code_simp
  show "config_ok sample_config" by code_simp
qed


end
