(* ===== verification/Application.thy ===== *)
theory Application
  imports Io_Effect Http_Server Settings Schema Monitoring "HOL-Library.Sublist"
begin

text \<open>
  \<open>application.py\<close>: the composition root.  The state of the composed application is, from the
  outside in, the resources it owns, the engine's memory, the stored rows, the SQLite connection
  with its catalogue, and the outside world.  The components are those of the other theories, over
  the same rows for the write and the read path.
\<close>

section \<open>The outside\<close>

text \<open>Every operation of the operating system and the libraries; each may raise.\<close>

record 'v outside =
  ou_sql :: "sql \<Rightarrow> ('v, unit) io"
  ou_bind :: "string \<times> int \<Rightarrow> ('v, unit) io"
  ou_server_close :: "('v, unit) io"
  ou_clock :: "('v, pyvalue) io"
  ou_monotonic :: "('v, pyfloat) io"
  ou_statement :: "('v, unit) io"
  ou_set_timeout :: "pyfloat \<Rightarrow> ('v, unit) io"
  ou_next_request :: "('v, (parsed_request \<times> bool) option) io"
  ou_read :: "nat \<Rightarrow> ('v, string) io"
  ou_write :: "emission \<Rightarrow> ('v, unit) io"
  ou_create_connection :: "string \<times> int \<Rightarrow> pynum \<Rightarrow> ('v, nat) io"
  ou_close_socket :: "nat \<Rightarrow> ('v, unit) io"
  ou_opener :: "'v opener"
  ou_body_limit :: nat
  ou_telegram_limit :: nat
  ou_frames :: nat

text \<open>
  What the application owns: whether the connection and the listener are open (a close that was
  attempted ends the ownership, whatever it raises), and the requests the listener has accepted.
\<close>

record owned =
  ow_connection :: bool
  ow_listener :: bool
  ow_served :: "parsed_request list"

type_synonym 'v app_state = "owned \<times> resolutions \<times> heartbeat_db \<times> connection \<times> 'v"

definition at_connection :: "(connection \<times> 'v, 'a) io \<Rightarrow> ('v app_state, 'a) io" where
  "at_connection m = on_snd (on_snd (on_snd m))"

definition at_outside :: "('v, 'a) io \<Rightarrow> ('v app_state, 'a) io" where
  "at_outside m = at_connection (on_snd m)"

definition acquire :: "(owned \<Rightarrow> owned) \<Rightarrow> (owned \<times> 's, 'a) io \<Rightarrow> (owned \<times> 's, 'a) io" where
  "acquire mark m = bind_io m (\<lambda>x (ow, s). (Inr x, mark ow, s))"

definition release :: "(owned \<Rightarrow> owned) \<Rightarrow> (owned \<times> 's, unit) io \<Rightarrow> (owned \<times> 's, unit) io" where
  "release mark m = (\<lambda>(ow, s). m (mark ow, s))"

definition open_connection :: "'v outside \<Rightarrow> ('v app_state, unit) io" where
  "open_connection out = acquire (ow_connection_update (\<lambda>_. True)) (at_connection (connect (ou_sql out)))"

definition close_connection :: "'v outside \<Rightarrow> ('v app_state, unit) io" where
  "close_connection out =
     release (ow_connection_update (\<lambda>_. False)) (at_connection (run_sql (ou_sql out) CloseDatabase sql_rollback))"

definition close_listener :: "'v outside \<Rightarrow> ('v app_state, unit) io" where
  "close_listener out = release (ow_listener_update (\<lambda>_. False)) (at_outside (ou_server_close out))"

section \<open>The composed runtime\<close>

text \<open>The next accepted request, if one arrives within the accept timeout\<close>

definition next_request :: "'v outside \<Rightarrow> ('v app_state, (parsed_request \<times> bool) option) io" where
  "next_request out =
     bind_io (at_outside (ou_next_request out)) (\<lambda>q (ow, s).
       (Inr q, ow\<lparr>ow_served := ow_served ow @ (case q of None \<Rightarrow> [] | Some (r, _) \<Rightarrow> [r])\<rparr>, s))"

text \<open>
  \<open>BaseServer.handle_request\<close>: one request at most; what the handler raises inside \<open>Exception\<close> goes
  to \<open>handle_error\<close> and does not leave the server.
\<close>

definition serve_request ::
  "'v outside \<Rightarrow> (api_request \<Rightarrow> (heartbeat_db \<times> connection \<times> 'v, api_response) io) \<Rightarrow> ('v app_state, unit) io"
where
  "serve_request out adapter =
     bind_io (next_request out) (\<lambda>q. case q of
       None \<Rightarrow> return_io ()
     | Some (request, expects_continue) \<Rightarrow>
         catch_io
           (on_snd (on_snd (serve_parsed (\<lambda>n. on_snd (on_snd (ou_read out n))) adapter
             (\<lambda>em. on_snd (on_snd (ou_write out em))) expects_continue request)))
           is_exception (\<lambda>_. return_io ()))"

definition application_adapter ::
  "central_settings \<Rightarrow> 'v outside \<Rightarrow> api_request \<Rightarrow> (heartbeat_db \<times> connection \<times> 'v, api_response) io" where
  "application_adapter settings out =
     heartbeat_endpoint (cn_config settings) (cn_credentials settings) (on_snd (ou_clock out))
       (on_snd (ou_statement out)) (ou_body_limit out) (ou_frames out)"

definition application_cycle ::
  "central_settings \<Rightarrow> 'v outside \<Rightarrow> (resolutions \<times> heartbeat_db \<times> connection \<times> 'v, host_monitoring_result list) io"
where
  "application_cycle settings out =
     monitoring_run (cn_config settings) (on_snd (ou_clock out)) (on_snd (ou_statement out))
       (\<lambda>address timeout. on_snd (ou_create_connection out address timeout))
       (\<lambda>socket. on_snd (ou_close_socket out socket))
       (\<lambda>subject. on_snd (tg_send (ou_telegram_limit out) (ou_opener out) (cn_telegram settings) subject))"

definition application_runtime ::
  "central_settings \<Rightarrow> 'v outside \<Rightarrow>
    (heartbeat_db \<times> connection \<times> 'v) heartbeat_http_server \<Rightarrow> 'v app_state sentinel_runtime" where
  "application_runtime settings out server =
     \<lparr>sr_set_timeout = (\<lambda>t. at_outside (ou_set_timeout out t)),
      sr_handle_request = serve_request out (hs_adapter server),
      sr_cycle = bind_io (on_snd (application_cycle settings out)) (\<lambda>_. return_io ()),
      sr_monotonic = at_outside (ou_monotonic out),
      sr_interval = cn_monitor_interval_seconds settings, sr_poll = cn_poll_interval_seconds settings\<rparr>"

section \<open>Construction and cleanup\<close>

definition close_rolling_back :: "('s, unit) io \<Rightarrow> ('s, unit) io" where
  "close_rolling_back close = catch_io close (\<lambda>_. True) (\<lambda>_. return_io ())"

text \<open>\<open>except BaseException: _close_rolling_back(close); raise\<close>\<close>

definition or_roll_back :: "('s, unit) io \<Rightarrow> ('s, 'a) io \<Rightarrow> ('s, 'a) io" where
  "or_roll_back close m =
     catch_io m (\<lambda>_. True) (\<lambda>e. bind_io (close_rolling_back close) (\<lambda>_. lift_io (Inl e)))"

record 'v sentinel_application =
  sa_runtime :: "'v app_state sentinel_runtime"
  sa_server_close :: "('v app_state, unit) io"
  sa_connection_close :: "('v app_state, unit) io"

definition build_application ::
  "'v outside \<Rightarrow> central_settings \<Rightarrow> ('v app_state, 'v sentinel_application) io" where
  "build_application out settings =
     bind_io (open_connection out) (\<lambda>_.
     or_roll_back (close_connection out)
       (bind_io (at_connection (heartbeat_repository_init (ou_sql out))) (\<lambda>_.
        bind_io
          (acquire (ow_listener_update (\<lambda>_. True))
            (on_snd (on_snd (create_heartbeat_http_server (\<lambda>address. on_snd (on_snd (ou_bind out address)))
              (application_adapter settings out) (cn_listen_host settings) (cn_listen_port settings)))))
          (\<lambda>server.
          or_roll_back (close_listener out)
            (bind_io (\<lambda>(ow, memory, s). (Inr (), ow, Map.empty, s)) (\<lambda>_.
             let runtime = application_runtime settings out server in
             bind_io (lift_io (sentinel_runtime_init runtime)) (\<lambda>_.
               return_io \<lparr>sa_runtime = runtime, sa_server_close = close_listener out,
                          sa_connection_close = close_connection out\<rparr>)))))))"

text \<open>The stop predicate may have a state of its own in front of the application's.\<close>

definition application_run_forever ::
  "'v sentinel_application \<Rightarrow> ('o \<times> 'v app_state, bool) io option \<Rightarrow> 'o \<times> 'v app_state \<Rightarrow>
    (unit res \<times> 'o \<times> 'v app_state) option" where
  "application_run_forever app should_stop = run_forever (lift_runtime (sa_runtime app)) should_stop"

definition finally_io :: "('s, 'a) io \<Rightarrow> ('s, unit) io \<Rightarrow> ('s, 'a) io" where
  "finally_io m m' =
     (\<lambda>s. let (r, s1) = m s; (r', s2) = m' s1 in (case r' of Inl e \<Rightarrow> Inl e | Inr _ \<Rightarrow> r, s2))"

definition application_close :: "'v sentinel_application \<Rightarrow> ('v app_state, unit) io" where
  "application_close app = finally_io (sa_server_close app) (sa_connection_close app)"

text \<open>\<open>with build_application(settings) as application\<close>\<close>

definition application_enter :: "'v sentinel_application \<Rightarrow> ('v app_state, 'v sentinel_application) io" where
  "application_enter app = return_io app"

definition application_exit :: "'v sentinel_application \<Rightarrow> ('v app_state, unit) io" where
  "application_exit app = application_close app"

lemma application_with [simp]: "bind_io m application_enter = m" "application_exit = application_close"
  by (simp_all add: fun_eq_iff bind_io_split application_enter_def application_exit_def case_prod_beta split: sum.splits)
    (metis prod.collapse)+

text \<open>\<open>SentinelApplication.__repr__\<close>: the types of the parts, with the server class of \<open>http_server.py\<close>\<close>

definition application_repr :: "'v sentinel_application \<Rightarrow> string" where
  "application_repr app =
     ''<SentinelApplication runtime=SentinelRuntime heartbeat_server=_HeartbeatHTTPServer connection=Connection>''"

section \<open>What construction does\<close>

lemma or_roll_back_run:
  "or_roll_back close m s =
    (case m s of (Inl e, s1) \<Rightarrow> (Inl e, snd (close s1)) | (Inr x, s1) \<Rightarrow> (Inr x, s1))"
  by (cases "m s"; cases "fst (m s)")
    (auto simp: or_roll_back_def close_rolling_back_def catch_io_split bind_io_split split: sum.splits)

text \<open>The steps of the composition, in order.\<close>

definition bootstrap_step :: "'v outside \<Rightarrow> ('v app_state, unit) io" where
  "bootstrap_step out = at_connection (heartbeat_repository_init (ou_sql out))"

definition listen_step ::
  "'v outside \<Rightarrow> central_settings \<Rightarrow> ('v app_state, (heartbeat_db \<times> connection \<times> 'v) heartbeat_http_server) io" where
  "listen_step out settings =
     acquire (ow_listener_update (\<lambda>_. True))
       (on_snd (on_snd (create_heartbeat_http_server (\<lambda>address. on_snd (on_snd (ou_bind out address)))
         (application_adapter settings out) (cn_listen_host settings) (cn_listen_port settings))))"

definition forget :: "'v app_state \<Rightarrow> 'v app_state" where
  "forget s = (case s of (ow, memory, rest) \<Rightarrow> (ow, Map.empty, rest))"

definition composed :: "'v outside \<Rightarrow> central_settings \<Rightarrow> 'v sentinel_application" where
  "composed out settings =
     \<lparr>sa_runtime = application_runtime settings out
        \<lparr>hs_address = (cn_listen_host settings, cn_listen_port settings), hs_adapter = application_adapter settings out\<rparr>,
      sa_server_close = close_listener out, sa_connection_close = close_connection out\<rparr>"

lemma listen_step_server:
  "listen_step out settings s = (Inr server, s') \<Longrightarrow>
    server = \<lparr>hs_address = (cn_listen_host settings, cn_listen_port settings), hs_adapter = application_adapter settings out\<rparr>"
  by (cases s) (auto simp: listen_step_def acquire_def create_heartbeat_http_server_def bind_io_split on_snd_def
      split: sum.splits prod.splits)

lemma build_application_steps:
  "build_application out settings s =
    (case open_connection out s of
       (Inl e, s1) \<Rightarrow> (Inl e, s1)
     | (Inr _, s1) \<Rightarrow>
         (case bootstrap_step out s1 of
            (Inl e, s2) \<Rightarrow> (Inl e, snd (close_connection out s2))
          | (Inr _, s2) \<Rightarrow>
              (case listen_step out settings s2 of
                 (Inl e, s3) \<Rightarrow> (Inl e, snd (close_connection out s3))
               | (Inr _, s3) \<Rightarrow>
                   (case sentinel_runtime_init (sa_runtime (composed out settings)) of
                      Inl e \<Rightarrow> (Inl e, snd (close_connection out (snd (close_listener out (forget s3)))))
                    | Inr _ \<Rightarrow> (Inr (composed out settings), forget s3)))))"
proof -
  obtain x1 s1 where 1: "open_connection out s = (x1, s1)" by (rule prod.exhaust)
  obtain x2 s2 where 2: "bootstrap_step out s1 = (x2, s2)" by (rule prod.exhaust)
  obtain x3 s3 where 3: "listen_step out settings s2 = (x3, s3)" by (rule prod.exhaust)
  obtain ow memory rest where s3: "s3 = (ow, memory, rest)" by (rule prod_cases3)
  show ?thesis
  proof (cases x3)
    case (Inl e)
    then show ?thesis using 1 2 3
      by (cases x1; cases x2)
        (simp_all add: build_application_def or_roll_back_run bind_io_def bootstrap_step_def listen_step_def)
  next
    case (Inr server)
    have server: "application_runtime settings out server = sa_runtime (composed out settings)"
      using listen_step_server [OF 3 [unfolded Inr]] by (simp add: composed_def)
    then show ?thesis using 1 2 3 Inr
      by (cases x1; cases x2; cases "sentinel_runtime_init (application_runtime settings out server)")
        (simp_all add: build_application_def or_roll_back_run bind_io_def bootstrap_step_def listen_step_def s3
          forget_def Let_def lift_io_def return_io_def composed_def)
  qed
qed

text \<open>What the pieces do to the owned resources, the rows and the memory.\<close>

lemma acquire_run:
  "acquire mark (on_snd m) (ow, s) = (case m s of (Inl e, s') \<Rightarrow> (Inl e, ow, s') | (Inr x, s') \<Rightarrow> (Inr x, mark ow, s'))"
  by (auto simp: acquire_def bind_io_def on_snd_def split: prod.splits sum.splits)

lemma release_run: "release mark (on_snd m) (ow, s) = (fst (m s), mark ow, snd (m s))"
  by (simp add: release_def)

lemma open_connection_run:
  "open_connection out (ow, mem, db, w) =
    (case connect (ou_sql out) w of
       (Inl e, w') \<Rightarrow> (Inl e, ow, mem, db, w')
     | (Inr _, w') \<Rightarrow> (Inr (), ow\<lparr>ow_connection := True\<rparr>, mem, db, w'))"
  by (auto simp: open_connection_def at_connection_def acquire_run split: prod.splits sum.splits)

lemma close_connection_run:
  "close_connection out (ow, mem, db, w) =
    (fst (run_sql (ou_sql out) CloseDatabase sql_rollback w), ow\<lparr>ow_connection := False\<rparr>, mem, db,
     snd (run_sql (ou_sql out) CloseDatabase sql_rollback w))"
  by (simp add: close_connection_def at_connection_def release_run)

lemma close_listener_run:
  "close_listener out (ow, mem, db, cx, v) =
    (fst (ou_server_close out v), ow\<lparr>ow_listener := False\<rparr>, mem, db, cx, snd (ou_server_close out v))"
  by (simp add: close_listener_def at_outside_def at_connection_def release_run)

lemma bootstrap_step_run:
  "bootstrap_step out (ow, mem, db, w) =
    (fst (heartbeat_repository_init (ou_sql out) w), ow, mem, db, snd (heartbeat_repository_init (ou_sql out) w))"
  by (simp add: bootstrap_step_def at_connection_def)

lemma listen_step_run:
  "listen_step out settings (ow, mem, db, cx, v) =
    (case ou_bind out (cn_listen_host settings, cn_listen_port settings) v of
       (Inl e, v') \<Rightarrow> (Inl e, ow, mem, db, cx, v')
     | (Inr _, v') \<Rightarrow>
         (Inr \<lparr>hs_address = (cn_listen_host settings, cn_listen_port settings), hs_adapter = application_adapter settings out\<rparr>,
          ow\<lparr>ow_listener := True\<rparr>, mem, db, cx, v'))"
  by (auto simp: listen_step_def acquire_run create_heartbeat_http_server_def bind_io_split split: prod.splits sum.splits)

lemmas application_steps = open_connection_run close_connection_run close_listener_run bootstrap_step_run listen_step_run

text \<open>What a build leaves behind.\<close>

definition nothing_owned :: "owned \<Rightarrow> bool" where
  "nothing_owned ow \<longleftrightarrow> \<not> ow_connection ow \<and> \<not> ow_listener ow"

text \<open>The exception of the first step that fails.\<close>

definition first_failure :: "'v outside \<Rightarrow> central_settings \<Rightarrow> connection \<times> 'v \<Rightarrow> exn \<Rightarrow> bool" where
  "first_failure out settings w e \<longleftrightarrow>
     (case connect (ou_sql out) w of
        (Inl e', _) \<Rightarrow> e = e'
      | (Inr _, w1) \<Rightarrow>
          (case heartbeat_repository_init (ou_sql out) w1 of
             (Inl e', _) \<Rightarrow> e = e'
           | (Inr _, _, v2) \<Rightarrow>
               (case ou_bind out (cn_listen_host settings, cn_listen_port settings) v2 of
                  (Inl e', _) \<Rightarrow> e = e'
                | (Inr _, _) \<Rightarrow> sentinel_runtime_init (sa_runtime (composed out settings)) = Inl e)))"

lemma build_effect:
  assumes "build_application out settings (ow, mem, db, cx, v) = (r, ow', mem', db', cx', v')" "nothing_owned ow"
  shows "db' = db \<and> ow_served ow' = ow_served ow \<and>
    (case r of Inl e \<Rightarrow> nothing_owned ow' \<and> first_failure out settings (cx, v) e
     | Inr app \<Rightarrow> app = composed out settings \<and> mem' = Map.empty \<and> ow_connection ow' \<and> ow_listener ow')"
proof -
  obtain x1 w1 where 1: "connect (ou_sql out) (cx, v) = (x1, w1)" by (rule prod.exhaust)
  obtain x2 cx2 v2 where 2: "heartbeat_repository_init (ou_sql out) w1 = (x2, cx2, v2)" by (rule prod_cases3)
  obtain x3 v3 where 3: "ou_bind out (cn_listen_host settings, cn_listen_port settings) v2 = (x3, v3)"
    by (rule prod.exhaust)
  show ?thesis
  proof (cases x1)
    case (Inl e)
    then show ?thesis using assms 1 by (auto simp: build_application_steps open_connection_run first_failure_def)
  next
    case x1: (Inr u)
    show ?thesis
    proof (cases x2)
      case (Inl e)
      then show ?thesis using assms 1 2 x1
        by (simp add: build_application_steps open_connection_run bootstrap_step_run close_connection_run)
          (auto simp: nothing_owned_def first_failure_def)
    next
      case x2: (Inr u)
      show ?thesis
      proof (cases x3)
        case (Inl e)
        then show ?thesis using assms 1 2 3 x1 x2
          by (simp add: build_application_steps open_connection_run bootstrap_step_run close_connection_run listen_step_run)
            (auto simp: nothing_owned_def first_failure_def)
      next
        case x3: (Inr u)
        show ?thesis using assms 1 2 3 x1 x2 x3
          by (cases "sentinel_runtime_init (sa_runtime (composed out settings))";
              simp add: build_application_steps open_connection_run bootstrap_step_run close_connection_run
                listen_step_run close_listener_run forget_def)
            (auto simp: nothing_owned_def first_failure_def)
      qed
    qed
  qed
qed

section \<open>What a run does to the rows\<close>

text \<open>
  Between two states of a run, the resources stay owned, requests are accepted, rows are appended,
  and each new row was authored by a request of its own, in their order.
\<close>

definition grows :: "(string \<times> string) list \<Rightarrow> 'v app_state \<Rightarrow> 'v app_state \<Rightarrow> bool" where
  "grows creds s s' \<longleftrightarrow>
     (case s of (ow, _, db, _) \<Rightarrow> case s' of (ow', _, db', _) \<Rightarrow>
       ow_connection ow' = ow_connection ow \<and> ow_listener ow' = ow_listener ow \<and>
       (\<exists>requests rows authors. ow_served ow' = ow_served ow @ requests \<and> db_rows db' = db_rows db @ rows \<and>
          subseq authors requests \<and> list_all2 (authored creds) authors rows))"

lemma grows_refl: "grows creds s s"
  by (auto simp: grows_def split: prod.splits intro!: exI [of _ "[]"])

lemma grows_trans:
  assumes "grows creds s t" "grows creds t u"
  shows "grows creds s u"
proof -
  obtain ow mem db w where s: "s = (ow, mem, db, w)" by (cases s)
  obtain ow' mem' db' w' where t: "t = (ow', mem', db', w')" by (cases t)
  obtain ow'' mem'' db'' w'' where u: "u = (ow'', mem'', db'', w'')" by (cases u)
  obtain q1 r1 a1 where 1: "ow_served ow' = ow_served ow @ q1" "db_rows db' = db_rows db @ r1" "subseq a1 q1"
    "list_all2 (authored creds) a1 r1"
    using assms(1) by (auto simp: grows_def s t)
  obtain q2 r2 a2 where 2: "ow_served ow'' = ow_served ow' @ q2" "db_rows db'' = db_rows db' @ r2" "subseq a2 q2"
    "list_all2 (authored creds) a2 r2"
    using assms(2) by (auto simp: grows_def t u)
  have "subseq (a1 @ a2) (q1 @ q2)" using 1(3) 2(3) by (rule list_emb_append_mono)
  moreover have "list_all2 (authored creds) (a1 @ a2) (r1 @ r2)" using 1(4) 2(4) by (rule list_all2_appendI)
  ultimately show ?thesis using assms 1(1,2) 2(1,2) by (auto simp: grows_def s t u)
qed

interpretation growth: io_effect "grows creds" for creds
  by unfold_locales (auto intro: grows_refl grows_trans)

lemma grows_outside: "moves (grows creds) (at_outside m)"
  using grows_refl by (fastforce simp: moves_def at_outside_def at_connection_def grows_def on_snd_def split: prod.splits)

lemma monitoring_keeps_rows:
  "monitor_hosts (evaluate_host config clock execute create close) (\<lambda>t. on_snd (on_snd (notify t))) hs rs (mem, db, w) =
    (r, mem', db', w') \<Longrightarrow> db' = db"
proof (induction hs arbitrary: rs mem w)
  case (Cons h hs)
  obtain x mem1 db1 w1 where 1: "evaluate_host config clock execute create close (hc_name h) (mem, db, w) = (x, mem1, db1, w1)"
    by (metis prod.exhaust)
  have db: "db1 = db" using evaluate_host_cases [OF 1] by simp
  show ?case
  proof (cases x)
    case (Inl e)
    then show ?thesis using Cons.prems 1 db by simp
  next
    case (Inr ev)
    obtain y w2 where 2: "notify (ev_transition ev) w1 = (y, w2)" by (rule prod.exhaust)
    then show ?thesis using Cons.prems Cons.IH 1 db Inr by (cases y) auto
  qed
qed simp

lemma grows_cycle: "moves (grows creds :: 'v app_state \<Rightarrow> 'v app_state \<Rightarrow> bool) (on_snd (application_cycle settings out))"
proof (rule movesI)
  fix s s' :: "'v app_state" and r
  assume run: "on_snd (application_cycle settings out) s = (r, s')"
  obtain ow mem db w where s: "s = (ow, mem, db, w)" by (cases s)
  obtain mem' db' w' where 1: "application_cycle settings out (mem, db, w) = (r, mem', db', w')" "s' = (ow, mem', db', w')"
    using run by (cases "application_cycle settings out (mem, db, w)") (auto simp: s)
  have "db' = db" using monitoring_keeps_rows 1(1) unfolding application_cycle_def monitoring_run_def .
  then show "grows creds s s'" using 1 grows_refl [of creds s] by (auto simp: s grows_def)
qed

lemma dispatch_grows:
  assumes "node_credentials tokens = Inr (cn_credentials settings)"
    and "dispatch (\<lambda>n. on_snd (on_snd (ou_read out n))) (application_adapter settings out)
      (\<lambda>em. on_snd (on_snd (ou_write out em))) q (db, w) = (r, db', w')"
  shows "db' = db \<or> (\<exists>row. db_rows db' = db_rows db @ [row] \<and> authored (cn_credentials settings) q row)"
  using dispatch_answers [OF assms(1) assms(2) [unfolded application_adapter_def]]
  by (auto split: if_splits)

lemma serve_parsed_grows:
  assumes "node_credentials tokens = Inr (cn_credentials settings)"
    and "serve_parsed (\<lambda>n. on_snd (on_snd (ou_read out n))) (application_adapter settings out)
      (\<lambda>em. on_snd (on_snd (ou_write out em))) expects q (db, w) = (r, db', w')"
  shows "db' = db \<or> (\<exists>row. db_rows db' = db_rows db @ [row] \<and> authored (cn_credentials settings) q row)"
proof (cases "expects \<and> \<not> fst (handle_expect_100 q)")
  case True
  then show ?thesis using assms(2)
    by (auto simp: serve_parsed_def handle_expect_100_def bind_io_split split: if_splits sum.splits)
next
  case False
  then have "dispatch (\<lambda>n. on_snd (on_snd (ou_read out n))) (application_adapter settings out)
      (\<lambda>em. on_snd (on_snd (ou_write out em))) q (db, w) = (r, db', w')"
    using assms(2) by (auto simp: serve_parsed_def handle_expect_100_def bind_io_def split: if_splits)
  then show ?thesis by (rule dispatch_grows [OF assms(1)])
qed

lemma next_request_run:
  "next_request out (ow, mem, db, cx, v) = (r, s') \<Longrightarrow>
    \<exists>v'. s' = (ow\<lparr>ow_served := ow_served ow @ (case r of Inr (Some (q, _)) \<Rightarrow> [q] | _ \<Rightarrow> [])\<rparr>, mem, db, cx, v')"
  by (cases "ou_next_request out v"; cases "fst (ou_next_request out v)")
    (auto simp: next_request_def at_outside_def at_connection_def bind_io_split split: option.splits)

lemma grows_request:
  assumes "node_credentials tokens = Inr (cn_credentials settings)"
  shows "moves (grows (cn_credentials settings)) (serve_request out (application_adapter settings out))"
proof (rule movesI)
  fix s r s'
  assume run: "serve_request out (application_adapter settings out) s = (r, s')"
  obtain ow mem db cx v where s: "s = (ow, mem, db, cx, v)" by (cases s)
  obtain x s1 where 1: "next_request out s = (x, s1)" by (rule prod.exhaust)
  from next_request_run [OF 1 [unfolded s]] obtain v1 where
    s1: "s1 = (ow\<lparr>ow_served := ow_served ow @ (case x of Inr (Some (q, _)) \<Rightarrow> [q] | _ \<Rightarrow> [])\<rparr>, mem, db, cx, v1)" by blast
  show "grows (cn_credentials settings) s s'"
  proof (cases "\<exists>q expects. x = Inr (Some (q, expects))")
    case False
    then have "s' = s1" using run 1 by (auto simp: serve_request_def bind_io_split split: sum.splits option.splits)
    moreover have "s1 = (ow, mem, db, cx, v1)" using False s1 by (auto split: sum.splits option.splits)
    ultimately show ?thesis using grows_refl [of "cn_credentials settings" s] by (simp add: s grows_def)
  next
    case True
    then obtain q expects where q: "x = Inr (Some (q, expects))" by blast
    let ?m = "serve_parsed (\<lambda>n. on_snd (on_snd (ou_read out n))) (application_adapter settings out)
      (\<lambda>em. on_snd (on_snd (ou_write out em))) expects q"
    obtain y db' w' where d: "?m (db, cx, v1) = (y, db', w')" by (rule prod_cases3)
    have "s' = (ow\<lparr>ow_served := ow_served ow @ [q]\<rparr>, mem, db', w')"
      using run 1 d by (auto simp: serve_request_def bind_io_split catch_io_split q s1 split: sum.splits if_splits)
    moreover from serve_parsed_grows [OF assms d] have
      "\<exists>rows authors. db_rows db' = db_rows db @ rows \<and> subseq authors [q] \<and>
        list_all2 (authored (cn_credentials settings)) authors rows"
    proof
      assume "db' = db"
      then show ?thesis by (intro exI [of _ "[]"]) simp
    next
      assume "\<exists>row. db_rows db' = db_rows db @ [row] \<and> authored (cn_credentials settings) q row"
      then obtain row where "db_rows db' = db_rows db @ [row]" "authored (cn_credentials settings) q row" by blast
      then show ?thesis by (intro exI [of _ "[row]"] exI [of _ "[q]"]) simp
    qed
    ultimately show ?thesis by (auto simp: s grows_def)
  qed
qed

lemma composed_grows:
  assumes "node_credentials tokens = Inr (cn_credentials settings)"
  shows "moves (grows (cn_credentials settings)) (sr_monotonic (sa_runtime (composed out settings)))"
    "moves (grows (cn_credentials settings)) (sr_cycle (sa_runtime (composed out settings)))"
    "moves (grows (cn_credentials settings)) (sr_set_timeout (sa_runtime (composed out settings)) t)"
    "moves (grows (cn_credentials settings)) (sr_handle_request (sa_runtime (composed out settings)))"
  using grows_request [OF assms, of out]
  by (auto simp: composed_def application_runtime_def intro: grows_outside growth.moves_bind grows_cycle growth.moves_return)

section \<open>What closing does\<close>

lemma close_effect:
  assumes "application_close (composed out settings) (ow, mem, db, cx, v) = (r, ow', mem', db', w')"
  shows "nothing_owned ow' \<and> ow_served ow' = ow_served ow \<and> mem' = mem \<and> db' = db"
  using assms
  by (auto simp: application_close_def finally_io_def composed_def close_listener_run close_connection_run
      nothing_owned_def split: prod.splits)

section \<open>Ownership\<close>

text \<open>C20: construction owns both resources or none: a build that returns has opened the connection and the
  listener and nothing more, with an empty engine memory; a build that raises has attempted to close
  whatever it had opened, and its exception is that of the first step that failed, whatever the
  rollback raised.  Neither touches a row.\<close>

theorem build_owns_or_releases:
  assumes "build_application out settings (ow, mem, db, cx, v) = (r, ow', mem', db', cx', v')" "nothing_owned ow"
  shows "db' = db \<and> ow_served ow' = ow_served ow \<and>
    (case r of Inl e \<Rightarrow> nothing_owned ow' \<and> first_failure out settings (cx, v) e
     | Inr app \<Rightarrow> app = composed out settings \<and> mem' = Map.empty \<and> ow_connection ow' \<and> ow_listener ow')"
  by (rule build_effect [OF assms])

text \<open>An outside that works, where nothing arrives, with a given outcome of binding the port.\<close>

definition sample_outside :: "unit res \<Rightarrow> unit outside" where
  "sample_outside bound =
     \<lparr>ou_sql = no_fault, ou_bind = (\<lambda>_ w. (bound, w)), ou_server_close = return_io (),
      ou_clock = return_io (PyDatetime (utc_datetime 0)), ou_monotonic = return_io (Fin 0),
      ou_statement = return_io (), ou_set_timeout = (\<lambda>_. return_io ()), ou_next_request = return_io None,
      ou_read = (\<lambda>n. return_io []), ou_write = (\<lambda>_. return_io ()),
      ou_create_connection = (\<lambda>_ _. lift_io (Inl OSError)), ou_close_socket = (\<lambda>_. return_io ()),
      ou_opener = (\<lambda>_ _. lift_io (Inl OSError)), ou_body_limit = 99, ou_telegram_limit = 99, ou_frames = 99\<rparr>"

definition sample_telegram :: telegram_settings where
  "sample_telegram =
     \<lparr>ts_bot_token = ''1:a'', ts_chat_id = - 42, ts_message_thread_id = None, ts_timeout_seconds = PFlt (Fin 10)\<rparr>"

definition sample_settings :: central_settings where
  "sample_settings =
     \<lparr>cn_config = sample_config, cn_credentials = [(''de'', ''k'')], cn_telegram = sample_telegram,
      cn_database_path = ''/var/db'', cn_listen_host = ''::'', cn_listen_port = 80,
      cn_monitor_interval_seconds = Fin (5 / 2), cn_poll_interval_seconds = Fin (5 / 2)\<rparr>"

definition bootstrapped :: connection where
  "bootstrapped =
     \<lparr>cx_schema = (with_index (with_table (cx_schema fresh_connection)))\<lparr>sc_version := schema_version_1\<rparr>,
      cx_before = None\<rparr>"

lemma sample_connect:
  "connect no_fault (fresh_connection, ()) = (Inr (), bootstrapped, ())"
  "heartbeat_repository_init no_fault (bootstrapped, ()) = (Inr (), bootstrapped, ())"
proof -
  show "connect no_fault (fresh_connection, ()) = (Inr (), bootstrapped, ())"
    using fresh_run(2) by (simp add: connect_def bind_io_def catch_io_def run_sql_def no_fault_def bootstrapped_def)
  have "wf_catalogue (cx_schema fresh_connection)" "names_free (cx_schema fresh_connection)"
    by (simp_all add: fresh_connection_def wf_catalogue_def names_free_def)
  then have "accepted (cx_schema bootstrapped)"
    using transaction_accepted initialize_schema_outcome [OF _ fresh_run(2)]
    by (fastforce simp: bootstrapped_def fresh_connection_def)
  then show "heartbeat_repository_init no_fault (bootstrapped, ()) = (Inr (), bootstrapped, ())"
    unfolding heartbeat_repository_init_def by (rule accepted_again) (simp_all add: bootstrapped_def no_fault_def)
qed

definition unowned :: owned where
  "unowned = \<lparr>ow_connection = False, ow_listener = False, ow_served = []\<rparr>"

theorem build_owns_or_releases_witness:
  "\<exists>ow' mem' cx'. build_application (sample_outside (Inl OSError)) sample_settings
      (unowned, Map.empty, empty_db, fresh_connection, ()) = (Inl OSError, ow', mem', empty_db, cx', ()) \<and>
    nothing_owned ow'"
proof -
  let ?out = "sample_outside (Inl OSError)"
  have out: "ou_sql ?out = no_fault" "ou_bind ?out a = (\<lambda>w. (Inl OSError, w))" for a
    by (simp_all add: sample_outside_def)
  obtain ow' mem' cx' where run: "build_application ?out sample_settings
      (unowned, Map.empty, empty_db, fresh_connection, ()) = (Inl OSError, ow', mem', empty_db, cx', ())"
    by (simp add: build_application_steps open_connection_run bootstrap_step_run listen_step_run close_connection_run
        sample_connect out run_sql_def no_fault_def sql_rollback_def)
  have "nothing_owned unowned" by (simp add: nothing_owned_def unowned_def)
  from build_owns_or_releases [OF run this] run show ?thesis by auto
qed

end
