(* ===== verification/Process.thy ===== *)
theory Process
  imports Application
begin

text \<open>
  \<open>process.py\<close>: the central process.  In front of the application's state stand the stop request and
  the process's handlers of the two stop signals.  A handler only sets the request, so a signal that
  arrives is accounted for at the next evaluation of the stop predicate.
\<close>

section \<open>Signals\<close>

datatype stop_signal = SIGTERM | SIGINT

text \<open>
  What \<open>signal.getsignal\<close> returns: something \<open>signal.signal\<close> accepts (a Python handler, a library
  constant or an integer), \<open>None\<close> for a handler that was not installed from Python, or the handler of
  this module.
\<close>

datatype handler = Installable nat | NotFromPython | OnStopSignal

datatype signal_call = GetSignal stop_signal | SetSignal stop_signal handler

record process_state =
  ps_requested :: bool
  ps_handlers :: "stop_signal \<Rightarrow> handler"

type_synonym 'v process = "process_state \<times> 'v app_state"

record 'v signals =
  sg_fault :: "signal_call \<Rightarrow> ('v, unit) io"
  sg_arrived :: "'v \<Rightarrow> bool \<times> 'v"

definition stop_signals :: "stop_signal list" where "stop_signals = [SIGTERM, SIGINT]"

definition get_handler :: "'v signals \<Rightarrow> stop_signal \<Rightarrow> ('v process, handler) io" where
  "get_handler sg signum =
     bind_io (on_snd (at_outside (sg_fault sg (GetSignal signum)))) (\<lambda>_ (p, s). (Inr (ps_handlers p signum), p, s))"

text \<open>\<open>signal.signal\<close> refuses \<open>None\<close> with a \<open>TypeError\<close>.\<close>

definition set_handler :: "'v signals \<Rightarrow> stop_signal \<Rightarrow> handler \<Rightarrow> ('v process, unit) io" where
  "set_handler sg signum h =
     (if h = NotFromPython then lift_io (Inl TypeError)
      else bind_io (on_snd (at_outside (sg_fault sg (SetSignal signum h)))) (\<lambda>_ (p, s).
        (Inr (), p\<lparr>ps_handlers := (ps_handlers p)(signum := h)\<rparr>, s)))"

text \<open>The loop of \<open>_restore_stop_handlers\<close> with the first failure so far\<close>

fun restore_each :: "'v signals \<Rightarrow> exn option \<Rightarrow> (stop_signal \<times> handler) list \<Rightarrow> ('v process, exn option) io" where
  "restore_each sg failure [] = return_io failure"
| "restore_each sg failure ((signum, previous) # rest) =
     bind_io (catch_io (bind_io (set_handler sg signum previous) (\<lambda>_. return_io None)) (\<lambda>_. True)
         (\<lambda>e. return_io (Some e))) (\<lambda>raised.
       restore_each sg (case failure of None \<Rightarrow> raised | Some e \<Rightarrow> Some e) rest)"

definition restore_stop_handlers :: "'v signals \<Rightarrow> (stop_signal \<times> handler) list \<Rightarrow> bool \<Rightarrow> ('v process, unit) io" where
  "restore_stop_handlers sg installed swallow_failures =
     bind_io (restore_each sg None (rev installed)) (\<lambda>failure.
       case failure of
         None \<Rightarrow> return_io ()
       | Some e \<Rightarrow> if \<not> swallow_failures then lift_io (Inl e) else return_io ())"

text \<open>The loop of \<open>_install_stop_handlers\<close> with the pairs recorded so far\<close>

fun install_each :: "'v signals \<Rightarrow> (stop_signal \<times> handler) list \<Rightarrow> stop_signal list \<Rightarrow>
    ('v process, (stop_signal \<times> handler) list) io" where
  "install_each sg installed [] = return_io installed"
| "install_each sg installed (signum # rest) =
     bind_io
       (catch_io
         (bind_io (get_handler sg signum) (\<lambda>previous.
          bind_io (set_handler sg signum OnStopSignal) (\<lambda>_. return_io previous)))
         (\<lambda>_. True)
         (\<lambda>e. bind_io (restore_stop_handlers sg installed True) (\<lambda>_. lift_io (Inl e)))) (\<lambda>previous.
       install_each sg (installed @ [(signum, previous)]) rest)"

definition install_stop_handlers :: "'v signals \<Rightarrow> ('v process, (stop_signal \<times> handler) list) io" where
  "install_stop_handlers sg = install_each sg [] stop_signals"

section \<open>The process\<close>

text \<open>\<open>_StopRequest\<close>: the request is set by an arrived signal and never reset.\<close>

definition stop_request :: "'v signals \<Rightarrow> ('v process, bool) io" where
  "stop_request sg =
     (\<lambda>(p, ow, memory, db, cx, v). case sg_arrived sg v of (arrived, v') \<Rightarrow>
        let requested = ps_requested p \<or> arrived in
        (Inr requested, p\<lparr>ps_requested := requested\<rparr>, ow, memory, db, cx, v'))"

text \<open>\<open>with build_application(settings) as application: application.run_forever(stop_request)\<close>\<close>

definition run_application ::
  "'v outside \<Rightarrow> 'v signals \<Rightarrow> central_settings \<Rightarrow> 'v process \<Rightarrow> (unit res \<times> 'v process) option" where
  "run_application out sg settings s =
     (case on_snd (bind_io (build_application out settings) application_enter) s of
        (Inl e, s1) \<Rightarrow> Some (Inl e, s1)
      | (Inr app, s1) \<Rightarrow>
          (case application_run_forever app (Some (stop_request sg)) s1 of
             None \<Rightarrow> None
           | Some (r, s2) \<Rightarrow>
               (case on_snd (application_exit app) s2 of
                  (Inl e, s3) \<Rightarrow> Some (Inl e, s3)
                | (Inr _, s3) \<Rightarrow> Some (r, s3))))"

definition run_process ::
  "nat \<Rightarrow> 'v outside \<Rightarrow> 'v signals \<Rightarrow> environment res \<Rightarrow> 'v process \<Rightarrow> (unit res \<times> 'v process) option" where
  "run_process limit out sg env s =
     (case load_central_settings limit env of
        Inl e \<Rightarrow> Some (Inl e, s)
      | Inr settings \<Rightarrow>
          let s0 = apfst (\<lambda>p. p\<lparr>ps_requested := False\<rparr>) s in
          (case install_stop_handlers sg s0 of
             (Inl e, s1) \<Rightarrow> Some (Inl e, s1)
           | (Inr installed, s1) \<Rightarrow>
               (case run_application out sg settings s1 of
                  None \<Rightarrow> None
                | Some (Inl e, s2) \<Rightarrow> Some (Inl e, snd (restore_stop_handlers sg installed True s2))
                | Some (Inr _, s2) \<Rightarrow> Some (restore_stop_handlers sg installed False s2))))"

definition process_main ::
  "nat \<Rightarrow> 'v outside \<Rightarrow> 'v signals \<Rightarrow> environment res \<Rightarrow> 'v process \<Rightarrow> (unit res \<times> 'v process) option" where
  "process_main limit out sg os_environ = run_process limit out sg os_environ"

section \<open>Signal calls leave the application alone\<close>

definition same_application :: "'v process \<Rightarrow> 'v process \<Rightarrow> bool" where
  "same_application s t \<longleftrightarrow>
     (case s of (p, ow, memory, db, cx, v) \<Rightarrow> case t of (p', ow', memory', db', cx', v') \<Rightarrow>
       ow' = ow \<and> memory' = memory \<and> db' = db \<and> cx' = cx \<and> ps_requested p' = ps_requested p)"

interpretation signal: io_effect same_application
  by unfold_locales (auto simp: same_application_def)

lemma get_handler_same: "moves same_application (get_handler sg signum)"
  by (auto simp: moves_def get_handler_def same_application_def at_outside_def at_connection_def bind_io_split
      split: sum.splits prod.splits)

lemma set_handler_same: "moves same_application (set_handler sg signum h)"
  by (auto simp: moves_def set_handler_def same_application_def at_outside_def at_connection_def bind_io_split lift_io_def
      split: sum.splits prod.splits)

lemma restore_each_same: "moves same_application (restore_each sg failure hs)"
  by (induction sg failure hs rule: restore_each.induct)
    (auto intro!: signal.moves_bind signal.moves_catch signal.moves_Pair signal.moves_return set_handler_same)

lemma restore_same: "moves same_application (restore_stop_handlers sg installed swallow_failures)"
  unfolding restore_stop_handlers_def
  by (intro signal.moves_bind restore_each_same)
    (auto intro!: signal.moves_return signal.moves_lift split: option.splits)

lemma install_each_same: "moves same_application (install_each sg installed signums)"
  by (induction sg installed signums rule: install_each.induct)
    (auto intro!: signal.moves_bind signal.moves_catch signal.moves_return signal.moves_Pair signal.moves_lift set_handler_same
      get_handler_same restore_same)

section \<open>The run of the application inside the process\<close>

definition runs :: "(string \<times> string) list \<Rightarrow> 'v process \<Rightarrow> 'v process \<Rightarrow> bool" where
  "runs creds s t \<longleftrightarrow>
     ps_handlers (fst t) = ps_handlers (fst s) \<and> (ps_requested (fst s) \<longrightarrow> ps_requested (fst t)) \<and>
     grows creds (snd s) (snd t)"

interpretation progress: io_effect "runs creds" for creds
  by unfold_locales (auto simp: runs_def intro: grows_refl grows_trans)

lemma runs_on_snd: "moves (grows creds) m \<Longrightarrow> moves (runs creds) (on_snd m)"
  by (rule moves_weaken [OF moves_on_snd]) (auto simp: runs_def)

lemma stop_request_runs: "moves (runs creds) (stop_request sg)"
proof (rule movesI)
  fix s r s'
  assume "stop_request sg s = (r, s')"
  moreover obtain p ow mem db cx v where s: "s = (p, ow, mem, db, cx, v)" by (cases s)
  ultimately show "runs creds s s'" using grows_refl [of creds "snd s"]
    by (auto simp: stop_request_def runs_def grows_def Let_def split: prod.splits)
qed

lemma application_runs:
  assumes "node_credentials tokens = Inr (cn_credentials settings)"
    and "application_run_forever (composed out settings) (Some (stop_request sg)) s = Some (r, s')"
  shows "runs (cn_credentials settings) s s'"
  using assms(2) unfolding application_run_forever_def
  by (rule progress.run_moves [rotated 5])
    (auto simp: lift_runtime_def intro!: runs_on_snd composed_grows [OF assms(1)] stop_request_runs)

lemma run_application_effect:
  assumes "node_credentials tokens = Inr (cn_credentials settings)" "nothing_owned ow"
    and "run_application out sg settings (p, ow, mem, db, w) = Some (r, p', ow', mem', db', w')"
  shows "nothing_owned ow' \<and> ps_handlers p' = ps_handlers p \<and> (r = Inr () \<longrightarrow> ps_requested p') \<and>
    (\<exists>requests rows authors. ow_served ow' = ow_served ow @ requests \<and> db_rows db' = db_rows db @ rows \<and>
       subseq authors requests \<and> list_all2 (authored (cn_credentials settings)) authors rows)"
proof -
  obtain x ow1 mem1 db1 w1 where build: "build_application out settings (ow, mem, db, w) = (x, ow1, mem1, db1, w1)"
    by (metis prod.exhaust)
  obtain cx v where w: "w = (cx, v)" by (cases w)
  obtain cx1 v1 where w1: "w1 = (cx1, v1)" by (cases w1)
  note built = build_effect [OF build [unfolded w w1] assms(2)]
  show ?thesis
  proof (cases x)
    case (Inl e)
    then show ?thesis using assms(3) build built
      by (auto simp: run_application_def intro!: exI [of _ "[]"])
  next
    case (Inr app)
    then have app: "app = composed out settings" using built by simp
    obtain y p2 ow2 mem2 db2 w2 where run:
      "application_run_forever app (Some (stop_request sg)) (p, ow1, mem1, db1, w1) = Some (y, p2, ow2, mem2, db2, w2)"
      using assms(3) build Inr by (auto simp: run_application_def split: option.splits)
    obtain z ow3 mem3 db3 w3 where close: "application_close app (ow2, mem2, db2, w2) = (z, ow3, mem3, db3, w3)"
      by (metis prod.exhaust)
    obtain cx2 v2 where w2: "w2 = (cx2, v2)" by (cases w2)
    have final: "p' = p2" "ow' = ow3" "db' = db3" "r = (case z of Inl e \<Rightarrow> Inl e | Inr _ \<Rightarrow> y)"
      using assms(3) build Inr run close by (auto simp: run_application_def split: sum.splits)
    have closed: "nothing_owned ow3" "ow_served ow3 = ow_served ow2" "db3 = db2"
      using close_effect [OF close [unfolded app w2]] by auto
    have moved: "runs (cn_credentials settings) (p, ow1, mem1, db1, w1) (p2, ow2, mem2, db2, w2)"
      using application_runs [OF assms(1) run [unfolded app]] .
    have "ps_requested p2" if "r = Inr ()"
    proof -
      have "y = Inr ()" using that final(4) by (auto split: sum.splits)
      then have "run_forever (lift_runtime (sa_runtime app)) (Some (stop_request sg)) (p, ow1, mem1, db1, w1) =
          Some (Inr (), p2, ow2, mem2, db2, w2)"
        using run by (simp add: application_run_forever_def)
      from run_stopped [OF this] obtain t where "stop_request sg t = (Inr True, p2, ow2, mem2, db2, w2)" by blast
      then show ?thesis by (auto simp: stop_request_def Let_def split: prod.splits)
    qed
    then show ?thesis using moved closed built Inr by (auto simp: final runs_def grows_def)
  qed
qed

section \<open>Signal calls that work\<close>

definition reliable :: "'v signals \<Rightarrow> bool" where
  "reliable sg \<longleftrightarrow> (\<forall>call v. fst (sg_fault sg call v) = Inr ())"

lemma get_handler_run:
  "reliable sg \<Longrightarrow> \<exists>s'. get_handler sg signum (p, s) = (Inr (ps_handlers p signum), p, s')"
  by (cases s) (auto simp: reliable_def get_handler_def at_outside_def at_connection_def bind_io_split)

lemma set_handler_run:
  "reliable sg \<Longrightarrow> h \<noteq> NotFromPython \<Longrightarrow>
    \<exists>s'. set_handler sg signum h (p, s) = (Inr (), p\<lparr>ps_handlers := (ps_handlers p)(signum := h)\<rparr>, s')"
  by (cases s) (auto simp: reliable_def set_handler_def at_outside_def at_connection_def bind_io_split)

lemma install_run:
  assumes "reliable sg"
  shows "\<exists>s'. install_stop_handlers sg (p, s) =
    (Inr [(SIGTERM, ps_handlers p SIGTERM), (SIGINT, ps_handlers p SIGINT)],
     p\<lparr>ps_handlers := (ps_handlers p)(SIGTERM := OnStopSignal, SIGINT := OnStopSignal)\<rparr>, s')"
proof -
  have step: "\<exists>s'. catch_io
      (bind_io (get_handler sg signum) (\<lambda>previous.
       bind_io (set_handler sg signum OnStopSignal) (\<lambda>_. return_io previous)))
      (\<lambda>_. True) (\<lambda>e. bind_io (restore_stop_handlers sg installed True) (\<lambda>_. lift_io (Inl e))) (q, t) =
    (Inr (ps_handlers q signum), q\<lparr>ps_handlers := (ps_handlers q)(signum := OnStopSignal)\<rparr>, s')" for signum q t installed
  proof -
    obtain t1 where 1: "get_handler sg signum (q, t) = (Inr (ps_handlers q signum), q, t1)"
      using get_handler_run [OF assms] by blast
    obtain t2 where "set_handler sg signum OnStopSignal (q, t1) =
        (Inr (), q\<lparr>ps_handlers := (ps_handlers q)(signum := OnStopSignal)\<rparr>, t2)"
      using set_handler_run [OF assms] by blast
    with 1 show ?thesis by (cases t2) (simp add: catch_io_split bind_io_split)
  qed
  obtain s1 where 1: "catch_io
      (bind_io (get_handler sg SIGTERM) (\<lambda>previous.
       bind_io (set_handler sg SIGTERM OnStopSignal) (\<lambda>_. return_io previous)))
      (\<lambda>_. True) (\<lambda>e. bind_io (restore_stop_handlers sg [] True) (\<lambda>_. lift_io (Inl e))) (p, s) =
    (Inr (ps_handlers p SIGTERM), p\<lparr>ps_handlers := (ps_handlers p)(SIGTERM := OnStopSignal)\<rparr>, s1)"
    using step by blast
  let ?q = "p\<lparr>ps_handlers := (ps_handlers p)(SIGTERM := OnStopSignal)\<rparr>"
  obtain s2 where 2: "catch_io
      (bind_io (get_handler sg SIGINT) (\<lambda>previous.
       bind_io (set_handler sg SIGINT OnStopSignal) (\<lambda>_. return_io previous)))
      (\<lambda>_. True) (\<lambda>e. bind_io (restore_stop_handlers sg [(SIGTERM, ps_handlers p SIGTERM)] True) (\<lambda>_. lift_io (Inl e)))
      (?q, s1) =
    (Inr (ps_handlers ?q SIGINT), ?q\<lparr>ps_handlers := (ps_handlers ?q)(SIGINT := OnStopSignal)\<rparr>, s2)"
    using step by blast
  show ?thesis
    by (cases s2) (simp add: install_stop_handlers_def stop_signals_def bind_io_split [of "catch_io _ _ _"] 1 2)
qed

lemma restore_run:
  assumes "reliable sg" "h1 \<noteq> NotFromPython" "h2 \<noteq> NotFromPython"
  shows "\<exists>s'. restore_stop_handlers sg [(SIGTERM, h1), (SIGINT, h2)] swallow (p, s) =
    (Inr (), p\<lparr>ps_handlers := (ps_handlers p)(SIGINT := h2, SIGTERM := h1)\<rparr>, s')"
proof -
  obtain s1 where 1: "set_handler sg SIGINT h2 (p, s) = (Inr (), p\<lparr>ps_handlers := (ps_handlers p)(SIGINT := h2)\<rparr>, s1)"
    using set_handler_run [OF assms(1,3)] by blast
  let ?q = "p\<lparr>ps_handlers := (ps_handlers p)(SIGINT := h2)\<rparr>"
  obtain s2 where 2: "set_handler sg SIGTERM h1 (?q, s1) =
      (Inr (), ?q\<lparr>ps_handlers := (ps_handlers ?q)(SIGTERM := h1)\<rparr>, s2)"
    using set_handler_run [OF assms(1,2)] by blast
  show ?thesis by (cases s2) (simp add: restore_stop_handlers_def bind_io_split catch_io_split 1 2)
qed

text \<open>Restoring undoes the installation.\<close>

lemma handlers_restored:
  "(f :: stop_signal \<Rightarrow> handler)(SIGTERM := a, SIGINT := b, SIGINT := f SIGINT, SIGTERM := f SIGTERM) = f"
  by (auto simp: fun_eq_iff)

section \<open>The whole process\<close>

text \<open>Everything a process that ends has done, by the outcome of the loader and of the installation.\<close>

lemma run_process_parts:
  assumes "run_process limit out sg env (p, ow, mem, db, w) = Some (r, p', ow', mem', db', w')"
  obtains
    (not_loaded) e where "load_central_settings limit env = Inl e" "r = Inl e"
      "(p', ow', mem', db', w') = (p, ow, mem, db, w)"
  | (not_installed) settings e where "load_central_settings limit env = Inr settings" "r = Inl e"
      "install_stop_handlers sg (p\<lparr>ps_requested := False\<rparr>, ow, mem, db, w) = (Inl e, p', ow', mem', db', w')"
  | (ran) settings installed p1 ow1 mem1 db1 w1 x p2 ow2 mem2 db2 w2 y where
      "load_central_settings limit env = Inr settings"
      "install_stop_handlers sg (p\<lparr>ps_requested := False\<rparr>, ow, mem, db, w) = (Inr installed, p1, ow1, mem1, db1, w1)"
      "run_application out sg settings (p1, ow1, mem1, db1, w1) = Some (x, p2, ow2, mem2, db2, w2)"
      "restore_stop_handlers sg installed (\<exists>e. x = Inl e) (p2, ow2, mem2, db2, w2) = (y, p', ow', mem', db', w')"
      "r = (case x of Inl e \<Rightarrow> Inl e | Inr _ \<Rightarrow> y)"
proof (cases "load_central_settings limit env")
  case (Inl e)
  then show ?thesis using assms by (intro not_loaded) (auto simp: run_process_def)
next
  case settings: (Inr settings)
  obtain i p1 ow1 mem1 db1 w1 where install:
    "install_stop_handlers sg (p\<lparr>ps_requested := False\<rparr>, ow, mem, db, w) = (i, p1, ow1, mem1, db1, w1)"
    by (metis prod.exhaust)
  show ?thesis
  proof (cases i)
    case (Inl e)
    then show ?thesis using assms settings install by (intro not_installed) (auto simp: run_process_def)
  next
    case (Inr installed)
    then obtain x p2 ow2 mem2 db2 w2 where app:
      "run_application out sg settings (p1, ow1, mem1, db1, w1) = Some (x, p2, ow2, mem2, db2, w2)"
      using assms settings install by (auto simp: run_process_def split: option.splits)
    obtain y p3 ow3 mem3 db3 w3 where restore:
      "restore_stop_handlers sg installed (\<exists>e. x = Inl e) (p2, ow2, mem2, db2, w2) = (y, p3, ow3, mem3, db3, w3)"
      by (metis prod.exhaust)
    have "(r, p', ow', mem', db', w') = ((case x of Inl e \<Rightarrow> Inl e | Inr _ \<Rightarrow> y), p3, ow3, mem3, db3, w3)"
      using assms settings install Inr app restore by (cases x) (auto simp: run_process_def)
    then show ?thesis using settings install Inr app restore by (intro ran) auto
  qed
qed

lemma same_applicationD:
  "same_application (p, ow, mem, db, w) (p', ow', mem', db', w') \<Longrightarrow>
    ow' = ow \<and> mem' = mem \<and> db' = db \<and> ps_requested p' = ps_requested p"
  by (cases w; cases w') (simp add: same_application_def)

lemma run_process_effect:
  assumes "run_process limit out sg env (p, ow, mem, db, w) = Some (r, p', ow', mem', db', w')" "nothing_owned ow"
  shows "nothing_owned ow'" "r = Inr () \<Longrightarrow> ps_requested p'"
    "case load_central_settings limit env of
       Inl e \<Rightarrow> r = Inl e \<and> (p', ow', mem', db', w') = (p, ow, mem, db, w)
     | Inr settings \<Rightarrow>
         \<exists>requests rows authors. ow_served ow' = ow_served ow @ requests \<and> db_rows db' = db_rows db @ rows \<and>
           subseq authors requests \<and> list_all2 (authored (cn_credentials settings)) authors rows"
    "reliable sg \<Longrightarrow> ps_handlers p SIGTERM \<noteq> NotFromPython \<Longrightarrow> ps_handlers p SIGINT \<noteq> NotFromPython \<Longrightarrow>
      ps_handlers p' = ps_handlers p"
proof -
  have "nothing_owned ow' \<and> (r = Inr () \<longrightarrow> ps_requested p') \<and>
    (case load_central_settings limit env of
       Inl e \<Rightarrow> r = Inl e \<and> (p', ow', mem', db', w') = (p, ow, mem, db, w)
     | Inr settings \<Rightarrow>
         \<exists>requests rows authors. ow_served ow' = ow_served ow @ requests \<and> db_rows db' = db_rows db @ rows \<and>
           subseq authors requests \<and> list_all2 (authored (cn_credentials settings)) authors rows) \<and>
    (reliable sg \<and> ps_handlers p SIGTERM \<noteq> NotFromPython \<and> ps_handlers p SIGINT \<noteq> NotFromPython \<longrightarrow>
      ps_handlers p' = ps_handlers p)"
    using assms(1)
  proof (cases rule: run_process_parts)
    case (not_loaded e)
    then show ?thesis using assms(2) by simp
  next
    case (not_installed settings e)
    have "same_application (p\<lparr>ps_requested := False\<rparr>, ow, mem, db, w) (p', ow', mem', db', w')"
      using install_each_same not_installed(3) unfolding install_stop_handlers_def by (rule movesD)
    then have same: "ow' = ow" "db' = db" by (auto dest: same_applicationD)
    have "\<not> reliable sg"
    proof
      assume "reliable sg"
      from install_run [OF this, of "p\<lparr>ps_requested := False\<rparr>" "(ow, mem, db, w)"] show False
        using not_installed(3) by auto
    qed
    then show ?thesis using not_installed(1,2) same assms(2) by (auto intro!: exI [of _ "[]"])
  next
    case (ran settings installed p1 ow1 mem1 db1 w1 x p2 ow2 mem2 db2 w2 y)
    have "same_application (p\<lparr>ps_requested := False\<rparr>, ow, mem, db, w) (p1, ow1, mem1, db1, w1)"
      using install_each_same ran(2) unfolding install_stop_handlers_def by (rule movesD)
    then have before: "ow1 = ow" "db1 = db" by (auto dest: same_applicationD)
    have "same_application (p2, ow2, mem2, db2, w2) (p', ow', mem', db', w')"
      using restore_same ran(4) by (rule movesD)
    then have after: "ow' = ow2" "db' = db2" "ps_requested p' = ps_requested p2" by (auto dest: same_applicationD)
    obtain tokens where tokens: "node_credentials tokens = Inr (cn_credentials settings)"
      using loaded_credentials [OF ran(1)] by blast
    from assms(2) before have "nothing_owned ow1" by simp
    note app = run_application_effect [OF tokens this ran(3)]
    have "ps_handlers p' = ps_handlers p"
      if reliable: "reliable sg" "ps_handlers p SIGTERM \<noteq> NotFromPython" "ps_handlers p SIGINT \<noteq> NotFromPython"
    proof -
      from install_run [OF that(1), of "p\<lparr>ps_requested := False\<rparr>" "(ow, mem, db, w)"] ran(2)
      have installed: "installed = [(SIGTERM, ps_handlers p SIGTERM), (SIGINT, ps_handlers p SIGINT)]"
        "ps_handlers p1 = (ps_handlers p)(SIGTERM := OnStopSignal, SIGINT := OnStopSignal)" by auto
      from restore_run [OF that, of "\<exists>e. x = Inl e" p2 "(ow2, mem2, db2, w2)"] ran(4)
      have "ps_handlers p' = (ps_handlers p2)(SIGINT := ps_handlers p SIGINT, SIGTERM := ps_handlers p SIGTERM)"
        by (auto simp: installed(1))
      then show ?thesis using app installed(2) by (simp add: handlers_restored)
    qed
    moreover have "ps_requested p'" if "r = Inr ()" using that ran(5) app after by (cases x) auto
    ultimately show ?thesis using app before after ran(1) by auto
  qed
  then show "nothing_owned ow'" "r = Inr () \<Longrightarrow> ps_requested p'"
    "case load_central_settings limit env of
       Inl e \<Rightarrow> r = Inl e \<and> (p', ow', mem', db', w') = (p, ow, mem, db, w)
     | Inr settings \<Rightarrow>
         \<exists>requests rows authors. ow_served ow' = ow_served ow @ requests \<and> db_rows db' = db_rows db @ rows \<and>
           subseq authors requests \<and> list_all2 (authored (cn_credentials settings)) authors rows"
    "reliable sg \<Longrightarrow> ps_handlers p SIGTERM \<noteq> NotFromPython \<Longrightarrow> ps_handlers p SIGINT \<noteq> NotFromPython \<Longrightarrow>
      ps_handlers p' = ps_handlers p"
    by blast+
qed

text \<open>A complete environment, and signal calls that work with the stop signal already pending.\<close>

definition central_environment :: environment where
  "central_environment =
     [cs_database_path_var \<mapsto> EnvStr ''/var/db'', cs_listen_host_var \<mapsto> EnvStr ''::'',
      cs_listen_port_var \<mapsto> EnvStr ''80'', cs_monitor_interval_var \<mapsto> EnvStr ''2.5'',
      cs_poll_interval_var \<mapsto> EnvStr ''2.5'',
      cs_hosts_json_var \<mapsto> EnvStr (json_dumps False False (JArr (map host_document (sc_hosts sample_config)))),
      cs_node_tokens_json_var \<mapsto> EnvStr (json_dumps False False (JObj [(''de'', JStr ''k'')])),
      cs_bot_token_var \<mapsto> EnvStr ''1:a'', cs_chat_id_var \<mapsto> EnvStr ''-42'']"

definition pending_stop :: "unit signals" where
  "pending_stop = \<lparr>sg_fault = (\<lambda>_. return_io ()), sg_arrived = (\<lambda>v. (True, v))\<rparr>"

definition idle_process :: "unit process" where
  "idle_process = (\<lparr>ps_requested = False, ps_handlers = (\<lambda>_. Installable 0)\<rparr>, unowned, Map.empty, empty_db, fresh_connection, ())"

lemmas central_variables = cs_database_path_var_def cs_listen_host_var_def cs_listen_port_var_def
  cs_monitor_interval_var_def cs_poll_interval_var_def cs_hosts_json_var_def cs_node_tokens_json_var_def
  cs_bot_token_var_def cs_chat_id_var_def cs_thread_id_var_def cs_timeout_var_def

lemma central_lookups:
  "central_environment cs_database_path_var = Some (EnvStr ''/var/db'')"
  "central_environment cs_listen_host_var = Some (EnvStr ''::'')"
  "central_environment cs_listen_port_var = Some (EnvStr ''80'')"
  "central_environment cs_monitor_interval_var = Some (EnvStr ''2.5'')"
  "central_environment cs_poll_interval_var = Some (EnvStr ''2.5'')"
  "central_environment cs_hosts_json_var =
    Some (EnvStr (json_dumps False False (JArr (map host_document (sc_hosts sample_config)))))"
  "central_environment cs_node_tokens_json_var = Some (EnvStr (json_dumps False False (JObj [(''de'', JStr ''k'')])))"
  "central_environment cs_bot_token_var = Some (EnvStr ''1:a'')"
  "central_environment cs_chat_id_var = Some (EnvStr ''-42'')"
  "central_environment cs_thread_id_var = None" "central_environment cs_timeout_var = None"
  by (simp_all add: central_environment_def central_variables)

lemma central_values:
  "strip ''/var/db'' \<noteq> []" "strip ''::'' \<noteq> []" "strip ''80'' \<noteq> []" "strip ''2.5'' \<noteq> []"
  "strip ''1:a'' \<noteq> []" "strip ''-42'' \<noteq> []" "strip (json_dumps False False (JObj [(''de'', JStr ''k'')])) \<noteq> []"
  "env_decimal_float CentralSettingsError ''2.5'' = Inr (Fin (5 / 2))"
  "env_decimal_int CentralSettingsError ''80'' = Inr 80"
  "env_decimal_int CentralSettingsError ''-42'' = Inr (-42)"
  by code_simp+

lemma central_telegram: "load_telegram central_environment = Inr sample_telegram"
proof -
  have "telegram_settings_post_init sample_telegram = Inr ()" by code_simp
  then show ?thesis
    by (simp add: load_telegram_def cs_helpers env_required_def env_optional_def env_accepted_def catch_res_def
        validated_def central_lookups central_values sample_telegram_def cs_default_timeout_def)
qed

lemma central_credentials: "load_credentials 9 central_environment sample_config = Inr [(''de'', ''k'')]"
proof -
  have "json_loads cs_json_hooks 9 (json_dumps False False (JObj [(''de'', JStr ''k'')])) =
      Inr (ordered False (JObj [(''de'', JStr ''k'')]))"
    by (rule json_loads_dumps) simp
  then have "load_json_document 9 (json_dumps False False (JObj [(''de'', JStr ''k'')])) = Inr (JObj [(''de'', JStr ''k'')])"
    by (simp add: load_json_document_def catch_res_def member_order_def)
  moreover have "node_credentials (Some [(JStr ''de'', JStr ''k'')]) = Inr [(''de'', ''k'')]" by code_simp
  ultimately show ?thesis
    by (simp add: load_credentials_def cs_helpers env_required_def env_accepted_def catch_res_def central_lookups
        central_values cs_json_object_def sample_config_def del: json_dumps.simps)
qed

lemma central_settings: "load_central_settings 9 (Inr central_environment) = Inr sample_settings"
proof -
  have "load_config 9 central_environment = Inr sample_config"
    using sample_document_facts(3) central_lookups(6) sample_document_facts(1,2) by (rule written_configuration_loads)
  then show ?thesis
    by (simp add: load_central_settings_def take_snapshot_def catch_res_def load_listen_port_def
        load_positive_interval_def cs_helpers env_required_def central_lookups central_values central_telegram
        central_credentials sample_settings_def)
qed

lemma idle_run:
  "\<exists>ow' mem' cx' p'. run_process 9 (sample_outside (Inr ())) pending_stop (Inr central_environment) idle_process =
    Some (Inr (), p', ow', mem', empty_db, cx', ())"
proof -
  let ?out = "sample_outside (Inr ())"
  have out: "ou_sql ?out = no_fault" "ou_bind ?out a = (\<lambda>w. (Inr (), w))" "ou_server_close ?out = return_io ()" for a
    by (simp_all add: sample_outside_def)
  have init: "sentinel_runtime_init (sa_runtime (composed ?out sample_settings)) = Inr ()"
    by (simp add: sentinel_runtime_init_def composed_def application_runtime_def sample_settings_def
        runtime_require_positive_def)
  let ?on = "\<lparr>ps_requested = False, ps_handlers = (\<lambda>_. Installable 0)(SIGTERM := OnStopSignal, SIGINT := OnStopSignal)\<rparr>"
  let ?s = "(?on, unowned, Map.empty, empty_db, fresh_connection, ())"
  have reliable: "reliable pending_stop" by (simp add: reliable_def pending_stop_def)
  obtain rest where "install_stop_handlers pending_stop idle_process =
      (Inr [(SIGTERM, Installable 0), (SIGINT, Installable 0)], ?on, rest)"
    using install_run [OF reliable, of "\<lparr>ps_requested = False, ps_handlers = (\<lambda>_. Installable 0)\<rparr>"
        "(unowned, Map.empty, empty_db, fresh_connection, ())"]
    by (auto simp: idle_process_def)
  moreover have "same_application idle_process (?on, rest)"
    using install_each_same calculation unfolding install_stop_handlers_def by (rule movesD)
  ultimately have install: "install_stop_handlers pending_stop idle_process =
      (Inr [(SIGTERM, Installable 0), (SIGINT, Installable 0)], ?s)"
    by (cases rest) (simp add: idle_process_def same_application_def)
  obtain ow1 where build: "build_application ?out sample_settings (unowned, Map.empty, empty_db, fresh_connection, ()) =
      (Inr (composed ?out sample_settings), ow1, Map.empty, empty_db, bootstrapped, ())"
    by (simp add: build_application_steps open_connection_run bootstrap_step_run listen_step_run
        sample_connect out init forget_def)
  have run: "application_run_forever (composed ?out sample_settings) (Some (stop_request pending_stop))
      (?on, ow1, Map.empty, empty_db, bootstrapped, ()) =
    Some (Inr (), ?on\<lparr>ps_requested := True\<rparr>, ow1, Map.empty, empty_db, bootstrapped, ())"
    by (simp add: application_run_forever_def run_forever_def serve.simps stop_request_def pending_stop_def Let_def)
  obtain ow2 cx2 where close: "application_close (composed ?out sample_settings) (ow1, Map.empty, empty_db, bootstrapped, ()) =
      (Inr (), ow2, Map.empty, empty_db, cx2, ())"
    by (simp add: application_close_def finally_io_def composed_def close_listener_run close_connection_run out
        run_sql_def no_fault_def sql_rollback_def bootstrapped_def)
  have app: "run_application ?out pending_stop sample_settings ?s =
      Some (Inr (), ?on\<lparr>ps_requested := True\<rparr>, ow2, Map.empty, empty_db, cx2, ())"
    using build run close by (simp add: run_application_def)
  obtain p3 rest3 where "restore_stop_handlers pending_stop [(SIGTERM, Installable 0), (SIGINT, Installable 0)] False
      (?on\<lparr>ps_requested := True\<rparr>, ow2, Map.empty, empty_db, cx2, ()) = (Inr (), p3, rest3)"
    using restore_run [OF reliable, of "Installable 0" "Installable 0" False] by blast
  moreover have "same_application (?on\<lparr>ps_requested := True\<rparr>, ow2, Map.empty, empty_db, cx2, ()) (p3, rest3)"
    using restore_same calculation by (rule movesD)
  ultimately have "restore_stop_handlers pending_stop [(SIGTERM, Installable 0), (SIGINT, Installable 0)] False
      (?on\<lparr>ps_requested := True\<rparr>, ow2, Map.empty, empty_db, cx2, ()) = (Inr (), p3, ow2, Map.empty, empty_db, cx2, ())"
    by (cases rest3) (simp add: same_application_def)
  then have "run_process 9 ?out pending_stop (Inr central_environment) idle_process =
      Some (Inr (), p3, ow2, Map.empty, empty_db, cx2, ())"
    using install app by (simp add: run_process_def central_settings idle_process_def)
  then show ?thesis by blast
qed

lemma unowned_owns_nothing: "nothing_owned unowned"
  by (simp add: nothing_owned_def unowned_def)

text \<open>C3: the process cleans up after itself on every path: whenever it ends, normally or with an
  exception of any kind, the closing of the connection and of the listener has been attempted if they were opened; it ends
  normally only after a stop signal; and when the signal calls work and the previous handlers came
  from Python, both are installed again.\<close>

theorem process_cleans_up:
  assumes "run_process limit out sg env (p, ow, mem, db, w) = Some (r, p', ow', mem', db', w')" "nothing_owned ow"
  shows "nothing_owned ow' \<and> (r = Inr () \<longrightarrow> ps_requested p') \<and>
    (reliable sg \<and> ps_handlers p SIGTERM \<noteq> NotFromPython \<and> ps_handlers p SIGINT \<noteq> NotFromPython \<longrightarrow>
      ps_handlers p' = ps_handlers p)"
  using run_process_effect(1,2,4) [OF assms] by blast

theorem process_cleans_up_witness:
  "\<exists>p' ow' mem' cx'. run_process 9 (sample_outside (Inr ())) pending_stop (Inr central_environment) idle_process =
      Some (Inr (), p', ow', mem', empty_db, cx', ()) \<and>
    nothing_owned ow' \<and> ps_requested p' \<and> ps_handlers p' = (\<lambda>_. Installable 0)"
proof -
  obtain p' ow' mem' cx' where run: "run_process 9 (sample_outside (Inr ())) pending_stop (Inr central_environment)
      idle_process = Some (Inr (), p', ow', mem', empty_db, cx', ())"
    using idle_run by blast
  have "reliable pending_stop" by (simp add: reliable_def pending_stop_def)
  then show ?thesis using process_cleans_up [OF run [unfolded idle_process_def] unowned_owns_nothing] run by simp
qed

text \<open>C2: every stored row has an author: over a whole process, whatever fails and however it ends, rows
  are only appended, and the new ones correspond, in order, to requests of their own among those the
  listener accepted, each carrying as its only token header the token of exactly the node of its row.
  A process whose settings do not load has changed nothing at all.\<close>

theorem every_row_has_an_author:
  assumes "run_process limit out sg env (p, ow, mem, db, w) = Some (r, p', ow', mem', db', w')" "nothing_owned ow"
  shows "case load_central_settings limit env of
      Inl e \<Rightarrow> r = Inl e \<and> (p', ow', mem', db', w') = (p, ow, mem, db, w)
    | Inr settings \<Rightarrow>
        \<exists>requests rows authors. ow_served ow' = ow_served ow @ requests \<and> db_rows db' = db_rows db @ rows \<and>
          subseq authors requests \<and> list_all2 (authored (cn_credentials settings)) authors rows"
  by (rule run_process_effect(3) [OF assms])

theorem every_row_has_an_author_witness:
  "\<exists>p' ow' mem' cx'. run_process 9 (sample_outside (Inr ())) pending_stop (Inr central_environment) idle_process =
      Some (Inr (), p', ow', mem', empty_db, cx', ()) \<and>
    (\<exists>authors. list_all2 (authored [(''de'', ''k'')]) authors (db_rows empty_db))"
proof -
  obtain p' ow' mem' cx' where run: "run_process 9 (sample_outside (Inr ())) pending_stop (Inr central_environment)
      idle_process = Some (Inr (), p', ow', mem', empty_db, cx', ())"
    using idle_run by blast
  have creds: "cn_credentials sample_settings = [(''de'', ''k'')]" by (simp add: sample_settings_def)
  obtain requests rows authors where "db_rows empty_db = db_rows empty_db @ rows"
      "list_all2 (authored (cn_credentials sample_settings)) authors rows"
    using every_row_has_an_author [OF run [unfolded idle_process_def] unowned_owns_nothing]
    by (auto simp: central_settings)
  then have "list_all2 (authored [(''de'', ''k'')]) authors (db_rows empty_db)"
    by (simp add: creds empty_db_def)
  with run show ?thesis by blast
qed

text \<open>
  The condition on the previous handlers matters: \<open>getsignal\<close> reports a handler that was not installed
  from Python as \<open>None\<close>, and restoring it raises \<open>TypeError\<close> on the normal exit path.
\<close>

lemma foreign_handler_is_not_restored:
  assumes "reliable sg"
  shows "fst (restore_stop_handlers sg [(SIGTERM, Installable 0), (SIGINT, NotFromPython)] False (p, s)) = Inl TypeError"
proof -
  obtain s2 where "set_handler sg SIGTERM (Installable 0) (p, s) =
      (Inr (), p\<lparr>ps_handlers := (ps_handlers p)(SIGTERM := Installable 0)\<rparr>, s2)"
    using set_handler_run [OF assms, of "Installable 0"] by blast
  then show ?thesis
    by (simp add: restore_stop_handlers_def bind_io_split catch_io_split set_handler_def [of sg SIGINT] lift_io_def)
qed

end
