(* ===== verification/Liveness.thy ===== *)
theory Liveness
  imports Process
begin

text \<open>
  The central process ends when it is asked to.  The loop of theory \<open>Runtime\<close> returns when a budget of
  refusals runs out that no collaborator restores; here that condition is reduced, through every
  component of the composed application, to the operations of the outside world.
\<close>

section \<open>Operations that keep a budget\<close>

text \<open>The budget of a state whose outer component does not count\<close>

definition behind :: "('s \<Rightarrow> nat) \<Rightarrow> 'o \<times> 's \<Rightarrow> nat" where
  "behind b s = b (snd s)"

lemma keeps_budgetD: "keeps_budget b m \<Longrightarrow> b (snd (m s)) \<le> b s"
  by (simp add: keeps_budget_def)

lemma keeps_budget_run: "keeps_budget b m \<Longrightarrow> m s = (r, t) \<Longrightarrow> b t \<le> b s"
  by (metis keeps_budget_def snd_conv)

lemma keeps_budget_lift [intro!]: "keeps_budget b (lift_io x)"
  by (simp add: keeps_budget_def)

lemma keeps_budget_Pair [intro!]: "keeps_budget b (Pair x)"
  by (simp add: keeps_budget_def)

lemma keeps_budget_catch [intro!]:
  "keeps_budget b m \<Longrightarrow> (\<And>e. keeps_budget b (h e)) \<Longrightarrow> keeps_budget b (catch_io m p h)"
  unfolding keeps_budget_def catch_io_split by (simp split: sum.splits) (meson le_trans)

lemma keeps_budget_on_snd [intro!]: "keeps_budget b m \<Longrightarrow> keeps_budget (behind b) (on_snd m)"
  by (auto simp: keeps_budget_def behind_def on_snd_def split: prod.splits) (metis snd_conv)

lemma keeps_budget_bind_result:
  "keeps_budget b m \<Longrightarrow> (\<And>w x. fst (m w) = Inr x \<Longrightarrow> keeps_budget b (f x)) \<Longrightarrow> keeps_budget b (bind_io m f)"
  unfolding keeps_budget_def bind_io_split by (simp split: sum.splits) (meson le_trans)

section \<open>The write path\<close>

lemma insert_keeps: "keeps_budget b execute \<Longrightarrow> keeps_budget (behind b) (insert_heartbeat execute r)"
  by (auto simp: keeps_budget_def behind_def insert_heartbeat_def split: sum.splits prod.splits)
    (metis snd_conv)+

lemma latest_keeps: "keeps_budget b execute \<Longrightarrow> keeps_budget (behind b) (latest_heartbeat execute node)"
  by (auto simp: keeps_budget_def behind_def latest_heartbeat_def split: sum.splits prod.splits option.splits)
    (metis snd_conv)+

lemma ingest_keeps:
  "keeps_budget b clock \<Longrightarrow> keeps_budget b execute \<Longrightarrow> keeps_budget (behind b) (ingest config clock execute t)"
  unfolding ingest_def by (auto intro!: insert_keeps simp: Let_def)

lemma wire_keeps:
  "(\<And>t. keeps_budget b (ingestor t)) \<Longrightarrow> keeps_budget b (wire_handle config creds ingestor frames payload token)"
  unfolding wire_handle_def by (intro keeps_budget_bind keeps_budget_lift) (auto split: option.splits json.splits)

lemma api_keeps: "(\<And>p t. keeps_budget b (wire p t)) \<Longrightarrow> keeps_budget b (api_handle limit wire r)"
  unfolding api_handle_def Let_def by (auto split: list.splits option.splits)

lemma resolve_body_keeps: "(\<And>n. keeps_budget b (rfile_read n)) \<Longrightarrow> keeps_budget b (resolve_body rfile_read q)"
  unfolding resolve_body_def by (auto split: sum.splits option.splits)

lemma dispatch_keeps:
  "(\<And>n. keeps_budget b (rfile_read n)) \<Longrightarrow> (\<And>r. keeps_budget b (adapter r)) \<Longrightarrow> (\<And>em. keeps_budget b (emit em)) \<Longrightarrow>
    keeps_budget b (dispatch rfile_read adapter emit q)"
  unfolding dispatch_def
  by (intro keeps_budget_bind resolve_body_keeps) (auto split: sum.splits option.splits)

lemma serve_parsed_keeps:
  "(\<And>n. keeps_budget b (rfile_read n)) \<Longrightarrow> (\<And>r. keeps_budget b (adapter r)) \<Longrightarrow> (\<And>em. keeps_budget b (emit em)) \<Longrightarrow>
    keeps_budget b (serve_parsed rfile_read adapter emit expects q)"
  unfolding serve_parsed_def by (auto intro!: dispatch_keeps split: option.splits prod.splits)

section \<open>The monitoring cycle\<close>

lemma probe_tcp_keeps:
  "(\<And>a t. keeps_budget b (create a t)) \<Longrightarrow> (\<And>c. keeps_budget b (close c)) \<Longrightarrow>
    keeps_budget b (probe_tcp_reachability create close settings)"
  unfolding keeps_budget_def probe_tcp_reachability_def
  by (auto split: sum.splits prod.splits) (metis le_trans snd_conv)+

lemma evaluate_host_keeps:
  assumes "keeps_budget b clock" "keeps_budget b execute" "\<And>a t. keeps_budget b (create a t)" "\<And>c. keeps_budget b (close c)"
  shows "keeps_budget (behind (behind b)) (evaluate_host config clock execute create close host)"
proof -
  have remember: "keeps_budget (behind b') (\<lambda>(memory, outer). case r memory of
      Inl e \<Rightarrow> (Inl e, memory, outer) | Inr x \<Rightarrow> (Inr x, f memory x, outer))"
    for b' :: "'x \<Rightarrow> nat" and r :: "'m \<Rightarrow> 'y res" and f
    by (auto simp: keeps_budget_def behind_def split: sum.splits)
  show ?thesis
    unfolding evaluate_host_def Let_def
    by (auto intro!: assms latest_keeps probe_tcp_keeps remember split: option.splits)
qed

lemma monitor_hosts_keeps:
  assumes "\<And>h. keeps_budget b (evaluate h)" "\<And>t. keeps_budget b (notify t)"
  shows "keeps_budget b (monitor_hosts evaluate notify hs results)"
proof -
  have "monitor_hosts evaluate notify hs results s = (r, t) \<Longrightarrow> b t \<le> b s" for s r t
  proof (induction hs arbitrary: results s)
    case (Cons h hs)
    obtain x s1 where 1: "evaluate (hc_name h) s = (x, s1)" by (rule prod.exhaust)
    then have le1: "b s1 \<le> b s" by (rule keeps_budget_run [OF assms(1)])
    show ?case
    proof (cases x)
      case (Inl e)
      then show ?thesis using Cons.prems 1 le1 by simp
    next
      case (Inr evaluation)
      obtain y s2 where 2: "notify (ev_transition evaluation) s1 = (y, s2)" by (rule prod.exhaust)
      then have le2: "b s2 \<le> b s1" by (rule keeps_budget_run [OF assms(2)])
      show ?thesis using Cons 1 2 le1 le2 Inr by (cases y) fastforce+
    qed
  qed simp
  then show ?thesis unfolding keeps_budget_def by (metis prod.collapse)
qed

text \<open>An opener whose answers keep the budget, and a delivery through it\<close>

definition response_keeps :: "('w \<Rightarrow> nat) \<Rightarrow> 'w http_response \<Rightarrow> bool" where
  "response_keeps b r \<longleftrightarrow> keeps_budget b (rs_status r) \<and> (\<forall>n. keeps_budget b (rs_read r n)) \<and> keeps_budget b (rs_close r)"

definition opener_keeps :: "('w \<Rightarrow> nat) \<Rightarrow> 'w opener \<Rightarrow> bool" where
  "opener_keeps b opener \<longleftrightarrow>
     (\<forall>request timeout. keeps_budget b (opener request timeout) \<and>
       (\<forall>w. case fst (opener request timeout w) of
          Inr (Answered r) \<Rightarrow> response_keeps b r | Inr (RaisedHttpError _ r) \<Rightarrow> response_keeps b r | Inl _ \<Rightarrow> True))"

lemma close_exchange_keeps_budget:
  "response_keeps b r \<Longrightarrow> keeps_budget b (bind_io (close_exchange err r failure) raise_failure)"
  unfolding close_exchange_def raise_failure_def response_keeps_def by (auto split: option.splits)

lemma exchange_keeps:
  assumes "opener_keeps b opener"
  shows "keeps_budget b (exchange err limit opener request timeout)"
proof -
  have open_keeps: "keeps_budget b (opener request timeout)" using assms by (simp add: opener_keeps_def)
  have answer_keeps: "keeps_budget b (case opened of
       RaisedHttpError _ r \<Rightarrow> bind_io (close_exchange err r (Some err)) raise_failure
     | Answered r \<Rightarrow>
         bind_io
           (catch_io
             (bind_io (rs_status r) (\<lambda>status.
              bind_io (rs_read r (response_limit + 1)) (\<lambda>raw. return_io (Inr (status, raw)))))
             transport_error (\<lambda>_. return_io (Inl err))) (\<lambda>read.
         bind_io
           (case read of
              Inl e \<Rightarrow> return_io (Some e)
            | Inr (status, raw) \<Rightarrow> lift_io (classify_exchange err limit status raw)) (\<lambda>failure.
         bind_io (close_exchange err r failure) raise_failure)))"
    if "fst (opener request timeout w) = Inr opened" for w opened
  proof -
    have "case opened of Answered r \<Rightarrow> response_keeps b r | RaisedHttpError _ r \<Rightarrow> response_keeps b r"
      using assms that unfolding opener_keeps_def by (metis (no_types, lifting) sum.case(2))
    then show ?thesis
      by (cases opened) (auto simp: response_keeps_def split: sum.splits intro!: close_exchange_keeps_budget)
  qed
  show ?thesis
    unfolding exchange_def
  proof (rule keeps_budget_bind_result)
    show "keeps_budget b (catch_io (opener request timeout) transport_error (\<lambda>_. lift_io (Inl err)))"
      using open_keeps by auto
  qed (rule answer_keeps, auto simp: catch_io_split split: sum.splits if_splits)
qed

lemma tg_send_keeps: "opener_keeps b opener \<Longrightarrow> keeps_budget b (tg_send limit opener s subject)"
  unfolding tg_send_exchange by (auto intro: exchange_keeps)

lemma notify_keeps: "(\<And>i. keeps_budget b (send i)) \<Longrightarrow> keeps_budget b (notify_transition send t)"
  unfolding notify_transition_def by (auto split: option.splits)

section \<open>The composed runtime\<close>

text \<open>The operations of the outside that the loop uses keep the budget.\<close>

definition outside_keeps :: "('v \<Rightarrow> nat) \<Rightarrow> 'v outside \<Rightarrow> bool" where
  "outside_keeps b out \<longleftrightarrow>
     keeps_budget b (ou_clock out) \<and> keeps_budget b (ou_monotonic out) \<and> keeps_budget b (ou_statement out) \<and>
     (\<forall>t. keeps_budget b (ou_set_timeout out t)) \<and> keeps_budget b (ou_next_request out) \<and>
     (\<forall>n. keeps_budget b (ou_read out n)) \<and> (\<forall>em. keeps_budget b (ou_write out em)) \<and>
     (\<forall>a t. keeps_budget b (ou_create_connection out a t)) \<and> (\<forall>c. keeps_budget b (ou_close_socket out c)) \<and>
     opener_keeps b (ou_opener out)"

abbreviation app_budget :: "('v \<Rightarrow> nat) \<Rightarrow> 'v app_state \<Rightarrow> nat" where
  "app_budget b \<equiv> behind (behind (behind (behind b)))"

lemma at_outside_keeps: "keeps_budget b m \<Longrightarrow> keeps_budget (app_budget b) (at_outside m)"
  unfolding at_outside_def at_connection_def by (intro keeps_budget_on_snd)

lemma cycle_keeps:
  assumes "outside_keeps b out"
  shows "keeps_budget (behind (behind (behind b))) (application_cycle settings out)"
  using assms unfolding application_cycle_def monitoring_run_def outside_keeps_def
  by (auto intro!: monitor_hosts_keeps evaluate_host_keeps notify_keeps tg_send_keeps)

lemma adapter_keeps:
  assumes "outside_keeps b out"
  shows "keeps_budget (behind (behind b)) (application_adapter settings out request)"
  using assms unfolding application_adapter_def heartbeat_endpoint_def outside_keeps_def
  by (auto intro!: api_keeps wire_keeps ingest_keeps)

lemma next_request_keeps:
  assumes "outside_keeps b out"
  shows "keeps_budget (app_budget b) (next_request out)"
proof -
  have "keeps_budget (behind b') (\<lambda>(ow, s). (Inr q, f ow, s))" for b' :: "'x \<Rightarrow> nat" and q :: 'q and f :: "owned \<Rightarrow> owned"
    by (auto simp: keeps_budget_def behind_def)
  then show ?thesis
    using assms unfolding next_request_def outside_keeps_def by (auto intro!: at_outside_keeps)
qed

lemma serve_request_keeps:
  assumes "outside_keeps b out"
  shows "keeps_budget (app_budget b) (serve_request out (application_adapter settings out))"
  using assms adapter_keeps [OF assms] next_request_keeps [OF assms]
  unfolding serve_request_def outside_keeps_def
  by (auto intro!: serve_parsed_keeps split: option.splits)

lemma composed_keeps:
  assumes "outside_keeps b out"
  shows "keeps_budget (behind (app_budget b)) (iteration (lift_runtime (sa_runtime (composed out settings))) next_due)"
  using assms serve_request_keeps [OF assms] cycle_keeps [OF assms]
  by (intro iteration_keeps_budget)
    (auto simp: lift_runtime_def composed_def application_runtime_def outside_keeps_def intro!: at_outside_keeps)

section \<open>The process\<close>

text \<open>Every evaluation of the stop predicate that finds no signal uses up some of the budget.\<close>

definition patience_ends :: "('v \<Rightarrow> nat) \<Rightarrow> 'v signals \<Rightarrow> bool" where
  "patience_ends b sg \<longleftrightarrow> (\<forall>v v'. sg_arrived sg v = (False, v') \<longrightarrow> b v' < b v)"

lemma stop_request_uses_budget:
  assumes "patience_ends b sg" "stop_request sg s = (Inr False, s')"
  shows "behind (app_budget b) s' < behind (app_budget b) s"
proof -
  obtain p ow mem db cx v where s: "s = (p, ow, mem, db, cx, v)" by (cases s)
  show ?thesis
    using assms by (auto simp: stop_request_def s Let_def behind_def patience_ends_def split: prod.splits)
qed

lemma application_returns:
  assumes "outside_keeps b out" "patience_ends b sg"
  shows "application_run_forever (composed out settings) (Some (stop_request sg)) s \<noteq> None"
proof -
  let ?r = "lift_runtime (sa_runtime (composed out settings))"
  have "\<exists>outcome. serve ?r (stop_request sg) None s = Some outcome \<and>
      (fst outcome = Inr () \<longrightarrow> (\<exists>s1. stop_request sg s1 = (Inr True, snd outcome)))"
    by (rule serve_returns [OF composed_keeps [OF assms(1)] stop_request_uses_budget [OF assms(2)]])
  then show ?thesis by (auto simp: application_run_forever_def run_forever_def)
qed

lemma build_result:
  assumes "build_application out settings s = (Inr app, s')"
  shows "app = composed out settings"
  using assms by (auto simp: build_application_steps split: prod.splits sum.splits)

lemma run_application_returns:
  assumes "outside_keeps b out" "patience_ends b sg"
  shows "run_application out sg settings s \<noteq> None"
proof -
  obtain p t where s: "s = (p, t)" by (rule prod.exhaust)
  obtain x t' where 1: "build_application out settings t = (x, t')" by (rule prod.exhaust)
  show ?thesis
  proof (cases x)
    case (Inl e)
    then show ?thesis using 1 by (cases t') (simp add: run_application_def s)
  next
    case (Inr app)
    then have app: "app = composed out settings" using build_result 1 by simp
    obtain y s2 where 2: "application_run_forever app (Some (stop_request sg)) (p, t') = Some (y, s2)"
      using application_returns [OF assms] by (metis app not_None_eq prod.exhaust)
    obtain z s3 where "on_snd (application_close app) s2 = (z, s3)" by (rule prod.exhaust)
    then show ?thesis using 1 2 Inr by (cases z) (simp_all add: run_application_def s)
  qed
qed

lemma run_process_returns:
  assumes "outside_keeps b out" "patience_ends b sg"
  shows "run_process limit out sg env s \<noteq> None"
proof (cases "load_central_settings limit env")
  case (Inl e)
  then show ?thesis by (simp add: run_process_def)
next
  case (Inr settings)
  obtain x s1 where 1: "install_stop_handlers sg (apfst (\<lambda>p. p\<lparr>ps_requested := False\<rparr>) s) = (x, s1)" by (rule prod.exhaust)
  obtain y s2 where 2: "run_application out sg settings s1 = Some (y, s2)"
    using run_application_returns [OF assms] by (metis not_None_eq prod.exhaust)
  show ?thesis using Inr 1 2 by (cases x; cases y) (simp_all add: run_process_def)
qed

section \<open>Properties\<close>

text \<open>C4: the process ends when it is asked to: if its own operations do not take back what the stop
  predicate has used up, and the predicate cannot find no signal for ever, then the process returns,
  with an exception or without one, and whenever it does so the closing of the connection and
  of the listener has been attempted.\<close>

theorem process_ends_when_asked:
  assumes "outside_keeps b out" "patience_ends b sg" "nothing_owned (fst (snd s))"
  shows "\<exists>r s'. run_process limit out sg env s = Some (r, s') \<and> nothing_owned (fst (snd s')) \<and>
    (r = Inr () \<longrightarrow> ps_requested (fst s'))"
proof -
  obtain r s' where run: "run_process limit out sg env s = Some (r, s')"
    using run_process_returns [OF assms(1,2)] by (metis not_None_eq prod.exhaust)
  obtain p ow mem db w where s: "s = (p, ow, mem, db, w)" by (cases s)
  obtain p' ow' mem' db' w' where s': "s' = (p', ow', mem', db', w')" by (cases s')
  show ?thesis
    using run run_process_effect(1,2) [OF run [unfolded s s']] assms(3) by (simp add: s s')
qed

text \<open>An outside that works and serves nobody; the state counts how often the signal has yet to fail to come.\<close>

definition quiet_outside :: "nat outside" where
  "quiet_outside =
     \<lparr>ou_sql = (\<lambda>_. return_io ()), ou_bind = (\<lambda>_. return_io ()), ou_server_close = return_io (),
      ou_clock = return_io (PyDatetime (utc_datetime 0)), ou_monotonic = return_io (Fin 0),
      ou_statement = return_io (), ou_set_timeout = (\<lambda>_. return_io ()), ou_next_request = return_io None,
      ou_read = (\<lambda>n. return_io []), ou_write = (\<lambda>_. return_io ()),
      ou_create_connection = (\<lambda>_ _. lift_io (Inl OSError)), ou_close_socket = (\<lambda>_. return_io ()),
      ou_opener = (\<lambda>_ _. lift_io (Inl OSError)), ou_body_limit = 99, ou_telegram_limit = 99, ou_frames = 99\<rparr>"

definition late_signal :: "nat signals" where
  "late_signal = \<lparr>sg_fault = (\<lambda>_. return_io ()), sg_arrived = (\<lambda>n. (n = 0, n - 1))\<rparr>"

definition late_process :: "nat process" where
  "late_process = (\<lparr>ps_requested = False, ps_handlers = (\<lambda>_. Installable 0)\<rparr>, unowned, Map.empty, empty_db, fresh_connection, 7)"

theorem process_ends_when_asked_witness:
  "\<exists>r s'. run_process 9 quiet_outside late_signal (Inr central_environment) late_process = Some (r, s') \<and>
    nothing_owned (fst (snd s'))"
proof -
  have "outside_keeps id quiet_outside"
    by (simp add: outside_keeps_def quiet_outside_def keeps_budget_def opener_keeps_def)
  moreover have "patience_ends id late_signal" by (auto simp: patience_ends_def late_signal_def)
  moreover have "nothing_owned (fst (snd late_process))" by (simp add: late_process_def unowned_owns_nothing)
  ultimately show ?thesis using process_ends_when_asked by blast
qed

end
