(* ===== verification/Fingerprint.thy ===== *)
theory Fingerprint
  imports Py_Http Py_Json Py_Bytes "HOL-Library.AList"
begin

text \<open>
  \<open>tools/candidate_fingerprint.py\<close>: the fingerprint of the effective candidate tree.  Git and the file
  system are parameters, as is the hash function; byte strings and decoded texts are both strings of
  bytes.  A dictionary is an association list in insertion order.
\<close>

section \<open>Git and the file system\<close>

definition fingerprint_error :: exn where "fingerprint_error = ForeignException 7"
definition not_a_directory_error :: exn where "not_a_directory_error = ForeignException 8"

definition any_os_error :: "exn \<Rightarrow> bool" where
  "any_os_error e \<longleftrightarrow> is_os_error e \<or> e = not_a_directory_error"

text \<open>What \<open>lstat\<close> says: the type, and for a regular file whether an execute bit is set.\<close>

datatype file_type = SymbolicLink | RegularFile bool | Directory | OtherFile

record 'w fp_ops =
  fo_git :: "string \<Rightarrow> string list \<Rightarrow> string option \<Rightarrow> ('w, int \<times> string) io"
  fo_lstat :: "string \<Rightarrow> string \<Rightarrow> ('w, file_type) io"
  fo_read :: "string \<Rightarrow> string \<Rightarrow> ('w, string) io"
  fo_readlink :: "string \<Rightarrow> string \<Rightarrow> ('w, string) io"
  fo_has_git :: "string \<Rightarrow> string \<Rightarrow> ('w, bool) io"
  fo_hash :: "string \<Rightarrow> string \<Rightarrow> string"
  fo_windows :: bool

definition format_version :: string where "format_version = ''candidate-fingerprint 3''"
definition regular_mode :: string where "regular_mode = ''100644''"
definition executable_mode :: string where "executable_mode = ''100755''"
definition symlink_mode :: string where "symlink_mode = ''120000''"
definition gitlink_mode :: string where "gitlink_mode = ''160000''"
definition hex_alphabet :: string where "hex_alphabet = ''0123456789abcdef''"

definition nul :: char where "nul = CHR 0x00"
definition tab :: char where "tab = CHR 0x09"

definition fail_closed :: "('w, 'a) io" where "fail_closed = lift_io (Inl fingerprint_error)"

text \<open>\<open>bytes.strip\<close>, \<open>decode("ascii")\<close>, \<open>encode("ascii")\<close>\<close>

definition byte_space :: "char \<Rightarrow> bool" where
  "byte_space c \<longleftrightarrow> c = CHR '' '' \<or> 9 \<le> code c \<and> code c \<le> 13"

definition strip_bytes :: "string \<Rightarrow> string" where
  "strip_bytes s = rev (dropWhile byte_space (rev (dropWhile byte_space s)))"

definition ascii_decode :: "string \<Rightarrow> string res" where
  "ascii_decode s = (if list_all (\<lambda>c. code c < 128) s then Inr s else Inl UnicodeDecodeError)"

definition ascii_encode :: "string \<Rightarrow> string res" where
  "ascii_encode s = (if list_all (\<lambda>c. code c < 128) s then Inr s else Inl ValueError)"

definition git_bytes :: "'w fp_ops \<Rightarrow> string \<Rightarrow> string list \<Rightarrow> string option \<Rightarrow> ('w, string) io" where
  "git_bytes ops repo args input_bytes =
     bind_io (fo_git ops repo args input_bytes) (\<lambda>(code, out).
       if code \<noteq> 0 then fail_closed else return_io out)"

text \<open>
  \<open>_display\<close>: the path decoded as UTF-8 where every maximal ill-formed part becomes U+FFFD, here as the
  bytes of that text, which is what a command line receives.
\<close>

definition utf8_lead :: "nat \<Rightarrow> (nat \<times> nat \<times> nat) option" where
  "utf8_lead b =
     (if 194 \<le> b \<and> b \<le> 223 then Some (1, 128, 191)
      else if b = 224 then Some (2, 160, 191)
      else if b = 237 then Some (2, 128, 159)
      else if 225 \<le> b \<and> b \<le> 239 then Some (2, 128, 191)
      else if b = 240 then Some (3, 144, 191)
      else if 241 \<le> b \<and> b \<le> 243 then Some (3, 128, 191)
      else if b = 244 then Some (3, 128, 143)
      else None)"

fun utf8_continuation :: "nat \<Rightarrow> nat \<Rightarrow> nat \<Rightarrow> string \<Rightarrow> string \<times> string \<times> bool" where
  "utf8_continuation 0 lo hi s = ([], s, True)"
| "utf8_continuation (Suc k) lo hi [] = ([], [], False)"
| "utf8_continuation (Suc k) lo hi (c # cs) =
     (if lo \<le> code c \<and> code c \<le> hi then
        (case utf8_continuation k 128 191 cs of (t, r, whole) \<Rightarrow> (c # t, r, whole))
      else ([], c # cs, False))"

definition replacement :: string where "replacement = [CHR 0xEF, CHR 0xBF, CHR 0xBD]"

lemma utf8_continuation_length: "length (fst (snd (utf8_continuation k lo hi s))) \<le> length s"
  by (induction k lo hi s rule: utf8_continuation.induct) (auto split: prod.splits)

function display :: "string \<Rightarrow> string" where
  "display [] = []"
| "display (c # cs) =
     (if code c < 128 then c # display cs
      else case utf8_lead (code c) of
        None \<Rightarrow> replacement @ display cs
      | Some (k, lo, hi) \<Rightarrow>
          let parsed = utf8_continuation k lo hi cs in
          if snd (snd parsed) then c # fst parsed @ display (fst (snd parsed))
          else replacement @ display (fst (snd parsed)))"
  by pat_completeness auto
termination
  by (relation "measure length") (auto simp: le_imp_less_Suc utf8_continuation_length)

section \<open>The repository\<close>

definition resolve_base :: "'w fp_ops \<Rightarrow> string \<Rightarrow> string \<Rightarrow> ('w, string) io" where
  "resolve_base ops repo expected =
     bind_io (git_bytes ops repo [''rev-parse'', ''--is-inside-work-tree''] None) (\<lambda>inside.
     if strip_bytes inside \<noteq> ''true'' then fail_closed
     else bind_io
       (catch_io
         (bind_io (git_bytes ops repo [''rev-parse'', ''--verify'', expected @ ''^{commit}''] None) (\<lambda>out.
          bind_io (lift_io (ascii_decode out)) (\<lambda>sha. return_io (strip sha))))
         (\<lambda>e. e = fingerprint_error) (\<lambda>_. fail_closed)) (\<lambda>sha.
     bind_io (fo_git ops repo [''merge-base'', ''--is-ancestor'', sha, ''HEAD''] None) (\<lambda>(code, _).
       if code \<noteq> 0 then fail_closed else return_io sha)))"

definition repo_root :: "'w fp_ops \<Rightarrow> string \<Rightarrow> ('w, string) io" where
  "repo_root ops repo =
     bind_io (git_bytes ops repo [''rev-parse'', ''--show-toplevel''] None) (\<lambda>out.
       let dir = strip_bytes out in if dir = [] then fail_closed else return_io dir)"

definition object_format :: "'w fp_ops \<Rightarrow> string \<Rightarrow> ('w, string) io" where
  "object_format ops dir =
     bind_io (git_bytes ops dir [''rev-parse'', ''--show-object-format''] None) (\<lambda>out.
     bind_io (lift_io (ascii_decode out)) (\<lambda>t.
       let fmt = strip t in if fmt \<noteq> ''sha1'' \<and> fmt \<noteq> ''sha256'' then fail_closed else return_io fmt))"

definition blob_hex_id :: "'w fp_ops \<Rightarrow> string \<Rightarrow> string \<Rightarrow> string" where
  "blob_hex_id ops data objfmt = fo_hash ops objfmt (''blob '' @ nat_text (length data) @ [nul] @ data)"

type_synonym git_entries = "(string \<times> string \<times> string) list"

text \<open>The loop of \<open>read_index\<close> over the records\<close>

fun index_records :: "git_entries \<Rightarrow> string list \<Rightarrow> git_entries res" where
  "index_records entries [] = Inr entries"
| "index_records entries (r # rest) =
     (if r = [] then index_records entries rest
      else case partition_at tab r of (meta, found, path) \<Rightarrow>
        (case split_on (CHR '' '') meta of
           [mode, object_id, stage] \<Rightarrow>
             if \<not> found then Inl fingerprint_error
             else if stage \<noteq> ''0'' then Inl fingerprint_error
             else bind_res (ascii_decode mode) (\<lambda>m. bind_res (ascii_decode object_id) (\<lambda>i.
               index_records (AList.update path (m, i) entries) rest))
         | _ \<Rightarrow> Inl fingerprint_error))"

definition read_index :: "'w fp_ops \<Rightarrow> string \<Rightarrow> ('w, git_entries) io" where
  "read_index ops dir =
     bind_io (git_bytes ops dir [''ls-files'', ''-s'', ''-z''] None) (\<lambda>raw.
       lift_io (index_records [] (split_on nul raw)))"

definition read_untracked :: "'w fp_ops \<Rightarrow> string \<Rightarrow> ('w, string list) io" where
  "read_untracked ops dir =
     bind_io (git_bytes ops dir [''ls-files'', ''--others'', ''--exclude-standard'', ''-z''] None) (\<lambda>raw.
       return_io (filter (\<lambda>t. t \<noteq> []) (split_on nul raw)))"

fun tree_records :: "git_entries \<Rightarrow> string list \<Rightarrow> git_entries res" where
  "tree_records entries [] = Inr entries"
| "tree_records entries (r # rest) =
     (if r = [] then tree_records entries rest
      else case partition_at tab r of (meta, found, path) \<Rightarrow>
        (case split_on (CHR '' '') meta of
           [mode, kind, object_id] \<Rightarrow>
             if \<not> found then Inl fingerprint_error
             else bind_res (ascii_decode mode) (\<lambda>m. bind_res (ascii_decode object_id) (\<lambda>i.
               tree_records (AList.update path (m, i) entries) rest))
         | _ \<Rightarrow> Inl fingerprint_error))"

definition read_base_tree :: "'w fp_ops \<Rightarrow> string \<Rightarrow> string \<Rightarrow> ('w, git_entries) io" where
  "read_base_tree ops dir base =
     bind_io (git_bytes ops dir [''ls-tree'', ''-r'', ''-z'', base] None) (\<lambda>raw.
       lift_io (tree_records [] (split_on nul raw)))"

definition filemode_trusted :: "'w fp_ops \<Rightarrow> string \<Rightarrow> ('w, bool) io" where
  "filemode_trusted ops dir =
     bind_io (fo_git ops dir [''config'', ''--type=bool'', ''core.filemode''] None) (\<lambda>(code, out).
       let answer = strip_bytes out in
       return_io (if code = 0 \<and> (answer = ''true'' \<or> answer = ''false'') then answer = ''true'' else \<not> fo_windows ops))"

section \<open>Candidate files\<close>

text \<open>The loop over the triples of \<open>git check-attr\<close>; the last token is dropped by the range.\<close>

fun attribute_triples :: "string list \<Rightarrow> unit res" where
  "attribute_triples (path # attr # v # rest) =
     (if v \<noteq> ''unspecified'' then Inl fingerprint_error else attribute_triples rest)"
| "attribute_triples _ = Inr ()"

definition assert_no_external_clean_filters :: "'w fp_ops \<Rightarrow> string \<Rightarrow> string list \<Rightarrow> ('w, unit) io" where
  "assert_no_external_clean_filters ops dir paths =
     bind_io (git_bytes ops dir [''check-attr'', ''--stdin'', ''-z'', ''filter''] (Some (join_with [nul] paths @ [nul])))
       (\<lambda>raw. let tokens = split_on nul raw in
         if (length tokens - 1) mod 3 \<noteq> 0 then fail_closed
         else lift_io (attribute_triples (butlast tokens)))"

definition read_candidate_bytes :: "'w fp_ops \<Rightarrow> string \<Rightarrow> string \<Rightarrow> ('w, string) io" where
  "read_candidate_bytes ops dir path = catch_io (fo_read ops dir path) any_os_error (\<lambda>_. fail_closed)"

definition read_link_target :: "'w fp_ops \<Rightarrow> string \<Rightarrow> string \<Rightarrow> ('w, string) io" where
  "read_link_target ops dir path = catch_io (fo_readlink ops dir path) any_os_error (\<lambda>_. fail_closed)"

definition lstat_path :: "'w fp_ops \<Rightarrow> string \<Rightarrow> string \<Rightarrow> ('w, file_type option) io" where
  "lstat_path ops dir path =
     catch_io (bind_io (fo_lstat ops dir path) (\<lambda>st. return_io (Some st))) any_os_error
       (\<lambda>e. if e = FileNotFoundError \<or> e = not_a_directory_error then return_io None else fail_closed)"

definition clean_blob_id :: "'w fp_ops \<Rightarrow> string \<Rightarrow> string \<Rightarrow> ('w, string) io" where
  "clean_blob_id ops dir path =
     bind_io (read_candidate_bytes ops dir path) (\<lambda>content.
     bind_io
       (catch_io (fo_git ops dir [''hash-object'', ''--path='' @ display path, ''--stdin''] (Some content))
         (\<lambda>e. any_os_error e \<or> is_value_error e) (\<lambda>_. fail_closed)) (\<lambda>(code, out).
     if code \<noteq> 0 then fail_closed
     else let v = strip out in
       if \<not> list_all (\<lambda>c. Py_Bytes.code c < 128) out \<or> length v \<notin> {40, 64} \<or> \<not> set v \<subseteq> set hex_alphabet then fail_closed else return_io v))"

definition nested_head :: "'w fp_ops \<Rightarrow> string \<Rightarrow> string \<Rightarrow> ('w, string option) io" where
  "nested_head ops dir path =
     bind_io (fo_has_git ops dir path) (\<lambda>initialized.
     if \<not> initialized then return_io None
     else bind_io (fo_git ops (dir @ ''/'' @ path) [''rev-parse'', ''HEAD''] None) (\<lambda>(code, out).
       if code \<noteq> 0 then fail_closed
       else bind_io (lift_io (ascii_decode out)) (\<lambda>t. return_io (Some (strip t)))))"

text \<open>One path of the first loop of \<open>effective_entries\<close>: its entry, its place among the regular files, or none.\<close>

datatype path_class = Entry string string | Regular bool | Absent

definition index_entry :: "git_entries \<Rightarrow> string \<Rightarrow> string \<times> string" where
  "index_entry index path = (case map_of index path of None \<Rightarrow> ([], []) | Some e \<Rightarrow> e)"

definition classify_path ::
  "'w fp_ops \<Rightarrow> string \<Rightarrow> git_entries \<Rightarrow> bool \<Rightarrow> string \<Rightarrow> string \<Rightarrow> ('w, path_class) io" where
  "classify_path ops dir index trusted objfmt path =
     bind_io (lstat_path ops dir path) (\<lambda>st.
     case index_entry index path of (index_mode, index_id) \<Rightarrow>
       (case st of
          Some SymbolicLink \<Rightarrow>
            bind_io (read_link_target ops dir path) (\<lambda>target. return_io (Entry symlink_mode (blob_hex_id ops target objfmt)))
        | Some (RegularFile x) \<Rightarrow>
            if index_mode = symlink_mode then
              bind_io (read_candidate_bytes ops dir path) (\<lambda>data. return_io (Entry symlink_mode (blob_hex_id ops data objfmt)))
            else if index_mode = gitlink_mode then fail_closed
            else return_io (Regular (trusted \<and> x \<or> index_mode = executable_mode))
        | Some Directory \<Rightarrow>
            if index_mode = gitlink_mode then
              bind_io (nested_head ops dir path) (\<lambda>nested.
                return_io (Entry gitlink_mode (case nested of None \<Rightarrow> index_id | Some head \<Rightarrow> head)))
            else return_io Absent
        | _ \<Rightarrow>
            if index_mode = symlink_mode then return_io (Entry symlink_mode index_id)
            else if index_mode = gitlink_mode then fail_closed
            else return_io Absent))"

fun classify_paths ::
  "'w fp_ops \<Rightarrow> string \<Rightarrow> git_entries \<Rightarrow> bool \<Rightarrow> string \<Rightarrow> git_entries \<Rightarrow> (string \<times> bool) list \<Rightarrow> string list \<Rightarrow>
    ('w, git_entries \<times> (string \<times> bool) list) io" where
  "classify_paths ops dir index trusted objfmt entries regular [] = return_io (entries, regular)"
| "classify_paths ops dir index trusted objfmt entries regular (path # rest) =
     bind_io (classify_path ops dir index trusted objfmt path) (\<lambda>c.
     case c of
       Entry mode i \<Rightarrow> classify_paths ops dir index trusted objfmt (AList.update path (mode, i) entries) regular rest
     | Regular x \<Rightarrow> classify_paths ops dir index trusted objfmt entries (AList.update path x regular) rest
     | Absent \<Rightarrow> classify_paths ops dir index trusted objfmt entries regular rest)"

fun clean_regular :: "'w fp_ops \<Rightarrow> string \<Rightarrow> git_entries \<Rightarrow> (string \<times> bool) list \<Rightarrow> ('w, git_entries) io" where
  "clean_regular ops dir entries [] = return_io entries"
| "clean_regular ops dir entries ((path, executable) # rest) =
     bind_io (clean_blob_id ops dir path) (\<lambda>i.
       clean_regular ops dir
         (AList.update path ((if executable then executable_mode else regular_mode), i) entries) rest)"

text \<open>\<open>sorted(set(paths))\<close> by raw bytes\<close>

definition sorted_set :: "string list \<Rightarrow> string list" where "sorted_set paths = sort (remdups paths)"

definition effective_entries ::
  "'w fp_ops \<Rightarrow> string \<Rightarrow> git_entries \<Rightarrow> string list \<Rightarrow> bool \<Rightarrow> string \<Rightarrow> ('w, git_entries) io" where
  "effective_entries ops dir index untracked trusted objfmt =
     bind_io (classify_paths ops dir index trusted objfmt [] [] (sorted_set (map fst index @ untracked)))
       (\<lambda>(entries, regular).
     if regular = [] then return_io entries
     else bind_io (assert_no_external_clean_filters ops dir (sorted_set (map fst regular))) (\<lambda>_.
       clean_regular ops dir entries regular))"

section \<open>The representation\<close>

fun be_bytes :: "nat \<Rightarrow> nat \<Rightarrow> string" where
  "be_bytes 0 n = []"
| "be_bytes (Suc k) n = be_bytes k (n div 256) @ [char_of n]"

text \<open>\<open>len(data).to_bytes(8, "big") + data\<close>\<close>

definition field :: "string \<Rightarrow> string res" where
  "field data = (if 2 ^ 64 \<le> length data then Inl OverflowError else Inr (be_bytes 8 (length data) @ data))"

definition entry_chunk :: "string \<Rightarrow> (string \<times> string) option \<Rightarrow> string res" where
  "entry_chunk path entry =
     (case entry of
        None \<Rightarrow> bind_res (field path) (\<lambda>f. Inr (''D'' @ f))
      | Some (mode, content_id) \<Rightarrow>
          bind_res (field path) (\<lambda>f.
          bind_res (ascii_encode mode) (\<lambda>m.
          bind_res (bind_res (ascii_encode content_id) field) (\<lambda>c. Inr (''F'' @ f @ m @ c)))))"

fun entry_chunks :: "git_entries \<Rightarrow> string list \<Rightarrow> string res" where
  "entry_chunks files [] = Inr []"
| "entry_chunks files (path # rest) =
     bind_res (entry_chunk path (map_of files path)) (\<lambda>c. bind_res (entry_chunks files rest) (\<lambda>cs. Inr (c @ cs)))"

definition build_representation :: "string \<Rightarrow> string \<Rightarrow> string list \<Rightarrow> git_entries \<Rightarrow> string res" where
  "build_representation base objfmt deleted files =
     bind_res (ascii_encode base) (\<lambda>b.
     bind_res (ascii_encode objfmt) (\<lambda>fmt.
     bind_res (entry_chunks files (sorted_set (deleted @ map fst files))) (\<lambda>chunks.
       Inr (format_version @ [nul] @ ''base '' @ b @ [nul] @ ''objfmt '' @ fmt @ [nul] @ chunks))))"

definition changed_files :: "git_entries \<Rightarrow> git_entries \<Rightarrow> git_entries" where
  "changed_files base_tree present = filter (\<lambda>(path, entry). map_of base_tree path \<noteq> Some entry) present"

definition deleted_paths :: "git_entries \<Rightarrow> git_entries \<Rightarrow> string list" where
  "deleted_paths base_tree present = filter (\<lambda>path. map_of present path = None) (map fst base_tree)"

definition fingerprint :: "'w fp_ops \<Rightarrow> string \<Rightarrow> string \<Rightarrow> ('w, string) io" where
  "fingerprint ops repo expected_base =
     bind_io (resolve_base ops repo expected_base) (\<lambda>base.
     bind_io (repo_root ops repo) (\<lambda>dir.
     bind_io (object_format ops dir) (\<lambda>objfmt.
     bind_io (read_index ops dir) (\<lambda>index.
     bind_io (read_untracked ops dir) (\<lambda>untracked.
     bind_io (read_base_tree ops dir base) (\<lambda>base_tree.
     bind_io (filemode_trusted ops dir) (\<lambda>trusted.
     bind_io (effective_entries ops dir index untracked trusted objfmt) (\<lambda>present.
     bind_io (lift_io (build_representation base objfmt (deleted_paths base_tree present)
       (changed_files base_tree present))) (\<lambda>representation.
       return_io (fo_hash ops ''sha256'' representation))))))))))"

text \<open>\<open>main\<close>: the exit code, and the digest that is printed\<close>

definition fingerprint_main :: "'w fp_ops \<Rightarrow> string \<Rightarrow> string \<Rightarrow> ('w, int \<times> string option) io" where
  "fingerprint_main ops repo base =
     catch_io (bind_io (fingerprint ops repo base) (\<lambda>digest. return_io (0, Some digest)))
       (\<lambda>e. e = fingerprint_error) (\<lambda>_. return_io (2, None))"

section \<open>The representation is injective\<close>

definition be_value :: "string \<Rightarrow> nat" where
  "be_value s = foldl (\<lambda>n c. 256 * n + of_char c) 0 s"

lemma be_value_be_bytes: "be_value (be_bytes k n) = n mod 256 ^ k"
proof (induction k arbitrary: n)
  case (Suc k)
  have "be_value (be_bytes (Suc k) n) = 256 * (n div 256 mod 256 ^ k) + n mod 256"
    using Suc [of "n div 256"] by (simp add: be_value_def)
  then show ?case by (simp add: mod_mult2_eq)
qed (simp add: be_value_def)

lemma length_be_bytes [simp]: "length (be_bytes k n) = k"
  by (induction k arbitrary: n) simp_all

lemma field_prefix:
  assumes "field a = Inr fa" "field b = Inr fb" "fa @ x = fb @ y"
  shows "a = b \<and> x = y"
proof -
  have len: "length a < 2 ^ 64" "length b < 2 ^ 64" and f: "fa = be_bytes 8 (length a) @ a" "fb = be_bytes 8 (length b) @ b"
    using assms(1,2) by (auto simp: field_def split: if_splits)
  then have eq: "be_bytes 8 (length a) = be_bytes 8 (length b)" "a @ x = b @ y"
    using assms(3) by auto
  have "length a mod 256 ^ 8 = length b mod 256 ^ 8"
    using eq(1) be_value_be_bytes [of 8 "length a"] be_value_be_bytes [of 8 "length b"] by simp
  then have "length a = length b" using len by simp
  then show ?thesis using eq(2) by simp
qed

definition six_letter_modes :: "git_entries \<Rightarrow> bool" where
  "six_letter_modes files \<longleftrightarrow> list_all (\<lambda>(_, mode, _). length mode = 6) files"

lemma six_letter_mode: "six_letter_modes files \<Longrightarrow> map_of files path = Some (mode, i) \<Longrightarrow> length mode = 6"
  by (auto simp: six_letter_modes_def list_all_iff dest!: map_of_SomeD)

lemma ascii_encode_eq: "ascii_encode s = Inr t \<Longrightarrow> t = s"
  by (simp add: ascii_encode_def split: if_splits)

lemma entry_chunk_prefix:
  assumes "entry_chunk p e = Inr c" "entry_chunk q f = Inr d" "c @ x = d @ y"
    and "\<And>m i. e = Some (m, i) \<Longrightarrow> length m = 6" "\<And>m i. f = Some (m, i) \<Longrightarrow> length m = 6"
  shows "p = q \<and> e = f \<and> x = y"
proof -
  consider (deleted) "e = None" "f = None" | (mixed) "e = None \<longleftrightarrow> f \<noteq> None"
    | (present) m i m' i' where "e = Some (m, i)" "f = Some (m', i')" by (cases e; cases f) auto
  then show ?thesis
  proof cases
    case deleted
    then obtain fp fq where "field p = Inr fp" "field q = Inr fq" "fp @ x = fq @ y"
      using assms(1-3) by (auto simp: entry_chunk_def)
    then show ?thesis using field_prefix deleted by blast
  next
    case mixed
    then show ?thesis using assms(1-3) by (cases e; cases f) (auto simp: entry_chunk_def)
  next
    case present
    obtain fp fi where 1: "field p = Inr fp" "field i = Inr fi" "c = ''F'' @ fp @ m @ fi"
      using assms(1) present by (auto simp: entry_chunk_def dest!: ascii_encode_eq)
    obtain fq fj where 2: "field q = Inr fq" "field i' = Inr fj" "d = ''F'' @ fq @ m' @ fj"
      using assms(2) present by (auto simp: entry_chunk_def dest!: ascii_encode_eq)
    have "fp @ (m @ fi @ x) = fq @ (m' @ fj @ y)" using assms(3) 1 2 by simp
    from field_prefix [OF 1(1) 2(1) this] have "p = q" "m @ fi @ x = m' @ fj @ y" by auto
    moreover from this have "m = m'" "fi @ x = fj @ y" using assms(4,5) present by auto
    moreover from field_prefix [OF 1(2) 2(2) this(2)] have "i = i'" "x = y" by auto
    ultimately show ?thesis using present by simp
  qed
qed

lemma entry_chunk_not_empty: "entry_chunk p e \<noteq> Inr []"
  by (auto simp: entry_chunk_def split: option.splits)

lemma entry_chunks_inject:
  assumes "entry_chunks files ps = Inr cs" "entry_chunks files' ps' = Inr cs"
    and "six_letter_modes files" "six_letter_modes files'"
  shows "map (\<lambda>p. (p, map_of files p)) ps = map (\<lambda>p. (p, map_of files' p)) ps'"
  using assms(1,2)
proof (induction ps arbitrary: ps' cs)
  case Nil
  then show ?case by (cases ps') (auto simp: entry_chunk_not_empty)
next
  case (Cons p ps)
  obtain c rest where 1: "entry_chunk p (map_of files p) = Inr c" "entry_chunks files ps = Inr rest" "cs = c @ rest"
    using Cons.prems(1) by auto
  show ?case
  proof (cases ps')
    case Nil
    then show ?thesis using Cons.prems 1 by (auto simp: entry_chunk_not_empty)
  next
    case (Cons q qs)
    obtain d rest' where 2: "entry_chunk q (map_of files' q) = Inr d" "entry_chunks files' qs = Inr rest'" "cs = d @ rest'"
      using Cons.prems(2) Cons by auto
    have "p = q \<and> map_of files p = map_of files' q \<and> rest = rest'"
      using entry_chunk_prefix [OF 1(1) 2(1)] 1(3) 2(3) six_letter_mode [OF assms(3)] six_letter_mode [OF assms(4)]
      by metis
    then show ?thesis using Cons.IH 1(2) 2(2) Cons by auto
  qed
qed

text \<open>The entries that a base tree and the representation's two lists determine.\<close>

definition described :: "git_entries \<Rightarrow> git_entries \<Rightarrow> string list \<Rightarrow> string \<Rightarrow> (string \<times> string) option" where
  "described base_tree files deleted path =
     (if path \<in> set deleted \<union> fst ` set files then map_of files path else map_of base_tree path)"

lemma map_of_changed:
  assumes "distinct (map fst present)"
  shows "map_of (changed_files base_tree present) path =
    (case map_of present path of None \<Rightarrow> None | Some e \<Rightarrow> if map_of base_tree path = Some e then None else Some e)"
  using assms by (induction present) (auto simp: changed_files_def split: option.splits if_splits simp: rev_image_eqI)

lemma described_present:
  assumes "distinct (map fst present)"
  shows "described base_tree (changed_files base_tree present) (deleted_paths base_tree present) = map_of present"
proof
  fix path
  show "described base_tree (changed_files base_tree present) (deleted_paths base_tree present) path = map_of present path"
  proof (cases "map_of present path")
    case None
    then have "map_of (changed_files base_tree present) path = None" using map_of_changed [OF assms] by simp
    moreover have "path \<in> set (deleted_paths base_tree present)" if "map_of base_tree path \<noteq> None"
      using that None by (auto simp: deleted_paths_def map_of_eq_None_iff)
    ultimately show ?thesis using None by (cases "map_of base_tree path") (auto simp: described_def)
  next
    case (Some e)
    then have "path \<notin> set (deleted_paths base_tree present)" by (simp add: deleted_paths_def)
    moreover have "path \<in> fst ` set (changed_files base_tree present) \<longleftrightarrow> map_of base_tree path \<noteq> Some e"
      using map_of_changed [OF assms, of base_tree path] Some map_of_eq_None_iff [of "changed_files base_tree present" path]
      by (auto split: if_splits)
    ultimately show ?thesis using map_of_changed [OF assms, of base_tree path] Some by (auto simp: described_def)
  qed
qed

lemma build_representation_parts:
  assumes "build_representation base objfmt deleted files = Inr r"
  obtains chunks where "entry_chunks files (sorted_set (deleted @ map fst files)) = Inr chunks"
    "r = format_version @ nul # ''base '' @ base @ nul # ''objfmt '' @ objfmt @ nul # chunks"
  using assms by (auto simp: build_representation_def dest!: ascii_encode_eq)

text \<open>Well-formed effective entries, as git's modes and a dictionary give them.\<close>

definition entries_ok :: "git_entries \<Rightarrow> bool" where
  "entries_ok present \<longleftrightarrow> distinct (map fst present) \<and> six_letter_modes present"

lemma set_sorted_set [simp]: "set (sorted_set xs) = set xs"
  by (simp add: sorted_set_def)

lemma split_at_nul: "a @ nul # x = b @ nul # y \<Longrightarrow> nul \<notin> set a \<Longrightarrow> nul \<notin> set b \<Longrightarrow> a = b \<and> x = y"
proof (induction a arbitrary: b)
  case Nil
  then show ?case by (cases b) auto
next
  case (Cons c a)
  then show ?case by (cases b) auto
qed

lemma representation_determines:
  assumes "build_representation base objfmt (deleted_paths base_tree present) (changed_files base_tree present) = Inr r"
    and "build_representation base' objfmt' (deleted_paths base_tree present') (changed_files base_tree present') = Inr r"
    and "nul \<notin> set (base @ base' @ objfmt @ objfmt')" "entries_ok present" "entries_ok present'"
  shows "base = base' \<and> objfmt = objfmt' \<and> map_of present = map_of present'"
proof -
  let ?f = "changed_files base_tree present" and ?f' = "changed_files base_tree present'"
  let ?d = "deleted_paths base_tree present" and ?d' = "deleted_paths base_tree present'"
  obtain c where c: "entry_chunks ?f (sorted_set (?d @ map fst ?f)) = Inr c"
    "r = format_version @ nul # ''base '' @ base @ nul # ''objfmt '' @ objfmt @ nul # c"
    using build_representation_parts [OF assms(1)] by blast
  obtain c' where c': "entry_chunks ?f' (sorted_set (?d' @ map fst ?f')) = Inr c'"
    "r = format_version @ nul # ''base '' @ base' @ nul # ''objfmt '' @ objfmt' @ nul # c'"
    using build_representation_parts [OF assms(2)] by blast
  have free: "nul \<notin> set base" "nul \<notin> set base'" "nul \<notin> set objfmt" "nul \<notin> set objfmt'" using assms(3) by auto
  have "base @ nul # ''objfmt '' @ objfmt @ nul # c = base' @ nul # ''objfmt '' @ objfmt' @ nul # c'"
    using c(2) c'(2) by simp
  from split_at_nul [OF this free(1,2)] have base: "base = base'" "objfmt @ nul # c = objfmt' @ nul # c'" by auto
  from split_at_nul [OF base(2) free(3,4)] base(1) have same: "base = base'" "objfmt = objfmt'" "c = c'" by auto
  have modes: "six_letter_modes ?f" "six_letter_modes ?f'"
    using assms(4,5) by (auto simp: entries_ok_def six_letter_modes_def changed_files_def list_all_iff)
  have lists: "map (\<lambda>p. (p, map_of ?f p)) (sorted_set (?d @ map fst ?f)) =
      map (\<lambda>p. (p, map_of ?f' p)) (sorted_set (?d' @ map fst ?f'))"
    using entry_chunks_inject [OF c(1) _ modes] c'(1) same(3) by blast
  have "map fst (map (\<lambda>p. (p, map_of ?f p)) (sorted_set (?d @ map fst ?f))) =
      map fst (map (\<lambda>p. (p, map_of ?f' p)) (sorted_set (?d' @ map fst ?f')))"
    using lists by (rule arg_cong)
  then have paths: "sorted_set (?d @ map fst ?f) = sorted_set (?d' @ map fst ?f')" by (simp add: comp_def)
  then have keys: "set ?d \<union> fst ` set ?f = set ?d' \<union> fst ` set ?f'"
    by (metis set_sorted_set set_append set_map)
  have "map_of ?f path = map_of ?f' path" if "path \<in> set ?d \<union> fst ` set ?f" for path
  proof -
    have "path \<in> set (sorted_set (?d @ map fst ?f))" using that by simp
    then show ?thesis using lists unfolding paths by auto
  qed
  then have "described base_tree ?f ?d = described base_tree ?f' ?d'"
    using keys by (auto simp: described_def fun_eq_iff)
  then show ?thesis using same assms(4,5) described_present by (simp add: entries_ok_def)
qed

lemma entry_chunks_cong:
  "(\<And>p. p \<in> set ps \<Longrightarrow> map_of files p = map_of files' p) \<Longrightarrow> entry_chunks files ps = entry_chunks files' ps"
  by (induction ps) auto

lemma determined_representation:
  assumes "map_of present = map_of present'" "distinct (map fst present)" "distinct (map fst present')"
  shows "build_representation base objfmt (deleted_paths base_tree present) (changed_files base_tree present) =
    build_representation base objfmt (deleted_paths base_tree present') (changed_files base_tree present')"
proof -
  have files: "map_of (changed_files base_tree present) = map_of (changed_files base_tree present')"
    using map_of_changed [OF assms(2), of base_tree] map_of_changed [OF assms(3), of base_tree] assms(1)
    by (simp add: fun_eq_iff)
  then have "fst ` set (changed_files base_tree present) = fst ` set (changed_files base_tree present')"
    by (metis dom_map_of_conv_image_fst)
  moreover have "deleted_paths base_tree present = deleted_paths base_tree present'"
    by (simp add: deleted_paths_def assms(1))
  ultimately have "sorted_set (deleted_paths base_tree present @ map fst (changed_files base_tree present)) =
      sorted_set (deleted_paths base_tree present' @ map fst (changed_files base_tree present'))"
    unfolding sorted_set_def by (intro sorted_distinct_set_unique) auto
  then show ?thesis unfolding build_representation_def by (simp add: entry_chunks_cong [of _ "changed_files base_tree present"
      "changed_files base_tree present'"] files)
qed

text \<open>C18: equal representations are equal candidates: on one base tree, two sets of effective entries give
  the same hashed bytes exactly when base, object format and every effective path with its mode and
  content id agree, so apart from collisions of the hash the fingerprint identifies the candidate.\<close>

theorem representation_identifies_the_candidate:
  assumes "build_representation base objfmt (deleted_paths base_tree present) (changed_files base_tree present) = Inr r"
    and "build_representation base' objfmt' (deleted_paths base_tree present') (changed_files base_tree present') = Inr r'"
    and "nul \<notin> set (base @ base' @ objfmt @ objfmt')" "entries_ok present" "entries_ok present'"
  shows "r = r' \<longleftrightarrow> base = base' \<and> objfmt = objfmt' \<and> map_of present = map_of present'"
proof
  assume "r = r'"
  then show "base = base' \<and> objfmt = objfmt' \<and> map_of present = map_of present'"
    using representation_determines [OF assms(1) _ assms(3-5)] assms(2) by simp
next
  assume "base = base' \<and> objfmt = objfmt' \<and> map_of present = map_of present'"
  then show "r = r'"
    using determined_representation [of present present' base objfmt base_tree] assms by (simp add: entries_ok_def)
qed

text \<open>The same file at two contents\<close>

definition sample_entries :: "string \<Rightarrow> git_entries" where
  "sample_entries content_id = [(''a'', regular_mode, content_id)]"

theorem representation_identifies_the_candidate_witness:
  "\<exists>r r'. build_representation ''b'' ''sha1'' (deleted_paths [] (sample_entries ''1'')) (changed_files [] (sample_entries ''1'')) = Inr r \<and>
    build_representation ''b'' ''sha1'' (deleted_paths [] (sample_entries ''2'')) (changed_files [] (sample_entries ''2'')) = Inr r' \<and>
    r \<noteq> r'"
proof -
  have ok: "entries_ok (sample_entries ''1'')" "entries_ok (sample_entries ''2'')"
    by (simp_all add: entries_ok_def sample_entries_def six_letter_modes_def regular_mode_def)
  have runs: "\<exists>r. build_representation ''b'' ''sha1'' (deleted_paths [] (sample_entries i)) (changed_files [] (sample_entries i)) = Inr r"
    if "list_all (\<lambda>c. code c < 128) i" "length i < 2 ^ 64" for i
    using that by (simp add: build_representation_def deleted_paths_def changed_files_def sample_entries_def sorted_set_def
        entry_chunk_def field_def ascii_encode_def regular_mode_def code_def)
  obtain r r' where r:
    "build_representation ''b'' ''sha1'' (deleted_paths [] (sample_entries ''1'')) (changed_files [] (sample_entries ''1'')) = Inr r"
    "build_representation ''b'' ''sha1'' (deleted_paths [] (sample_entries ''2'')) (changed_files [] (sample_entries ''2'')) = Inr r'"
    using runs [of "''1''"] runs [of "''2''"] by (auto simp: code_def)
  have free: "nul \<notin> set (''b'' @ ''b'' @ ''sha1'' @ ''sha1'')" by (simp add: nul_def)
  have "map_of (sample_entries ''1'') \<noteq> map_of (sample_entries ''2'')"
    by (auto simp: sample_entries_def fun_eq_iff)
  then show ?thesis using representation_identifies_the_candidate [OF r free ok] r by blast
qed

section \<open>Staging\<close>

text \<open>
  The mode \<open>git add\<close> gives a regular file whose index entry had a given mode: git looks at the owner's
  execute bit only, the tool at all three.
\<close>

definition staged_mode :: "bool \<Rightarrow> bool \<Rightarrow> string \<Rightarrow> string" where
  "staged_mode trusted u old =
     (if trusted then (if u then executable_mode else regular_mode)
      else if old = executable_mode then executable_mode else regular_mode)"

lemma modes_differ [simp]:
  "executable_mode \<noteq> symlink_mode" "executable_mode \<noteq> gitlink_mode" "regular_mode \<noteq> symlink_mode"
  "regular_mode \<noteq> gitlink_mode" "regular_mode \<noteq> executable_mode"
  by (simp_all add: executable_mode_def symlink_mode_def gitlink_mode_def regular_mode_def)

lemma index_entry_update [simp]:
  "index_entry (AList.update p e index) q = (if p = q then e else index_entry index q)"
  by (simp add: index_entry_def update_conv')

lemma classify_regular:
  assumes "fst (fo_lstat ops dir path s) = Inr (RegularFile x)" "fst (index_entry index path) \<notin> {symlink_mode, gitlink_mode}"
  shows "classify_path ops dir index trusted objfmt path s =
    (Inr (Regular (trusted \<and> x \<or> fst (index_entry index path) = executable_mode)), snd (fo_lstat ops dir path s))"
  using assms by (cases "index_entry index path")
    (auto simp: classify_path_def lstat_path_def bind_io_split catch_io_split)

lemma classify_paths_cong:
  "(\<And>p. p \<in> set paths \<Longrightarrow> classify_path ops dir index trusted objfmt p = classify_path ops dir index' trusted objfmt p) \<Longrightarrow>
    classify_paths ops dir index trusted objfmt entries regular paths =
    classify_paths ops dir index' trusted objfmt entries regular paths"
proof (induction paths arbitrary: entries regular)
  case (Cons p paths)
  then have "classify_path ops dir index trusted objfmt p = classify_path ops dir index' trusted objfmt p" by simp
  moreover have "classify_paths ops dir index trusted objfmt e r paths = classify_paths ops dir index' trusted objfmt e r paths"
    for e r
    using Cons by simp
  ultimately show ?case by (simp cong: path_class.case_cong)
qed simp

lemma staging_classifies:
  assumes "\<And>s. fst (fo_lstat ops dir path s) = Inr (RegularFile x)"
    and "fst (index_entry index path) \<notin> {symlink_mode, gitlink_mode}"
    and "\<not> (trusted \<and> \<not> x \<and> fst (index_entry index path) = executable_mode)" "u \<longrightarrow> x"
  shows "classify_path ops dir (AList.update path (staged_mode trusted u (fst (index_entry index path)), object_id) index) trusted objfmt p =
    classify_path ops dir index trusted objfmt p"
proof (cases "p = path")
  case True
  let ?mode = "staged_mode trusted u (fst (index_entry index path))"
  have "fst (index_entry (AList.update path (?mode, object_id) index) path) = ?mode" "?mode \<notin> {symlink_mode, gitlink_mode}"
    by (simp_all add: staged_mode_def)
  then have "classify_path ops dir (AList.update path (?mode, object_id) index) trusted objfmt path s =
      (Inr (Regular (trusted \<and> x \<or> ?mode = executable_mode)), snd (fo_lstat ops dir path s))" for s
    using classify_regular [OF assms(1)] by metis
  moreover have "(trusted \<and> x \<or> ?mode = executable_mode) = (trusted \<and> x \<or> fst (index_entry index path) = executable_mode)"
    using assms(3,4) by (auto simp: staged_mode_def)
  ultimately show ?thesis using classify_regular [OF assms(1,2)] True by (simp add: fun_eq_iff)
next
  case False
  then show ?thesis by (simp add: classify_path_def)
qed

text \<open>C40: staging is invisible: adding a regular working-tree file to the index, whether it was untracked or
  tracked at another content, leaves the effective entries, and with them the fingerprint, as they
  were, whether or not the owner's execute bit, which is the one git records, is among the file's
  execute bits; the one exception is a file whose execute bit was removed.\<close>

theorem staging_is_invisible:
  assumes "\<And>s. fst (fo_lstat ops dir path s) = Inr (RegularFile x)" "path \<in> set (map fst index @ untracked)"
    and "fst (index_entry index path) \<notin> {symlink_mode, gitlink_mode}"
    and "\<not> (trusted \<and> \<not> x \<and> fst (index_entry index path) = executable_mode)" "u \<longrightarrow> x"
  shows "effective_entries ops dir (AList.update path (staged_mode trusted u (fst (index_entry index path)), object_id) index)
      (removeAll path untracked) trusted objfmt =
    effective_entries ops dir index untracked trusted objfmt"
proof -
  let ?index = "AList.update path (staged_mode trusted u (fst (index_entry index path)), object_id) index"
  have "set (map fst ?index @ removeAll path untracked) = set (map fst index @ untracked)"
    using assms(2) by (auto simp: dom_update)
  then have "sorted_set (map fst ?index @ removeAll path untracked) = sorted_set (map fst index @ untracked)"
    unfolding sorted_set_def by (intro sorted_distinct_set_unique) auto
  moreover have "classify_paths ops dir ?index trusted objfmt [] [] ps = classify_paths ops dir index trusted objfmt [] [] ps" for ps
    by (rule classify_paths_cong) (rule staging_classifies [OF assms(1,3,4,5)])
  ultimately show ?thesis by (simp add: effective_entries_def)
qed

text \<open>A new file in an empty index; what is read fails, so only the enumeration is exercised.\<close>

definition sample_fp_ops :: "unit fp_ops" where
  "sample_fp_ops =
     \<lparr>fo_git = (\<lambda>_ _ _. return_io (0, [])), fo_lstat = (\<lambda>_ _. return_io (RegularFile True)),
      fo_read = (\<lambda>_ _. lift_io (Inl OSError)), fo_readlink = (\<lambda>_ _. lift_io (Inl OSError)),
      fo_has_git = (\<lambda>_ _. return_io False), fo_hash = (\<lambda>_ data. data), fo_windows = False\<rparr>"

theorem staging_is_invisible_witness:
  "effective_entries sample_fp_ops ''/r'' [(''a'', executable_mode, ''1'')] [] True ''sha1'' =
    effective_entries sample_fp_ops ''/r'' [] [''a''] True ''sha1''"
  using staging_is_invisible [of sample_fp_ops "''/r''" "''a''" True "[]" "[''a'']" True True "''1''" "''sha1''"]
  by (simp add: sample_fp_ops_def index_entry_def staged_mode_def)
    (simp add: symlink_mode_def gitlink_mode_def)

text \<open>
  The exception is real: a tracked executable whose execute bit was removed counts as executable until
  it is staged, so the removal is not in the fingerprint and staging changes it.
\<close>

lemma removed_execute_bit_is_invisible:
  assumes "fst (fo_lstat ops dir path s) = Inr (RegularFile False)" "fst (index_entry index path) = executable_mode"
  shows "fst (classify_path ops dir index True objfmt path s) = Inr (Regular True)"
    "fst (classify_path ops dir (AList.update path (staged_mode True False executable_mode, i) index) True objfmt path s) =
      Inr (Regular False)"
  using assms classify_regular [OF assms(1)] by (auto simp: staged_mode_def)

text \<open>A path that is not UTF-8 reaches \<open>git hash-object --path\<close> as another path.\<close>

lemma display_changes_the_path: "display [CHR 0xFF] = replacement"
  by (simp add: utf8_lead_def code_def)

end
