(* ===== verification/Verify_Gate.thy ===== *)
theory Verify_Gate
  imports Py_Json Py_Text
begin

text \<open>
  \<open>tools/verify.py\<close>: the ordered verification gates.  Starting a process and printing are parameters.
\<close>

definition checks :: "string list list" where
  "checks =
     [[''-m'', ''pytest'', ''-q''], [''-m'', ''compileall'', ''src''], [''-m'', ''ruff'', ''check'', ''.''],
      [''-m'', ''mypy'', ''src''], [''-m'', ''pip'', ''check'']]"

definition gate_argv :: "string \<Rightarrow> string list \<Rightarrow> string list" where
  "gate_argv executable check = executable # check"

text \<open>\<open>subprocess.run\<close> with captured output is a parameter; a process that cannot start is code 127.\<close>

definition real_executor ::
  "(string list \<Rightarrow> ('w, int \<times> string \<times> string) io) \<Rightarrow> string list \<Rightarrow> ('w, int \<times> string option) io" where
  "real_executor run argv =
     catch_io (bind_io (run argv) (\<lambda>(code, out, err). return_io (code, Some (out @ err)))) is_os_error
       (\<lambda>_. return_io (127, None))"

definition rstrip :: "string \<Rightarrow> string" where "rstrip s = rev (lstrip (rev s))"

text \<open>\<open>None\<close> stands for the text that names the exception of a process that did not start.\<close>

datatype verify_line = Running string | Output "string option" | Failed int string | Passed string | AllPassed

fun verify ::
  "string \<Rightarrow> (string list \<Rightarrow> ('w, int \<times> string option) io) \<Rightarrow> (verify_line \<Rightarrow> ('w, unit) io) \<Rightarrow> string list list \<Rightarrow>
    ('w, int) io" where
  "verify executable executor print [] = bind_io (print AllPassed) (\<lambda>_. return_io 0)"
| "verify executable executor print (check # rest) =
     (let label = join_with '' '' (''python'' # check) in
      bind_io (print (Running label)) (\<lambda>_.
      bind_io (executor (gate_argv executable check)) (\<lambda>(code, text_out).
      bind_io (case text_out of
          None \<Rightarrow> print (Output None)
        | Some t \<Rightarrow> if strip t \<noteq> [] then print (Output (Some (rstrip t))) else return_io ()) (\<lambda>_.
      if code \<noteq> 0 then bind_io (print (Failed code label)) (\<lambda>_. return_io 1)
      else bind_io (print (Passed label)) (\<lambda>_. verify executable executor print rest)))))"

definition verify_main ::
  "string \<Rightarrow> (string list \<Rightarrow> ('w, int \<times> string \<times> string) io) \<Rightarrow> (verify_line \<Rightarrow> ('w, unit) io) \<Rightarrow> ('w, int) io" where
  "verify_main executable run print = verify executable (real_executor run) print checks"

text \<open>
  Each gate has a fixed outcome: the result is 0 exactly when every gate passes, and the gates that
  ran are those up to the first failure.
\<close>

definition recorded :: "(string list \<Rightarrow> int) \<Rightarrow> string list \<Rightarrow> (string list list, int \<times> string option) io" where
  "recorded outcome argv = (\<lambda>seen. (Inr (outcome argv, Some []), seen @ [argv]))"

fun until_failure :: "(string list \<Rightarrow> int) \<Rightarrow> string list list \<Rightarrow> string list list" where
  "until_failure outcome [] = []"
| "until_failure outcome (argv # rest) = (if outcome argv \<noteq> 0 then [argv] else argv # until_failure outcome rest)"

lemma verify_stops_at_first_failure:
  "verify executable (recorded outcome) (\<lambda>_. return_io ()) cs seen =
    (Inr (if list_all (\<lambda>c. outcome (gate_argv executable c) = 0) cs then 0 else 1),
     seen @ until_failure outcome (map (gate_argv executable) cs))"
  by (induction cs arbitrary: seen)
    (simp_all add: Let_def bind_io_def recorded_def return_io_def strip_def lstrip_def)

end
