(* ===== verification/Spec2Isabelle.thy ===== *)
theory Spec2Isabelle
  imports Monitoring Deadman_Runtime Acceptance Transport Runtime Schema Deadman_Process Liveness Fingerprint
    Verify_Gate
begin

text \<open>
  Hermes Sentinel watches a set of hosts.  This development models its Python code under \<open>src/\<close> and
  proves what makes each part correct.  It has two programs and two tools.

  The central sentinel (\<open>process.py\<close>) loads its settings from the environment (\<open>settings.py\<close>), composes
  one application (\<open>application.py\<close>) and runs it in one thread (\<open>runtime.py\<close>) until SIGTERM or SIGINT.
  Each turn of the loop runs a due monitoring pass and serves at most one heartbeat request.  A request
  goes through framing (\<open>http_server.py\<close>), request semantics (\<open>http_api.py\<close>), authentication and strict
  decoding (\<open>wire.py\<close>) and ingestion (\<open>ingestion.py\<close>) into one SQLite table
  (\<open>persistence/repository.py\<close>, bootstrapped by \<open>persistence/schema.py\<close>).  A pass (\<open>monitoring.py\<close>)
  evaluates every configured host (\<open>health_engine.py\<close>) from its newest heartbeat and a TCP probe
  (\<open>health.py\<close>, \<open>reachability.py\<close>), moves the host's state with debounce (\<open>state_resolver.py\<close>), and hands
  each confirmed change (\<open>incidents.py\<close>, \<open>notifications.py\<close>) to Telegram (\<open>telegram.py\<close>).

  The external dead-man (\<open>deadman_process.py\<close>) is started once per cycle elsewhere: it loads its settings
  (\<open>deadman_config.py\<close>), probes the sentinel (\<open>deadman_probe.py\<close>), advances its persisted status
  (\<open>deadman.py\<close>, \<open>deadman_store.py\<close>) and delivers its oldest pending intent
  (\<open>deadman_runtime.py\<close>, \<open>deadman_telegram.py\<close>).

  \<open>tools/candidate_fingerprint.py\<close> hashes the effective tree of a change, and \<open>tools/verify.py\<close> runs the
  repository's gates in order.
\<close>

section \<open>Conventions\<close>

text \<open>
  Theory \<open>Prelude\<close> fixes them.  A function that may raise returns \<open>'a res\<close>, a sum whose left side is the
  exception class; an operation with effects is an \<open>('s, 'a) io\<close>, a function from a state to a result and
  a state.  \<open>bind_io\<close> sequences, \<open>catch_io m p h\<close> is a \<open>try\<close> with an \<open>except\<close> clause for the classes
  \<open>p\<close>, \<open>in_order\<close> is a sequence of checks of which the first failure counts, and \<open>validated\<close> is a
  dataclass construction with its \<open>__post_init__\<close>.  A dataclass is a record, an enum a datatype, a
  constant a definition.  A loop that may not return (the runtime loop) is a partial function whose
  \<open>None\<close> is a run without end.

  What the code does not own is a parameter: the clock, the network, the file system, SQLite's ability
  to execute a statement, the request parser of \<open>http.server\<close>, signals, git and the
  hash function are operations on an abstract outside state, and each may raise.  \<open>Py_Text\<close>, \<open>Py_Bytes\<close>,
  \<open>Py_Float\<close>, \<open>Py_Datetime\<close>, \<open>Py_Iso\<close>, \<open>Py_Json\<close> and \<open>Py_Http\<close> model the part of Python's library the
  code calls: text methods, UTF-8, binary64 with exact comparison and correct rounding, aware datetimes,
  ISO 8601, JSON with duplicate-key and constant hooks, URL splitting, and the director of \<open>urllib\<close> that the
  production openers wrap.

  \<open>Io_Hoare\<close> has triples for such operations, \<open>Io_Effect\<close> the locale \<open>io_effect\<close> of operations that
  move the state only along a reflexive and transitive relation.
\<close>

section \<open>The theories and what they show\<close>

text \<open>
  \<^item> \<open>Domain\<close>, \<open>Config\<close>, \<open>Health\<close>: the data with its checks, freshness and threshold evaluation, the
    TCP probe.
  \<^item> \<open>Debounce\<close>: the locale \<open>debounce\<close> of a state that goes down after \<open>D\<close> consecutive failures and up
    after \<open>R\<close> consecutive successes, with the history predicate \<open>confirmed_down\<close> as its specification.
    \<open>State_Resolver\<close> and \<open>Deadman\<close> interpret it: both machines are down exactly when the history
    confirms it.  \<open>Health_Engine\<close> carries this to the engine's memory.
  \<^item> \<open>Repository\<close>: rows, their serialisation and the newest-heartbeat query, as an implementation of
    the locale \<open>heartbeat_store\<close> of a list of records; \<open>Ingestion\<close>: an accepted heartbeat is what the
    engine reads next.  \<open>Schema\<close>: the bootstrap on the SQLite catalogue is atomic and idempotent.
  \<^item> \<open>Monitoring\<close>, \<open>Incidents\<close>: a pass serves every host in order or stops at the first failure, and the
    incidents of a host alternate.
  \<^item> \<open>Bot_Api\<close>, \<open>Telegram\<close>, \<open>Deadman_Telegram\<close>: one bounded exchange, shared by both senders, that
    returns exactly on a confirmed delivery and whose every other end is known.  \<open>Transport\<close>: with the openers they build themselves, the two
    senders and the probe send exactly one request and follow no redirect; one malformed redirect makes
    every dead-man run raise before it counts a failure.
  \<^item> \<open>Deadman\<close>, \<open>Deadman_Codec\<close>, \<open>Deadman_Size\<close>: the status invariant, the intent queue as a suffix of the
    ledger of all intents, the codec's round trip and its exact size.  \<open>Deadman_Store\<close>: a save is atomic at
    every system call.  \<open>Deadman_Runtime\<close>: the locale \<open>durable_store\<close>, interpreted on that file, and with
    it at-least-once delivery over any sequence of runs.  \<open>Deadman_Probe\<close>, \<open>Deadman_Config\<close>,
    \<open>Deadman_Process\<close>: the probe fails closed, loaded settings are valid, the exit code reports the cycle.
  \<^item> \<open>Wire\<close>, \<open>Http_Api\<close>, \<open>Http_Server\<close>: only the owner of a token is ingested, decoded telemetry is
    valid, the socket is read within bounds, and the answer on the wire tells what was stored.
    \<open>Acceptance\<close> is the converse: a well-formed report under its node's own token, whatever header lines
    the client adds, is stored and answered 204.
  \<^item> \<open>Env_Settings\<close>, \<open>Settings\<close>: loaded settings satisfy every constructor, every failure is the bounded
    error, and every valid configuration has a document that loads to it.
  \<^item> \<open>Runtime\<close>: each turn follows the schedule, and the loop returns when it is asked to stop.
    \<open>Application\<close>, \<open>Process\<close>: the composition of the components above over one state.  Construction owns
    both resources or none, the process cleans up on every path, and every stored row has an author
    among the accepted requests.
  \<^item> \<open>Liveness\<close>: a budget that every refusal of the stop predicate uses up is kept by every component of
    the application as soon as the operations of the outside keep it, so the process ends.
  \<^item> \<open>Fingerprint\<close>: the representation that is hashed determines the candidate, and staging a file does
    not change it.  \<open>Verify_Gate\<close>: the gates stop at the first failure.

  A \<open>text\<close> block that begins with \<open>C\<close> and a number states the property of the theorem below it; the
  theorem named \<open>..._witness\<close> applies it to a concrete case.
\<close>

section \<open>Bounds, and what is not modelled\<close>

text \<open>
  The JSON reader recurses on fuel \<open>4 * length s + 1\<close>; \<open>Py_Json\<close> proves that more than twice the length
  is enough, so the fuel is never what fails.  The interpreter's recursion limit is a different thing and an argument
  (\<open>limit\<close> of the reader, \<open>frames\<close> of the snapshot in \<open>Wire\<close>): beyond it the model raises
  \<open>RecursionError\<close> as Python does.  Integers are unbounded; the conversion limit of 4300 digits is modelled.

  Strings are lists of Latin-1 characters.  A text with other characters, which only a JSON escape or
  a UTF-8 body can introduce, ends in the exception \<open>outside_model\<close>, and the statements name it
  where it can escape.  Texts of exceptions, log lines and the reason phrase of an HTTP status are not
  modelled; of the \<open>repr\<close>s, the four the code writes itself.  Python values that reach \<open>Wire\<close> are JSON documents; a hostile mapping that raises
  while it is read is not.

  The SQLite file is its catalogue (\<open>Schema\<close>) and its rows (\<open>Repository\<close>): SQL text is represented by what
  it does, and a statement that fails has no effect.  The state directory of the dead-man is a map from
  names to contents with failing and interrupted calls; durability below the file system is not modelled.  A signal
  takes effect at the next evaluation of the stop predicate.  In \<open>Application\<close> the field \<open>ow_served\<close> is
  the history of the requests the listener accepted.  Every closing counts when it is attempted, also when the
  library's close raises.

  \<open>urllib\<close>'s director is one exchange with the network and the error handlers on its answer; the quoting
  and joining of a redirect's address and the following of a redirect are parameters of it.  The loop's
  partial function needs no fuel: \<open>Liveness\<close> bounds its turns by the budget of the stop predicate.

  Not modelled: the reporter shell script \<open>scripts/sentinel-report.sh\<close>, packaging, the package initialisers
  and argument parsing.
\<close>

end
